theory Spec2Isabelle
  imports Main
begin

section \<open>The durable store (relayer/src/db/index.js)\<close>

text \<open>
  \<^verbatim>\<open>processed_events (nonce INTEGER, chain TEXT, tx_hash TEXT, event_type TEXT,
  created_at TEXT DEFAULT (datetime('now')), PRIMARY KEY (nonce, chain, event_type))\<close>.
  A row of the table is a record of the four columns that the relayer writes; the column
  \<open>created_at\<close> is filled by the database clock, is never read by the relayer and is left
  out. The table is the list of its rows, in insertion order.

  \<^verbatim>\<open>block_cursors (chain TEXT PRIMARY KEY, last_block INTEGER)\<close> is a list of pairs.

  The nonce column holds the JavaScript number that the listeners pass, a non-negative
  integer value; block numbers are JavaScript numbers holding integers.
\<close>

record processed_event =
  nonce :: nat
  chain :: string
  tx_hash :: string
  event_type :: string

record RelayerDB =
  processed_events :: "processed_event list"
  block_cursors :: "(string \<times> int) list"

text \<open>\<open>_initTables\<close> on a fresh database file: both tables exist and are empty.\<close>

definition initTables :: RelayerDB where
  "initTables = \<lparr>processed_events = [], block_cursors = []\<rparr>"

text \<open>The primary key of a row of \<open>processed_events\<close>.\<close>

definition has_key :: "nat \<Rightarrow> string \<Rightarrow> string \<Rightarrow> processed_event \<Rightarrow> bool" where
  "has_key n c t r \<longleftrightarrow> nonce r = n \<and> chain r = c \<and> event_type r = t"

text \<open>
  \<^verbatim>\<open>SELECT 1 FROM processed_events WHERE nonce = ? AND chain = ? AND event_type = ?\<close>,
  then \<^verbatim>\<open>return !!row\<close>.
\<close>

definition isProcessed :: "RelayerDB \<Rightarrow> nat \<Rightarrow> string \<Rightarrow> string \<Rightarrow> bool" where
  "isProcessed d n c t \<longleftrightarrow> list_ex (has_key n c t) (processed_events d)"

text \<open>
  \<^verbatim>\<open>INSERT OR IGNORE INTO processed_events (nonce, chain, tx_hash, event_type) VALUES (?, ?, ?, ?)\<close>:
  a row whose primary key is already in the table is skipped without an error, any other
  row is added.
\<close>

definition markProcessed :: "RelayerDB \<Rightarrow> nat \<Rightarrow> string \<Rightarrow> string \<Rightarrow> string \<Rightarrow> RelayerDB" where
  "markProcessed d n c h t =
     (if list_ex (has_key n c t) (processed_events d) then d
      else d\<lparr>processed_events :=
               processed_events d @ [\<lparr>nonce = n, chain = c, tx_hash = h, event_type = t\<rparr>]\<rparr>)"

text \<open>
  \<^verbatim>\<open>SELECT last_block FROM block_cursors WHERE chain = ?\<close>, then
  \<^verbatim>\<open>return row ? row.last_block : 0\<close>.
\<close>

definition getLastBlock :: "RelayerDB \<Rightarrow> string \<Rightarrow> int" where
  "getLastBlock d c = (case map_of (block_cursors d) c of None \<Rightarrow> 0 | Some b \<Rightarrow> b)"

text \<open>
  \<^verbatim>\<open>INSERT OR REPLACE INTO block_cursors (chain, last_block) VALUES (?, ?)\<close>: the row of
  the same chain, if there is one, is deleted and the new row is inserted. Nothing compares
  the new block number with the stored one.
\<close>

definition setLastBlock :: "RelayerDB \<Rightarrow> string \<Rightarrow> int \<Rightarrow> RelayerDB" where
  "setLastBlock d c b =
     d\<lparr>block_cursors := filter (\<lambda>r. fst r \<noteq> c) (block_cursors d) @ [(c, b)]\<rparr>"

text \<open>The rows of the dedup table that carry a given key, and a run of \<open>markProcessed\<close> calls.\<close>

definition rows_of :: "RelayerDB \<Rightarrow> nat \<Rightarrow> string \<Rightarrow> string \<Rightarrow> processed_event list" where
  "rows_of d n c t = filter (has_key n c t) (processed_events d)"

fun markAll :: "RelayerDB \<Rightarrow> (nat \<times> string \<times> string \<times> string) list \<Rightarrow> RelayerDB" where
  "markAll d [] = d"
| "markAll d ((n, c, h, t) # ms) = markAll (markProcessed d n c h t) ms"

section \<open>Events, destination calls and the observable trace\<close>

text \<open>
  \<open>Number(x)\<close> on a BigInt \<open>x\<close> is the IEEE 754 double nearest to \<open>x\<close>, ties to the even
  significand (ECMAScript, Number constructor, clause for BigInt). For a non-negative
  integer below \<open>2 ^ 1024\<close> that double is again an integer, which is the value modelled
  here: up to 53 significant bits are kept, the rest is rounded. The nonces and proposal
  ids are ABI-decoded \<open>uint256\<close> values, so they stay in that range.
\<close>

fun bit_length :: "nat \<Rightarrow> nat" where
  "bit_length n = (if n = 0 then 0 else Suc (bit_length (n div 2)))"

declare bit_length.simps [simp del]

definition Number :: "nat \<Rightarrow> nat" where
  "Number n =
     (let l = bit_length n in
      if l \<le> 53 then n
      else
        let s = l - 53; q = n div 2 ^ s; r = n mod 2 ^ s; half = 2 ^ (s - 1) in
        if half < r \<or> (r = half \<and> odd q) then (q + 1) * 2 ^ s else q * 2 ^ s)"

text \<open>
  The event logs as the listeners read them: \<open>log.blockNumber\<close> and the decoded arguments
  \<open>parsed.args\<close> of \<open>Locked(user, amount, nonce)\<close>, \<open>Burned(user, amount, nonce)\<close> and
  \<open>ProposalPassed(proposalId, data)\<close>; \<open>data\<close> is the hex string that ethers returns.
\<close>

record event_log =
  blockNumber :: int

record transfer_log = event_log +
  args_user :: string
  args_amount :: nat
  args_nonce :: nat

record proposal_log = event_log +
  args_proposalId :: nat
  args_data :: string

text \<open>
  A destination call either is mined, giving \<open>receipt.hash\<close>, or throws inside the
  \<open>try\<close> block. The custom errors are those of BridgeLock.sol and BridgeMint.sol; every
  other failure (RPC, access control, pause) is \<open>OtherError\<close> with its message.
\<close>

datatype dest_error = NonceAlreadyProcessed nat | ZeroAmount | OtherError string

datatype outcome = Mined string | Threw dest_error

datatype dest_call = mintWrapped string nat nat | unlock string nat nat | pauseBridge

datatype listener_id = LockListener | BurnListener | GovernanceListener

text \<open>
  The lines written through \<open>this.log\<close>, one constructor for each message of the listeners:
  "Scanning ... blocks from \<rightarrow> to", "not yet confirmed", "already processed, skipping",
  "Processing nonce", "Processing governance proposal ... selector", "successful ... tx",
  "attempt k/3 failed: message", "CRITICAL", "Unknown governance action selector".
\<close>

datatype log_entry =
    RecoveryScanning listener_id int int
  | NotYetConfirmed listener_id nat
  | AlreadyProcessed listener_id nat
  | Processing listener_id nat
  | ProcessingProposal nat string
  | Successful listener_id nat string
  | AttemptFailed listener_id nat dest_error
  | Critical listener_id nat
  | UnknownSelector string

text \<open>
  What a listener does to the outside, in order: a log line, a sleep in milliseconds, a
  destination call handed to the contract object together with what came back.
\<close>

datatype effect = Log log_entry | Sleep nat | Submit dest_call outcome

record world =
  db :: RelayerDB
  trace :: "effect list"

fun is_Submit :: "effect \<Rightarrow> bool" where
  "is_Submit (Submit c r) = True"
| "is_Submit e = False"

definition submitted :: "effect list \<Rightarrow> nat" where
  "submitted es = length (filter is_Submit es)"

definition emit :: "world \<Rightarrow> effect list \<Rightarrow> world" where
  "emit w es = w\<lparr>trace := trace w @ es\<rparr>"

text \<open>
  The collaborators a listener is constructed with. \<open>queryFilter from to\<close> is the answer
  of the source contract's \<open>queryFilter(filter, from, to)\<close>; \<open>submitTx k c\<close> is what the
  destination contract answers to the call \<open>c\<close> when \<open>k\<close> calls were made before it
  (the call and its \<open>tx.wait()\<close> together); \<open>confirmationDepth\<close> is the configured depth.
\<close>

record 'e listener =
  queryFilter :: "int \<Rightarrow> int \<Rightarrow> 'e list"
  submitTx :: "nat \<Rightarrow> dest_call \<Rightarrow> outcome"
  confirmationDepth :: int

definition MAX_RETRIES :: nat where
  "MAX_RETRIES = 3"

definition RETRY_DELAY_MS :: nat where
  "RETRY_DELAY_MS = 2000"

section \<open>LockListener (lockListener.js)\<close>

text \<open>
  The retry loop of \<open>_handleEvent\<close>,
  \<^verbatim>\<open>for (let attempt = 1; attempt <= MAX_RETRIES; attempt++) { try {...; return} catch (err) {...} }\<close>.
  The \<open>catch\<close> clause treats every error alike.
\<close>

function LockListener_retry ::
  "transfer_log listener \<Rightarrow> transfer_log \<Rightarrow> nat \<Rightarrow> world \<Rightarrow> world" where
  "LockListener_retry L ev attempt w =
     (if attempt \<le> MAX_RETRIES then
        (let n = Number (args_nonce ev);
             c = mintWrapped (args_user ev) (args_amount ev) n
         in case submitTx L (submitted (trace w)) c of
              Mined h \<Rightarrow>
                emit (w\<lparr>db := setLastBlock (markProcessed (db w) n ''chainA'' h ''Locked'')
                                ''chainA_lock'' (blockNumber ev)\<rparr>)
                  [Submit c (Mined h), Log (Successful LockListener n h)]
            | Threw err \<Rightarrow>
                (if attempt < MAX_RETRIES then
                   LockListener_retry L ev (attempt + 1)
                     (emit w [Submit c (Threw err), Log (AttemptFailed LockListener attempt err),
                              Sleep RETRY_DELAY_MS])
                 else
                   LockListener_retry L ev (attempt + 1)
                     (emit w [Submit c (Threw err), Log (AttemptFailed LockListener attempt err),
                              Log (Critical LockListener n)])))
      else w)"
  by pat_completeness auto
termination
  by (relation "measure (\<lambda>(L, ev, attempt, w). Suc MAX_RETRIES - attempt)") auto

declare LockListener_retry.simps [simp del]

definition LockListener_handleEvent ::
  "transfer_log listener \<Rightarrow> transfer_log \<Rightarrow> int \<Rightarrow> world \<Rightarrow> world" where
  "LockListener_handleEvent L ev currentBlock w =
     (let n = Number (args_nonce ev) in
      if currentBlock - blockNumber ev < confirmationDepth L then
        emit w [Log (NotYetConfirmed LockListener n)]
      else if isProcessed (db w) n ''chainA'' ''Locked'' then
        emit w [Log (AlreadyProcessed LockListener n)]
      else LockListener_retry L ev 1 (emit w [Log (Processing LockListener n)]))"

text \<open>
  \<open>recoverMissedEvents\<close>; \<open>currentBlock\<close> is the answer of \<open>providerA.getBlockNumber()\<close>.
\<close>

definition LockListener_recoverMissedEvents ::
  "transfer_log listener \<Rightarrow> int \<Rightarrow> world \<Rightarrow> world" where
  "LockListener_recoverMissedEvents L currentBlock w =
     (let lastBlock = getLastBlock (db w) ''chainA_lock'' in
      if lastBlock \<ge> currentBlock then w
      else
        let w1 = emit w [Log (RecoveryScanning LockListener (lastBlock + 1) currentBlock)];
            events = queryFilter L (lastBlock + 1) currentBlock;
            w2 = foldl (\<lambda>v ev. LockListener_handleEvent L ev currentBlock v) w1 events
        in w2\<lparr>db := setLastBlock (db w2) ''chainA_lock'' currentBlock\<rparr>)"

text \<open>
  \<open>_waitForConfirmation\<close>, a \<open>while (true)\<close> loop around \<open>providerA.getBlockNumber()\<close>:
  \<open>heads k\<close> is the answer to the poll number \<open>k\<close>. The loop has no bound, so the result is
  an option: \<open>None\<close> when no poll ever reaches the target block.
\<close>

partial_function (option) LockListener_waitForConfirmation ::
  "transfer_log listener \<Rightarrow> (nat \<Rightarrow> int) \<Rightarrow> nat \<Rightarrow> transfer_log \<Rightarrow> world \<Rightarrow> world option" where
  "LockListener_waitForConfirmation L heads k eventLog w =
     (let targetBlock = blockNumber eventLog + confirmationDepth L;
          currentBlock = heads k
      in if currentBlock \<ge> targetBlock then
           Some (LockListener_handleEvent L eventLog currentBlock w)
         else LockListener_waitForConfirmation L heads (Suc k) eventLog (emit w [Sleep 1000]))"

section \<open>BurnListener (burnListener.js)\<close>

function BurnListener_retry ::
  "transfer_log listener \<Rightarrow> transfer_log \<Rightarrow> nat \<Rightarrow> world \<Rightarrow> world" where
  "BurnListener_retry L ev attempt w =
     (if attempt \<le> MAX_RETRIES then
        (let n = Number (args_nonce ev);
             c = unlock (args_user ev) (args_amount ev) n
         in case submitTx L (submitted (trace w)) c of
              Mined h \<Rightarrow>
                emit (w\<lparr>db := setLastBlock (markProcessed (db w) n ''chainB'' h ''Burned'')
                                ''chainB_burn'' (blockNumber ev)\<rparr>)
                  [Submit c (Mined h), Log (Successful BurnListener n h)]
            | Threw err \<Rightarrow>
                (if attempt < MAX_RETRIES then
                   BurnListener_retry L ev (attempt + 1)
                     (emit w [Submit c (Threw err), Log (AttemptFailed BurnListener attempt err),
                              Sleep RETRY_DELAY_MS])
                 else
                   BurnListener_retry L ev (attempt + 1)
                     (emit w [Submit c (Threw err), Log (AttemptFailed BurnListener attempt err),
                              Log (Critical BurnListener n)])))
      else w)"
  by pat_completeness auto
termination
  by (relation "measure (\<lambda>(L, ev, attempt, w). Suc MAX_RETRIES - attempt)") auto

declare BurnListener_retry.simps [simp del]

definition BurnListener_handleEvent ::
  "transfer_log listener \<Rightarrow> transfer_log \<Rightarrow> int \<Rightarrow> world \<Rightarrow> world" where
  "BurnListener_handleEvent L ev currentBlock w =
     (let n = Number (args_nonce ev) in
      if currentBlock - blockNumber ev < confirmationDepth L then
        emit w [Log (NotYetConfirmed BurnListener n)]
      else if isProcessed (db w) n ''chainB'' ''Burned'' then
        emit w [Log (AlreadyProcessed BurnListener n)]
      else BurnListener_retry L ev 1 (emit w [Log (Processing BurnListener n)]))"

section \<open>GovernanceListener (governanceListener.js)\<close>

definition pauseSelector :: string where
  "pauseSelector = ''0x6b9a13e3''"

function GovernanceListener_executePauseBridge ::
  "proposal_log listener \<Rightarrow> nat \<Rightarrow> proposal_log \<Rightarrow> nat \<Rightarrow> world \<Rightarrow> world" where
  "GovernanceListener_executePauseBridge L proposalId ev attempt w =
     (if attempt \<le> MAX_RETRIES then
        (case submitTx L (submitted (trace w)) pauseBridge of
           Mined h \<Rightarrow>
             emit (w\<lparr>db := setLastBlock
                             (markProcessed (db w) proposalId ''chainB'' h ''ProposalPassed'')
                             ''chainB_governance'' (blockNumber ev)\<rparr>)
               [Submit pauseBridge (Mined h), Log (Successful GovernanceListener proposalId h)]
         | Threw err \<Rightarrow>
             (if attempt < MAX_RETRIES then
                GovernanceListener_executePauseBridge L proposalId ev (attempt + 1)
                  (emit w [Submit pauseBridge (Threw err),
                           Log (AttemptFailed GovernanceListener attempt err),
                           Sleep RETRY_DELAY_MS])
              else
                GovernanceListener_executePauseBridge L proposalId ev (attempt + 1)
                  (emit w [Submit pauseBridge (Threw err),
                           Log (AttemptFailed GovernanceListener attempt err),
                           Log (Critical GovernanceListener proposalId)])))
      else w)"
  by pat_completeness auto
termination
  by (relation "measure (\<lambda>(L, p, ev, attempt, w). Suc MAX_RETRIES - attempt)") auto

declare GovernanceListener_executePauseBridge.simps [simp del]

text \<open>\<open>data.slice(0, 10)\<close> is the first ten characters of the hex string, fewer if it is shorter.\<close>

definition GovernanceListener_handleEvent ::
  "proposal_log listener \<Rightarrow> proposal_log \<Rightarrow> int \<Rightarrow> world \<Rightarrow> world" where
  "GovernanceListener_handleEvent L ev currentBlock w =
     (let proposalId = Number (args_proposalId ev);
          data = args_data ev
      in
      if currentBlock - blockNumber ev < confirmationDepth L then
        emit w [Log (NotYetConfirmed GovernanceListener proposalId)]
      else if isProcessed (db w) proposalId ''chainB'' ''ProposalPassed'' then
        emit w [Log (AlreadyProcessed GovernanceListener proposalId)]
      else
        let selector = take 10 data;
            w1 = emit w [Log (ProcessingProposal proposalId selector)]
        in if selector = pauseSelector then
             GovernanceListener_executePauseBridge L proposalId ev 1 w1
           else emit w1 [Log (UnknownSelector selector)])"

definition GovernanceListener_recoverMissedEvents ::
  "proposal_log listener \<Rightarrow> int \<Rightarrow> world \<Rightarrow> world" where
  "GovernanceListener_recoverMissedEvents L currentBlock w =
     (let lastBlock = getLastBlock (db w) ''chainB_governance'' in
      if lastBlock \<ge> currentBlock then w
      else
        let w1 = emit w [Log (RecoveryScanning GovernanceListener (lastBlock + 1) currentBlock)];
            events = queryFilter L (lastBlock + 1) currentBlock;
            w2 = foldl (\<lambda>v ev. GovernanceListener_handleEvent L ev currentBlock v) w1 events
        in w2\<lparr>db := setLastBlock (db w2) ''chainB_governance'' currentBlock\<rparr>)"

section \<open>The contract objects\<close>

text \<open>
  The destination contracts are ethers v6 \<open>Contract\<close> objects (relayer/src/index.js). The
  listeners pass the nonce as a JavaScript number. ethers encodes a number given for a
  \<open>uint256\<close> argument only if it is a safe integer, at most \<open>2 ^ 53 - 1\<close>, and otherwise
  throws inside the call, before anything is sent. \<open>ethers_contract node\<close> is the answer
  of such a contract object when the node behind it answers \<open>node\<close>. The amount is
  passed as the decoded BigInt, which is encoded as it is.
\<close>

fun safe_arguments :: "dest_call \<Rightarrow> bool" where
  "safe_arguments (mintWrapped u a n) = (n < 2 ^ 53)"
| "safe_arguments (unlock u a n) = (n < 2 ^ 53)"
| "safe_arguments pauseBridge = True"

definition ethers_contract :: "(nat \<Rightarrow> dest_call \<Rightarrow> outcome) \<Rightarrow> nat \<Rightarrow> dest_call \<Rightarrow> outcome" where
  "ethers_contract node k c =
     (if safe_arguments c then node k c else Threw (OtherError ''overflow''))"

section \<open>Observations on runs\<close>

text \<open>
  The number of mined \<open>mintWrapped\<close> calls that carried the nonce \<open>n\<close>, read off a trace.
\<close>

fun is_mined_mint :: "nat \<Rightarrow> effect \<Rightarrow> bool" where
  "is_mined_mint n (Submit (mintWrapped u a m) (Mined h)) = (m = n)"
| "is_mined_mint n e = False"

definition mined_mints :: "nat \<Rightarrow> effect list \<Rightarrow> nat" where
  "mined_mints n es = length (filter (is_mined_mint n) es)"

text \<open>
  The same for mined \<open>unlock\<close> calls. \<open>pauseBridge()\<close> takes no argument, so for the
  governance stream the mined calls are counted as such, next to the lines "Bridge paused
  via governance - proposal p", which name the proposal a mined call was made for.
\<close>

fun is_mined_unlock :: "nat \<Rightarrow> effect \<Rightarrow> bool" where
  "is_mined_unlock n (Submit (unlock u a m) (Mined h)) = (m = n)"
| "is_mined_unlock n e = False"

definition mined_unlocks :: "nat \<Rightarrow> effect list \<Rightarrow> nat" where
  "mined_unlocks n es = length (filter (is_mined_unlock n) es)"

fun is_mined_pause :: "effect \<Rightarrow> bool" where
  "is_mined_pause (Submit pauseBridge (Mined h)) = True"
| "is_mined_pause e = False"

definition mined_pauses :: "effect list \<Rightarrow> nat" where
  "mined_pauses es = length (filter is_mined_pause es)"

fun is_pause_logged :: "effect \<Rightarrow> bool" where
  "is_pause_logged (Log (Successful GovernanceListener p h)) = True"
| "is_pause_logged e = False"

definition pauses_logged :: "effect list \<Rightarrow> nat" where
  "pauses_logged es = length (filter is_pause_logged es)"

fun is_pause_logged_for :: "nat \<Rightarrow> effect \<Rightarrow> bool" where
  "is_pause_logged_for p (Log (Successful GovernanceListener q h)) = (q = p)"
| "is_pause_logged_for p e = False"

definition pauses_logged_for :: "nat \<Rightarrow> effect list \<Rightarrow> nat" where
  "pauses_logged_for p es = length (filter (is_pause_logged_for p) es)"

text \<open>
  Any number of \<open>_handleEvent\<close> calls of one listener that run one after the other: each
  call has returned before the next one starts.
\<close>

definition LockListener_run ::
  "transfer_log listener \<Rightarrow> world \<Rightarrow> (transfer_log \<times> int) list \<Rightarrow> world" where
  "LockListener_run L w calls =
     foldl (\<lambda>v (ev, currentBlock). LockListener_handleEvent L ev currentBlock v) w calls"

definition BurnListener_run ::
  "transfer_log listener \<Rightarrow> world \<Rightarrow> (transfer_log \<times> int) list \<Rightarrow> world" where
  "BurnListener_run L w calls =
     foldl (\<lambda>v (ev, currentBlock). BurnListener_handleEvent L ev currentBlock v) w calls"

definition GovernanceListener_run ::
  "proposal_log listener \<Rightarrow> world \<Rightarrow> (proposal_log \<times> int) list \<Rightarrow> world" where
  "GovernanceListener_run L w calls =
     foldl (\<lambda>v (ev, currentBlock). GovernanceListener_handleEvent L ev currentBlock v) w calls"

text \<open>
  \<open>_handleEvent\<close> is an \<open>async\<close> function, and \<open>startListening\<close> does not wait for the
  call it starts. Up to its first \<open>await\<close> (the destination call of the first attempt) a
  call runs without interruption: it decodes the event, makes the confirmation check and
  the replay check, and logs. \<open>LockListener_handleEvent_begin\<close> is that part, with the
  answer whether the retry loop is entered; \<open>LockListener_handleEvent_rest\<close> is the
  remainder. \<open>LockListener_overlapped\<close> is one schedule of two calls that overlap: the
  second call starts while the first one waits for its destination call.
\<close>

definition LockListener_handleEvent_begin ::
  "transfer_log listener \<Rightarrow> transfer_log \<Rightarrow> int \<Rightarrow> world \<Rightarrow> bool \<times> world" where
  "LockListener_handleEvent_begin L ev currentBlock w =
     (let n = Number (args_nonce ev) in
      if currentBlock - blockNumber ev < confirmationDepth L then
        (False, emit w [Log (NotYetConfirmed LockListener n)])
      else if isProcessed (db w) n ''chainA'' ''Locked'' then
        (False, emit w [Log (AlreadyProcessed LockListener n)])
      else (True, emit w [Log (Processing LockListener n)]))"

definition LockListener_handleEvent_rest ::
  "transfer_log listener \<Rightarrow> transfer_log \<Rightarrow> bool \<Rightarrow> world \<Rightarrow> world" where
  "LockListener_handleEvent_rest L ev entered w =
     (if entered then LockListener_retry L ev 1 w else w)"

definition LockListener_overlapped ::
  "transfer_log listener \<Rightarrow> transfer_log \<Rightarrow> int \<Rightarrow> transfer_log \<Rightarrow> int \<Rightarrow> world \<Rightarrow> world" where
  "LockListener_overlapped L ev1 head1 ev2 head2 w =
     (let (entered1, w1) = LockListener_handleEvent_begin L ev1 head1 w;
          (entered2, w2) = LockListener_handleEvent_begin L ev2 head2 w1;
          w3 = LockListener_handleEvent_rest L ev1 entered1 w2
      in LockListener_handleEvent_rest L ev2 entered2 w3)"

text \<open>
  The states that a \<open>for (const event of events)\<close> loop passes through, the starting state
  first, and the \<open>chainA_lock\<close> cursor values of one recovery pass: before each event,
  after the last one, and as written by the closing \<open>setLastBlock\<close>.
\<close>

fun states :: "(world \<Rightarrow> 'e \<Rightarrow> world) \<Rightarrow> world \<Rightarrow> 'e list \<Rightarrow> world list" where
  "states f w [] = [w]"
| "states f w (e # es) = w # states f (f w e) es"

definition LockListener_recovery_cursors ::
  "transfer_log listener \<Rightarrow> int \<Rightarrow> world \<Rightarrow> int list" where
  "LockListener_recovery_cursors L currentBlock w =
     (let lastBlock = getLastBlock (db w) ''chainA_lock'';
          w1 = emit w [Log (RecoveryScanning LockListener (lastBlock + 1) currentBlock)]
      in map (\<lambda>v. getLastBlock (db v) ''chainA_lock'')
           (states (\<lambda>v ev. LockListener_handleEvent L ev currentBlock v) w1
              (queryFilter L (lastBlock + 1) currentBlock))
         @ [getLastBlock (db (LockListener_recoverMissedEvents L currentBlock w))
              ''chainA_lock''])"

section \<open>Scenarios\<close>

text \<open>
  A Locked event of 100 tokens at block 50 with nonce 0, two later Locked events, a source
  chain that holds just the first event, destination contracts that always throw, that always revert with
  \<open>NonceAlreadyProcessed\<close>, and that mine every call, and a relayer started on a new
  database; the configured depth is 3.
\<close>

definition lock_at_50 :: transfer_log where
  "lock_at_50 = \<lparr>blockNumber = 50, args_user = ''0xf39f'', args_amount = 100, args_nonce = 0\<rparr>"

definition lock_at_101 :: transfer_log where
  "lock_at_101 = \<lparr>blockNumber = 101, args_user = ''0xf39f'', args_amount = 7, args_nonce = 1\<rparr>"

definition lock_at_102 :: transfer_log where
  "lock_at_102 = \<lparr>blockNumber = 102, args_user = ''0xf39f'', args_amount = 9, args_nonce = 2\<rparr>"

definition chain_with_lock_at_50 :: "int \<Rightarrow> int \<Rightarrow> transfer_log list" where
  "chain_with_lock_at_50 fromBlock toBlock =
     (if fromBlock \<le> 50 \<and> 50 \<le> toBlock then [lock_at_50] else [])"

definition rpc_down :: "nat \<Rightarrow> dest_call \<Rightarrow> outcome" where
  "rpc_down k c = Threw (OtherError ''timeout'')"

fun nonce_seen :: "nat \<Rightarrow> dest_call \<Rightarrow> outcome" where
  "nonce_seen k (mintWrapped u a n) = Threw (NonceAlreadyProcessed n)"
| "nonce_seen k (unlock u a n) = Threw (NonceAlreadyProcessed n)"
| "nonce_seen k pauseBridge = Threw (OtherError ''reverted'')"

definition always_mined :: "nat \<Rightarrow> dest_call \<Rightarrow> outcome" where
  "always_mined k c = Mined ''0xaa''"

definition lock_listener_down :: "transfer_log listener" where
  "lock_listener_down =
     \<lparr>queryFilter = chain_with_lock_at_50, submitTx = rpc_down, confirmationDepth = 3\<rparr>"

definition lock_listener_seen :: "transfer_log listener" where
  "lock_listener_seen =
     \<lparr>queryFilter = chain_with_lock_at_50, submitTx = nonce_seen, confirmationDepth = 3\<rparr>"

definition lock_listener_ok :: "transfer_log listener" where
  "lock_listener_ok =
     \<lparr>queryFilter = chain_with_lock_at_50, submitTx = always_mined, confirmationDepth = 3\<rparr>"

text \<open>A Burned event of 100 tokens at block 120 with burn nonce 0, and its listener.\<close>

definition burn_at_120 :: transfer_log where
  "burn_at_120 = \<lparr>blockNumber = 120, args_user = ''0xf39f'', args_amount = 100, args_nonce = 0\<rparr>"

definition chain_with_burn_at_120 :: "int \<Rightarrow> int \<Rightarrow> transfer_log list" where
  "chain_with_burn_at_120 fromBlock toBlock =
     (if fromBlock \<le> 120 \<and> 120 \<le> toBlock then [burn_at_120] else [])"

definition burn_listener_seen :: "transfer_log listener" where
  "burn_listener_seen =
     \<lparr>queryFilter = chain_with_burn_at_120, submitTx = nonce_seen, confirmationDepth = 3\<rparr>"

text \<open>
  Events whose nonce or proposal id is \<open>2 ^ 53 + 3\<close> or \<open>2 ^ 53 + 4\<close>, the proposals
  carrying the selector of \<open>pauseBridge()\<close>, and a lock and a burn listener whose
  destination is an ethers contract on a chain that mines every call it receives.
\<close>

definition transfer_above_2_53 :: transfer_log where
  "transfer_above_2_53 =
     \<lparr>blockNumber = 50, args_user = ''0xf39f'', args_amount = 100, args_nonce = 2 ^ 53 + 3\<rparr>"

definition transfer_2_53_4 :: transfer_log where
  "transfer_2_53_4 =
     \<lparr>blockNumber = 49, args_user = ''0xf39f'', args_amount = 100, args_nonce = 2 ^ 53 + 4\<rparr>"

definition proposal_above_2_53 :: proposal_log where
  "proposal_above_2_53 =
     \<lparr>blockNumber = 50, args_proposalId = 2 ^ 53 + 3, args_data = ''0x6b9a13e3''\<rparr>"

definition proposal_2_53_4 :: proposal_log where
  "proposal_2_53_4 =
     \<lparr>blockNumber = 49, args_proposalId = 2 ^ 53 + 4, args_data = ''0x6b9a13e3''\<rparr>"

definition no_transfers :: "int \<Rightarrow> int \<Rightarrow> transfer_log list" where
  "no_transfers fromBlock toBlock = []"

definition transfer_listener_ethers :: "transfer_log listener" where
  "transfer_listener_ethers =
     \<lparr>queryFilter = no_transfers, submitTx = ethers_contract always_mined,
      confirmationDepth = 3\<rparr>"

text \<open>A source chain whose head is at block 50 at the first poll and grows by one per poll.\<close>

definition heads_from_50 :: "nat \<Rightarrow> int" where
  "heads_from_50 k = 50 + int k"

text \<open>
  A burn listener whose destination mines every call, and proposal 0 passed at block 200
  with the selector of \<open>pauseBridge()\<close> as its data.
\<close>

definition burn_listener_ok :: "transfer_log listener" where
  "burn_listener_ok =
     \<lparr>queryFilter = chain_with_burn_at_120, submitTx = always_mined, confirmationDepth = 3\<rparr>"

definition proposal_0 :: proposal_log where
  "proposal_0 = \<lparr>blockNumber = 200, args_proposalId = 0, args_data = ''0x6b9a13e3''\<rparr>"

definition fresh :: world where
  "fresh = \<lparr>db = initTables, trace = []\<rparr>"

text \<open>
  Proposal 1 passed at block 200 with data \<open>0xdeadbeef\<close>, and a governance listener whose
  destination mines every call.
\<close>

definition proposal_1 :: proposal_log where
  "proposal_1 = \<lparr>blockNumber = 200, args_proposalId = 1, args_data = ''0xdeadbeef''\<rparr>"

definition no_proposals :: "int \<Rightarrow> int \<Rightarrow> proposal_log list" where
  "no_proposals fromBlock toBlock = []"

definition governance_listener_ok :: "proposal_log listener" where
  "governance_listener_ok =
     \<lparr>queryFilter = no_proposals, submitTx = always_mined, confirmationDepth = 3\<rparr>"

section \<open>Properties of the store\<close>

lemma isProcessed_rows_of: "isProcessed d n c t \<longleftrightarrow> rows_of d n c t \<noteq> []"
  by (simp add: isProcessed_def rows_of_def list_ex_iff filter_empty_conv)

lemma markProcessed_present:
  "isProcessed d n c t \<Longrightarrow> markProcessed d n c h t = d"
  by (simp add: isProcessed_def markProcessed_def)

lemma isProcessed_markProcessed:
  "isProcessed (markProcessed d n c h t) n' c' t' \<longleftrightarrow>
     (n' = n \<and> c' = c \<and> t' = t) \<or> isProcessed d n' c' t'"
  by (auto simp: isProcessed_def markProcessed_def has_key_def list_ex_iff)

lemma rows_of_markProcessed_same:
  "rows_of (markProcessed d n c h t) n c t =
     (if isProcessed d n c t then rows_of d n c t
      else [\<lparr>nonce = n, chain = c, tx_hash = h, event_type = t\<rparr>])"
  by (auto simp: rows_of_def markProcessed_def isProcessed_def has_key_def list_ex_iff
      filter_empty_conv)

lemma rows_of_markProcessed_other:
  "\<not> (n' = n \<and> c' = c \<and> t' = t) \<Longrightarrow>
     rows_of (markProcessed d n c h t) n' c' t' = rows_of d n' c' t'"
  by (auto simp: rows_of_def markProcessed_def has_key_def)

lemma rows_of_markProcessed_le:
  "length (rows_of d n' c' t') \<le> 1 \<Longrightarrow>
     length (rows_of (markProcessed d n c h t) n' c' t') \<le> 1"
  by (cases "n' = n \<and> c' = c \<and> t' = t")
    (auto simp: rows_of_markProcessed_same rows_of_markProcessed_other)

lemma rows_of_markAll_le:
  "length (rows_of d n c t) \<le> 1 \<Longrightarrow> length (rows_of (markAll d ms) n c t) \<le> 1"
proof (induction ms arbitrary: d)
  case Nil
  then show ?case by simp
next
  case (Cons m ms)
  obtain n' c' h' t' where m: "m = (n', c', h', t')"
    by (cases m) auto
  have "length (rows_of (markProcessed d n' c' h' t') n c t) \<le> 1"
    using Cons.prems by (rule rows_of_markProcessed_le)
  then show ?case
    unfolding m markAll.simps by (rule Cons.IH)
qed

lemma map_of_filter_fst:
  "map_of (filter (\<lambda>r. fst r \<noteq> c) xs) c' = (if c' = c then None else map_of xs c')"
  by (induction xs) auto

lemma getLastBlock_setLastBlock:
  "getLastBlock (setLastBlock d c b) c' = (if c' = c then b else getLastBlock d c')"
  by (simp add: getLastBlock_def setLastBlock_def map_of_filter_fst map_add_def
      split: option.splits)

lemma isProcessed_setLastBlock [simp]:
  "isProcessed (setLastBlock d c b) n c' t = isProcessed d n c' t"
  by (simp add: isProcessed_def setLastBlock_def)

lemma isProcessed_markProcessed_mono:
  "isProcessed d n c t \<Longrightarrow> isProcessed (markProcessed d n' c' h t') n c t"
  by (simp add: isProcessed_markProcessed)

lemma initTables_unprocessed [simp]: "\<not> isProcessed initTables n c t"
  by (simp add: isProcessed_def initTables_def)

lemma getLastBlock_initTables [simp]: "getLastBlock initTables c = 0"
  by (simp add: getLastBlock_def initTables_def)

section \<open>Effects and traces\<close>

lemma db_emit [simp]: "db (emit w es) = db w"
  by (simp add: emit_def)

lemma trace_emit [simp]: "trace (emit w es) = trace w @ es"
  by (simp add: emit_def)

lemma emit_emit: "emit (emit w es) fs = emit w (es @ fs)"
  by (simp add: emit_def)

lemma emit_Nil [simp]: "emit w [] = w"
  by (simp add: emit_def)

lemma submitted_append [simp]: "submitted (es @ fs) = submitted es + submitted fs"
  by (simp add: submitted_def)

lemma submitted_simps [simp]:
  "submitted [] = 0"
  "submitted (Submit c r # es) = Suc (submitted es)"
  "submitted (Log l # es) = submitted es"
  "submitted (Sleep t # es) = submitted es"
  by (simp_all add: submitted_def)

lemma mined_mints_append [simp]:
  "mined_mints n (es @ fs) = mined_mints n es + mined_mints n fs"
  by (simp add: mined_mints_def)

lemma mined_mints_simps [simp]:
  "mined_mints n [] = 0"
  "mined_mints n (Log l # es) = mined_mints n es"
  "mined_mints n (Sleep t # es) = mined_mints n es"
  "mined_mints n (Submit c (Threw err) # es) = mined_mints n es"
  "mined_mints n (Submit (mintWrapped u a m) (Mined h) # es) =
     (if m = n then Suc (mined_mints n es) else mined_mints n es)"
  by (simp_all add: mined_mints_def)

lemma three_indices:
  assumes "\<forall>j<3. f (k + j) = (v::'a)"
  shows "f k = v" "f (Suc k) = v" "f (Suc (Suc k)) = v"
  using assms [rule_format, of 0] assms [rule_format, of 1] assms [rule_format, of 2]
  by simp_all

lemma emit_eq_iff [simp]: "emit w es = emit w fs \<longleftrightarrow> es = fs"
proof
  assume "emit w es = emit w fs"
  then have "trace (emit w es) = trace (emit w fs)" by simp
  then show "es = fs" by simp
qed simp

lemma states_Cons: "\<exists>vs. states f v es = v # vs"
  by (cases es) simp_all

section \<open>The number conversion\<close>

lemma bit_length_less: "bit_length n \<le> k \<longleftrightarrow> n < 2 ^ k"
proof (induction n arbitrary: k rule: bit_length.induct)
  case (1 n)
  show ?case
  proof (cases "n = 0")
    case True
    then show ?thesis by (simp add: bit_length.simps)
  next
    case False
    show ?thesis
    proof (cases k)
      case 0
      with False show ?thesis by (simp add: bit_length.simps)
    next
      case (Suc j)
      have "bit_length n = Suc (bit_length (n div 2))"
        using False by (subst bit_length.simps) simp
      moreover have "bit_length (n div 2) \<le> j \<longleftrightarrow> n div 2 < 2 ^ j"
        using False by (rule "1.IH")
      moreover have "n div 2 < 2 ^ j \<longleftrightarrow> n < 2 ^ Suc j"
        by auto
      ultimately show ?thesis using Suc by simp
    qed
  qed
qed

lemma bit_length_eq: "2 ^ k \<le> n \<Longrightarrow> n < 2 ^ Suc k \<Longrightarrow> bit_length n = Suc k"
  using bit_length_less [of n "Suc k"] bit_length_less [of n k] by auto

lemma Number_small: "n < 2 ^ 53 \<Longrightarrow> Number n = n"
  using bit_length_less [of n 53] by (simp add: Number_def)

lemma Number_54_bits:
  assumes "2 ^ 53 \<le> n" and "n < 2 ^ 54"
  shows "Number n =
     (if 1 < n mod 2 \<or> (n mod 2 = 1 \<and> odd (n div 2)) then (n div 2 + 1) * 2 else n div 2 * 2)"
proof -
  have "bit_length n = Suc 53"
    using assms by (intro bit_length_eq) simp_all
  then have "bit_length n = 54"
    by simp
  then show ?thesis
    by (simp add: Number_def Let_def)
qed

lemma Number_exact_up_to_2_53:
  assumes "n \<le> 2 ^ 53"
  shows "Number n = n"
proof (cases "n < 2 ^ 53")
  case True
  then show ?thesis by (rule Number_small)
next
  case False
  with assms have n: "n = 2 ^ 53" by simp
  have "Number (2 ^ 53) = (2::nat) ^ 53"
    by (subst Number_54_bits) simp_all
  with n show ?thesis by simp
qed

lemma Number_2_53_3: "Number (2 ^ 53 + 3) = 2 ^ 53 + 4"
  by (subst Number_54_bits) simp_all

lemma Number_2_53_4: "Number (2 ^ 53 + 4) = 2 ^ 53 + 4"
  by (subst Number_54_bits) simp_all

section \<open>The lock listener\<close>

lemma LockListener_retry_mined:
  assumes "attempt \<le> 3"
    and "submitTx L (submitted (trace w)) (mintWrapped (args_user ev) (args_amount ev) (Number (args_nonce ev))) = Mined h"
  shows "LockListener_retry L ev attempt w =
     emit (w\<lparr>db := setLastBlock (markProcessed (db w) (Number (args_nonce ev)) ''chainA'' h ''Locked'')
                     ''chainA_lock'' (blockNumber ev)\<rparr>)
       [Submit (mintWrapped (args_user ev) (args_amount ev) (Number (args_nonce ev))) (Mined h),
        Log (Successful LockListener (Number (args_nonce ev)) h)]"
  using assms by (subst LockListener_retry.simps) (simp add: MAX_RETRIES_def Let_def)

lemma LockListener_retry_threw:
  assumes "attempt < 3"
    and "submitTx L (submitted (trace w)) (mintWrapped (args_user ev) (args_amount ev) (Number (args_nonce ev))) = Threw err"
  shows "LockListener_retry L ev attempt w =
     LockListener_retry L ev (Suc attempt)
       (emit w [Submit (mintWrapped (args_user ev) (args_amount ev) (Number (args_nonce ev))) (Threw err),
                Log (AttemptFailed LockListener attempt err), Sleep 2000])"
  using assms by (subst LockListener_retry.simps) (simp add: MAX_RETRIES_def RETRY_DELAY_MS_def Let_def)

lemma LockListener_retry_over: "3 < attempt \<Longrightarrow> LockListener_retry L ev attempt w = w"
  by (subst LockListener_retry.simps) (simp add: MAX_RETRIES_def Let_def)

lemma LockListener_retry_last:
  assumes "submitTx L (submitted (trace w)) (mintWrapped (args_user ev) (args_amount ev) (Number (args_nonce ev))) = Threw err"
  shows "LockListener_retry L ev 3 w =
       emit w [Submit (mintWrapped (args_user ev) (args_amount ev) (Number (args_nonce ev))) (Threw err),
                Log (AttemptFailed LockListener 3 err), Log (Critical LockListener (Number (args_nonce ev)))]"
  using assms by (subst LockListener_retry.simps) (simp add: MAX_RETRIES_def LockListener_retry_over Let_def)

lemma LockListener_retry_summary:
  "\<exists>es. trace (LockListener_retry L ev attempt w) = trace w @ es
     \<and> (\<forall>m. m \<noteq> Number (args_nonce ev) \<longrightarrow> mined_mints m es = 0)
     \<and> (\<forall>l m. Log (NotYetConfirmed l m) \<notin> set es)
     \<and> ((db (LockListener_retry L ev attempt w) = db w \<and> mined_mints (Number (args_nonce ev)) es = 0)
        \<or> (\<exists>h. db (LockListener_retry L ev attempt w) =
                  setLastBlock (markProcessed (db w) (Number (args_nonce ev)) ''chainA'' h ''Locked'')
                    ''chainA_lock'' (blockNumber ev)
              \<and> mined_mints (Number (args_nonce ev)) es = 1))"
proof (induction L ev attempt w rule: LockListener_retry.induct)
  case (1 L ev attempt w)
  let ?c = "mintWrapped (args_user ev) (args_amount ev) (Number (args_nonce ev))"
  show ?case
  proof (cases "attempt \<le> 3")
    case False
    then show ?thesis by (simp add: LockListener_retry_over)
  next
    case le: True
    show ?thesis
    proof (cases "submitTx L (submitted (trace w)) ?c")
      case (Mined h)
      show ?thesis
        unfolding LockListener_retry_mined [OF le Mined]
        by (rule exI [of _ "[Submit ?c (Mined h), Log (Successful LockListener (Number (args_nonce ev)) h)]"])
          (auto simp: emit_def)
    next
      case (Threw err)
      show ?thesis
      proof (cases "attempt < 3")
        case True
        let ?es = "[Submit ?c (Threw err), Log (AttemptFailed LockListener attempt err), Sleep 2000]"
        have ih: "\<exists>es. trace (LockListener_retry L ev (attempt + 1) (emit w ?es)) = trace (emit w ?es) @ es
     \<and> (\<forall>m. m \<noteq> Number (args_nonce ev) \<longrightarrow> mined_mints m es = 0)
     \<and> (\<forall>l m. Log (NotYetConfirmed l m) \<notin> set es)
     \<and> ((db (LockListener_retry L ev (attempt + 1) (emit w ?es)) = db (emit w ?es) \<and> mined_mints (Number (args_nonce ev)) es = 0)
        \<or> (\<exists>h. db (LockListener_retry L ev (attempt + 1) (emit w ?es)) =
                  setLastBlock (markProcessed (db (emit w ?es)) (Number (args_nonce ev)) ''chainA'' h ''Locked'')
                    ''chainA_lock'' (blockNumber ev)
              \<and> mined_mints (Number (args_nonce ev)) es = 1))"
        proof -
          have le': "attempt \<le> MAX_RETRIES" and lt': "attempt < MAX_RETRIES"
            using True by (simp_all add: MAX_RETRIES_def)
          show ?thesis
            using "1.IH"(1) [OF le' refl refl Threw lt'] by (simp add: RETRY_DELAY_MS_def)
        qed
        then obtain es where es: "trace (LockListener_retry L ev (attempt + 1) (emit w ?es)) = trace (emit w ?es) @ es"
          "\<forall>m. m \<noteq> Number (args_nonce ev) \<longrightarrow> mined_mints m es = 0"
          "\<forall>l m. Log (NotYetConfirmed l m) \<notin> set es"
          "(db (LockListener_retry L ev (attempt + 1) (emit w ?es)) = db (emit w ?es) \<and> mined_mints (Number (args_nonce ev)) es = 0)
        \<or> (\<exists>h. db (LockListener_retry L ev (attempt + 1) (emit w ?es)) =
                  setLastBlock (markProcessed (db (emit w ?es)) (Number (args_nonce ev)) ''chainA'' h ''Locked'')
                    ''chainA_lock'' (blockNumber ev)
              \<and> mined_mints (Number (args_nonce ev)) es = 1)"
          by blast
        show ?thesis
          unfolding LockListener_retry_threw [OF True Threw]
          apply (rule exI [of _ "?es @ es"])
          using es by auto
      next
        case False
        with le have a3: "attempt = 3" by simp
        show ?thesis
          unfolding a3 LockListener_retry_last [OF Threw]
          by (rule exI [of _ "[Submit ?c (Threw err), Log (AttemptFailed LockListener 3 err), Log (Critical LockListener (Number (args_nonce ev)))]"])
            auto
      qed
    qed
  qed
qed

lemma LockListener_retry_all_threw:
  assumes "submitTx L (submitted (trace w)) (mintWrapped (args_user ev) (args_amount ev) (Number (args_nonce ev))) = Threw e1"
    and "submitTx L (Suc (submitted (trace w))) (mintWrapped (args_user ev) (args_amount ev) (Number (args_nonce ev))) = Threw e2"
    and "submitTx L (Suc (Suc (submitted (trace w)))) (mintWrapped (args_user ev) (args_amount ev) (Number (args_nonce ev))) = Threw e3"
  shows "LockListener_retry L ev 1 w =
     emit w
       [Submit (mintWrapped (args_user ev) (args_amount ev) (Number (args_nonce ev))) (Threw e1),
        Log (AttemptFailed LockListener 1 e1), Sleep 2000,
        Submit (mintWrapped (args_user ev) (args_amount ev) (Number (args_nonce ev))) (Threw e2),
        Log (AttemptFailed LockListener 2 e2), Sleep 2000,
        Submit (mintWrapped (args_user ev) (args_amount ev) (Number (args_nonce ev))) (Threw e3),
        Log (AttemptFailed LockListener 3 e3),
        Log (Critical LockListener (Number (args_nonce ev)))]"
proof -
  let ?c = "mintWrapped (args_user ev) (args_amount ev) (Number (args_nonce ev))"
  let ?w1 = "emit w [Submit ?c (Threw e1), Log (AttemptFailed LockListener 1 e1), Sleep 2000]"
  let ?w2 = "emit ?w1 [Submit ?c (Threw e2), Log (AttemptFailed LockListener 2 e2), Sleep 2000]"
  have s1: "LockListener_retry L ev 1 w = LockListener_retry L ev (Suc 1) ?w1"
    using assms(1) by (intro LockListener_retry_threw) simp_all
  have "submitTx L (submitted (trace ?w1)) ?c = Threw e2"
    using assms(2) by simp
  then have s2: "LockListener_retry L ev 2 ?w1 = LockListener_retry L ev (Suc 2) ?w2"
    by (intro LockListener_retry_threw) simp_all
  have "submitTx L (submitted (trace ?w2)) ?c = Threw e3"
    using assms(3) by simp
  then have s3: "LockListener_retry L ev 3 ?w2 =
      emit ?w2 [Submit ?c (Threw e3), Log (AttemptFailed LockListener 3 e3),
                Log (Critical LockListener (Number (args_nonce ev)))]"
    by (rule LockListener_retry_last)
  have n2: "Suc 1 = 2" and n3: "Suc 2 = 3" by simp_all
  show ?thesis
    unfolding s1 n2 s2 n3 s3 by (simp add: emit_emit)
qed

lemma LockListener_retry_some_mined:
  assumes "submitTx L (submitted (trace w) + j) (mintWrapped (args_user ev) (args_amount ev) (Number (args_nonce ev))) = Mined h"
    and "j < 3"
  shows "isProcessed (db (LockListener_retry L ev 1 w)) (Number (args_nonce ev)) ''chainA'' ''Locked''"
proof -
  let ?c = "mintWrapped (args_user ev) (args_amount ev) (Number (args_nonce ev))"
  let ?n = "Number (args_nonce ev)"
  have mined: "isProcessed (db (LockListener_retry L ev a v)) ?n ''chainA'' ''Locked''"
    if "a \<le> 3" "submitTx L (submitted (trace v)) ?c = Mined h'" for a v h'
    unfolding LockListener_retry_mined [OF that]
    by (simp add: isProcessed_def setLastBlock_def markProcessed_def has_key_def)
  show ?thesis
  proof (cases "submitTx L (submitted (trace w)) ?c")
    case (Mined h')
    then show ?thesis by (intro mined) simp_all
  next
    case t1: (Threw e1)
    let ?w1 = "emit w [Submit ?c (Threw e1), Log (AttemptFailed LockListener 1 e1), Sleep 2000]"
    have s1: "LockListener_retry L ev 1 w = LockListener_retry L ev 2 ?w1"
    proof -
      have "LockListener_retry L ev 1 w = LockListener_retry L ev (Suc 1) ?w1"
        using t1 by (intro LockListener_retry_threw) simp_all
      moreover have "Suc 1 = 2" by simp
      ultimately show ?thesis by metis
    qed
    have k1: "submitted (trace ?w1) = Suc (submitted (trace w))" by simp
    show ?thesis
    proof (cases "submitTx L (submitted (trace ?w1)) ?c")
      case (Mined h')
      then show ?thesis unfolding s1 by (intro mined) simp_all
    next
      case t2: (Threw e2)
      let ?w2 = "emit ?w1 [Submit ?c (Threw e2), Log (AttemptFailed LockListener 2 e2), Sleep 2000]"
      have s2: "LockListener_retry L ev 2 ?w1 = LockListener_retry L ev 3 ?w2"
      proof -
        have "LockListener_retry L ev 2 ?w1 = LockListener_retry L ev (Suc 2) ?w2"
          using t2 by (intro LockListener_retry_threw) simp_all
        moreover have "Suc 2 = 3" by simp
        ultimately show ?thesis by metis
      qed
      have k2: "submitted (trace ?w2) = Suc (Suc (submitted (trace w)))" by simp
      from assms(2) have "j = 0 \<or> j = 1 \<or> j = 2" by arith
      with assms(1) t1 t2 have "submitTx L (submitted (trace ?w2)) ?c = Mined h"
        unfolding k1 k2 by auto
      then show ?thesis unfolding s1 s2 by (intro mined) simp_all
    qed
  qed
qed

lemma LockListener_handleEvent_unconfirmed:
  "currentBlock - blockNumber ev < confirmationDepth L \<Longrightarrow>
     LockListener_handleEvent L ev currentBlock w =
       emit w [Log (NotYetConfirmed LockListener (Number (args_nonce ev)))]"
  by (simp add: LockListener_handleEvent_def)

lemma LockListener_handleEvent_processed:
  "confirmationDepth L \<le> currentBlock - blockNumber ev \<Longrightarrow>
   isProcessed (db w) (Number (args_nonce ev)) ''chainA'' ''Locked'' \<Longrightarrow>
     LockListener_handleEvent L ev currentBlock w =
       emit w [Log (AlreadyProcessed LockListener (Number (args_nonce ev)))]"
  by (simp add: LockListener_handleEvent_def)

lemma LockListener_handleEvent_new:
  "confirmationDepth L \<le> currentBlock - blockNumber ev \<Longrightarrow>
   \<not> isProcessed (db w) (Number (args_nonce ev)) ''chainA'' ''Locked'' \<Longrightarrow>
     LockListener_handleEvent L ev currentBlock w =
       LockListener_retry L ev 1 (emit w [Log (Processing LockListener (Number (args_nonce ev)))])"
  by (simp add: LockListener_handleEvent_def Let_def)

lemma LockListener_handleEvent_summary:
  "\<exists>es. trace (LockListener_handleEvent L ev H w) = trace w @ es
     \<and> (\<forall>m. m \<noteq> Number (args_nonce ev) \<longrightarrow> mined_mints m es = 0)
     \<and> (isProcessed (db w) (Number (args_nonce ev)) ''chainA'' ''Locked'' \<longrightarrow>
          mined_mints (Number (args_nonce ev)) es = 0)
     \<and> ((db (LockListener_handleEvent L ev H w) = db w \<and> mined_mints (Number (args_nonce ev)) es = 0)
        \<or> (\<exists>h. db (LockListener_handleEvent L ev H w) =
                  setLastBlock (markProcessed (db w) (Number (args_nonce ev)) ''chainA'' h ''Locked'')
                    ''chainA_lock'' (blockNumber ev)
              \<and> mined_mints (Number (args_nonce ev)) es = 1))"
proof -
  let ?n = "Number (args_nonce ev)"
  consider (u) "H - blockNumber ev < confirmationDepth L"
    | (p) "confirmationDepth L \<le> H - blockNumber ev" "isProcessed (db w) ?n ''chainA'' ''Locked''"
    | (r) "confirmationDepth L \<le> H - blockNumber ev" "\<not> isProcessed (db w) ?n ''chainA'' ''Locked''"
    by linarith
  then show ?thesis
  proof cases
    case u
    show ?thesis
      unfolding LockListener_handleEvent_unconfirmed [OF u]
      by (rule exI [of _ "[Log (NotYetConfirmed LockListener ?n)]"]) simp
  next
    case p
    show ?thesis
      unfolding LockListener_handleEvent_processed [OF p]
      by (rule exI [of _ "[Log (AlreadyProcessed LockListener ?n)]"]) simp
  next
    case r
    let ?w1 = "emit w [Log (Processing LockListener ?n)]"
    obtain es where es: "trace (LockListener_retry L ev 1 ?w1) = trace ?w1 @ es"
      "\<forall>m. m \<noteq> ?n \<longrightarrow> mined_mints m es = 0"
      "(db (LockListener_retry L ev 1 ?w1) = db ?w1 \<and> mined_mints ?n es = 0)
        \<or> (\<exists>h. db (LockListener_retry L ev 1 ?w1) =
                  setLastBlock (markProcessed (db ?w1) ?n ''chainA'' h ''Locked'')
                    ''chainA_lock'' (blockNumber ev)
              \<and> mined_mints ?n es = 1)"
      using LockListener_retry_summary [of L ev 1 ?w1] by blast
    show ?thesis
      unfolding LockListener_handleEvent_new [OF r]
      apply (rule exI [of _ "Log (Processing LockListener ?n) # es"])
      using es r(2) by auto
  qed
qed

lemma LockListener_handleEvent_inv:
  assumes "mined_mints m (trace w) \<le> 1"
    and "mined_mints m (trace w) = 1 \<longrightarrow> isProcessed (db w) m ''chainA'' ''Locked''"
  shows "mined_mints m (trace (LockListener_handleEvent L ev H w)) \<le> 1
     \<and> (mined_mints m (trace (LockListener_handleEvent L ev H w)) = 1 \<longrightarrow>
          isProcessed (db (LockListener_handleEvent L ev H w)) m ''chainA'' ''Locked'')"
proof -
  let ?n = "Number (args_nonce ev)"
  let ?w' = "LockListener_handleEvent L ev H w"
  obtain es where es: "trace ?w' = trace w @ es"
    "\<forall>k. k \<noteq> ?n \<longrightarrow> mined_mints k es = 0"
    "isProcessed (db w) ?n ''chainA'' ''Locked'' \<longrightarrow> mined_mints ?n es = 0"
    "(db ?w' = db w \<and> mined_mints ?n es = 0)
        \<or> (\<exists>h. db ?w' = setLastBlock (markProcessed (db w) ?n ''chainA'' h ''Locked'')
                    ''chainA_lock'' (blockNumber ev)
              \<and> mined_mints ?n es = 1)"
    using LockListener_handleEvent_summary [of L ev H w] by blast
  have keep: "isProcessed (db w) m ''chainA'' ''Locked'' \<Longrightarrow> isProcessed (db ?w') m ''chainA'' ''Locked''"
    using es(4) by (auto simp: isProcessed_markProcessed)
  show ?thesis
  proof (cases "m = ?n")
    case False
    then have "mined_mints m es = 0" using es(2) by simp
    then show ?thesis using assms keep by (simp add: es(1))
  next
    case True
    show ?thesis
    proof (cases "mined_mints m (trace w) = 1")
      case True
      with assms(2) have "isProcessed (db w) m ''chainA'' ''Locked''" by simp
      with es(3) \<open>m = ?n\<close> keep have "mined_mints m es = 0" "isProcessed (db ?w') m ''chainA'' ''Locked''"
        by simp_all
      then show ?thesis using assms(1) by (simp add: es(1))
    next
      case False
      with assms(1) have z: "mined_mints m (trace w) = 0" by simp
      from es(4) show ?thesis
      proof
        assume "db ?w' = db w \<and> mined_mints ?n es = 0"
        then show ?thesis using z True by (simp add: es(1))
      next
        assume "\<exists>h. db ?w' = setLastBlock (markProcessed (db w) ?n ''chainA'' h ''Locked'')
                    ''chainA_lock'' (blockNumber ev) \<and> mined_mints ?n es = 1"
        then show ?thesis using z True by (auto simp: es(1) isProcessed_markProcessed)
      qed
    qed
  qed
qed

lemma LockListener_run_inv:
  "mined_mints m (trace w) \<le> 1 \<Longrightarrow>
   (mined_mints m (trace w) = 1 \<longrightarrow> isProcessed (db w) m ''chainA'' ''Locked'') \<Longrightarrow>
   mined_mints m (trace (LockListener_run L w calls)) \<le> 1"
proof (induction calls arbitrary: w)
  case Nil
  then show ?case by (simp add: LockListener_run_def)
next
  case (Cons x calls)
  obtain ev H where x: "x = (ev, H)" by (cases x) auto
  have step: "LockListener_run L w (x # calls) =
      LockListener_run L (LockListener_handleEvent L ev H w) calls"
    by (simp add: LockListener_run_def x)
  show ?case
    unfolding step
    using LockListener_handleEvent_inv [OF Cons.prems, of L ev H]
    by (intro Cons.IH) simp_all
qed

lemma LockListener_handleEvent_all_threw:
  assumes "confirmationDepth L \<le> H - blockNumber ev"
    and "\<not> isProcessed (db w) (Number (args_nonce ev)) ''chainA'' ''Locked''"
    and "submitTx L (submitted (trace w)) (mintWrapped (args_user ev) (args_amount ev) (Number (args_nonce ev))) = Threw e1"
    and "submitTx L (Suc (submitted (trace w))) (mintWrapped (args_user ev) (args_amount ev) (Number (args_nonce ev))) = Threw e2"
    and "submitTx L (Suc (Suc (submitted (trace w)))) (mintWrapped (args_user ev) (args_amount ev) (Number (args_nonce ev))) = Threw e3"
  shows "LockListener_handleEvent L ev H w =
     emit w
       [Log (Processing LockListener (Number (args_nonce ev))),
        Submit (mintWrapped (args_user ev) (args_amount ev) (Number (args_nonce ev))) (Threw e1),
        Log (AttemptFailed LockListener 1 e1), Sleep 2000,
        Submit (mintWrapped (args_user ev) (args_amount ev) (Number (args_nonce ev))) (Threw e2),
        Log (AttemptFailed LockListener 2 e2), Sleep 2000,
        Submit (mintWrapped (args_user ev) (args_amount ev) (Number (args_nonce ev))) (Threw e3),
        Log (AttemptFailed LockListener 3 e3),
        Log (Critical LockListener (Number (args_nonce ev)))]"
proof -
  let ?w1 = "emit w [Log (Processing LockListener (Number (args_nonce ev)))]"
  have "LockListener_handleEvent L ev H w = LockListener_retry L ev 1 ?w1"
    using assms(1,2) by (rule LockListener_handleEvent_new)
  also have "\<dots> = emit ?w1
       [Submit (mintWrapped (args_user ev) (args_amount ev) (Number (args_nonce ev))) (Threw e1),
        Log (AttemptFailed LockListener 1 e1), Sleep 2000,
        Submit (mintWrapped (args_user ev) (args_amount ev) (Number (args_nonce ev))) (Threw e2),
        Log (AttemptFailed LockListener 2 e2), Sleep 2000,
        Submit (mintWrapped (args_user ev) (args_amount ev) (Number (args_nonce ev))) (Threw e3),
        Log (AttemptFailed LockListener 3 e3),
        Log (Critical LockListener (Number (args_nonce ev)))]"
    using assms(3-5) by (intro LockListener_retry_all_threw) simp_all
  finally show ?thesis by (simp add: emit_emit)
qed

lemma LockListener_recover_noop:
  "currentBlock \<le> getLastBlock (db w) ''chainA_lock'' \<Longrightarrow>
     LockListener_recoverMissedEvents L currentBlock w = w"
  by (simp add: LockListener_recoverMissedEvents_def)

lemma LockListener_recover_scan:
  "getLastBlock (db w) ''chainA_lock'' < currentBlock \<Longrightarrow>
     LockListener_recoverMissedEvents L currentBlock w =
       (foldl (\<lambda>v ev. LockListener_handleEvent L ev currentBlock v)
          (emit w [Log (RecoveryScanning LockListener
             (getLastBlock (db w) ''chainA_lock'' + 1) currentBlock)])
          (queryFilter L (getLastBlock (db w) ''chainA_lock'' + 1) currentBlock))
       \<lparr>db := setLastBlock
          (db (foldl (\<lambda>v ev. LockListener_handleEvent L ev currentBlock v)
            (emit w [Log (RecoveryScanning LockListener
               (getLastBlock (db w) ''chainA_lock'' + 1) currentBlock)])
            (queryFilter L (getLastBlock (db w) ''chainA_lock'' + 1) currentBlock)))
          ''chainA_lock'' currentBlock\<rparr>"
  by (simp add: LockListener_recoverMissedEvents_def Let_def)

lemma LockListener_recover_cursor:
  "getLastBlock (db w) ''chainA_lock'' < currentBlock \<Longrightarrow>
     getLastBlock (db (LockListener_recoverMissedEvents L currentBlock w)) ''chainA_lock''
       = currentBlock"
  by (simp add: LockListener_recover_scan getLastBlock_setLastBlock)



lemma LockListener_waitForConfirmation_reached:
  "blockNumber ev + confirmationDepth L \<le> heads k \<Longrightarrow>
     LockListener_waitForConfirmation L heads k ev w =
       Some (LockListener_handleEvent L ev (heads k) w)"
  by (subst LockListener_waitForConfirmation.simps) simp

lemma LockListener_waitForConfirmation_sleep:
  "heads k < blockNumber ev + confirmationDepth L \<Longrightarrow>
     LockListener_waitForConfirmation L heads k ev w =
       LockListener_waitForConfirmation L heads (Suc k) ev (emit w [Sleep 1000])"
  by (subst LockListener_waitForConfirmation.simps) simp

lemma LockListener_waitForConfirmation_first:
  assumes "blockNumber ev + confirmationDepth L \<le> heads (k + j)"
  shows "\<exists>m\<le>j. blockNumber ev + confirmationDepth L \<le> heads (k + m)
      \<and> (\<forall>i<m. heads (k + i) < blockNumber ev + confirmationDepth L)
      \<and> LockListener_waitForConfirmation L heads k ev w =
          Some (LockListener_handleEvent L ev (heads (k + m))
                  (emit w (replicate m (Sleep 1000))))"
  using assms
proof (induction j arbitrary: k w)
  case 0
  then have "LockListener_waitForConfirmation L heads k ev w =
       Some (LockListener_handleEvent L ev (heads k) w)"
    by (intro LockListener_waitForConfirmation_reached) simp
  with 0 show ?case by simp
next
  case (Suc j)
  show ?case
  proof (cases "blockNumber ev + confirmationDepth L \<le> heads k")
    case True
    then have "LockListener_waitForConfirmation L heads k ev w =
       Some (LockListener_handleEvent L ev (heads k) w)"
      by (rule LockListener_waitForConfirmation_reached)
    with True show ?thesis
      by (intro exI [of _ 0]) simp
  next
    case False
    then have lt: "heads k < blockNumber ev + confirmationDepth L" by simp
    have "blockNumber ev + confirmationDepth L \<le> heads (Suc k + j)"
      using Suc.prems by simp
    from Suc.IH [of "Suc k" "emit w [Sleep 1000]"] this obtain m where m: "m \<le> j"
      "blockNumber ev + confirmationDepth L \<le> heads (Suc k + m)"
      "\<forall>i<m. heads (Suc k + i) < blockNumber ev + confirmationDepth L"
      "LockListener_waitForConfirmation L heads (Suc k) ev (emit w [Sleep 1000]) =
          Some (LockListener_handleEvent L ev (heads (Suc k + m))
                  (emit (emit w [Sleep 1000]) (replicate m (Sleep 1000))))"
      by blast
    have early: "heads (k + i) < blockNumber ev + confirmationDepth L" if "i < Suc m" for i
    proof (cases i)
      case 0
      with lt show ?thesis by simp
    next
      case (Suc i')
      with that m(3) show ?thesis by simp
    qed
    have "LockListener_waitForConfirmation L heads k ev w =
          Some (LockListener_handleEvent L ev (heads (k + Suc m))
                  (emit w (replicate (Suc m) (Sleep 1000))))"
      using LockListener_waitForConfirmation_sleep [of heads k ev L w] lt m(4)
      by (simp add: emit_emit)
    with m(1,2) early show ?thesis
      by (intro exI [of _ "Suc m"]) simp
  qed
qed

lemma LockListener_handleEvent_confirmed_trace:
  assumes "confirmationDepth L \<le> H - blockNumber ev"
  shows "\<exists>es. trace (LockListener_handleEvent L ev H w) = trace w @ es
     \<and> (\<forall>l n. Log (NotYetConfirmed l n) \<notin> set es)"
proof (cases "isProcessed (db w) (Number (args_nonce ev)) ''chainA'' ''Locked''")
  case True
  show ?thesis
    unfolding LockListener_handleEvent_processed [OF assms True]
    by (rule exI [of _ "[Log (AlreadyProcessed LockListener (Number (args_nonce ev)))]"]) simp
next
  case False
  let ?w1 = "emit w [Log (Processing LockListener (Number (args_nonce ev)))]"
  obtain es where "trace (LockListener_retry L ev 1 ?w1) = trace ?w1 @ es"
    "\<forall>l n. Log (NotYetConfirmed l n) \<notin> set es"
    using LockListener_retry_summary [of L ev 1 ?w1] by blast
  then show ?thesis
    unfolding LockListener_handleEvent_new [OF assms False]
    by (intro exI [of _ "Log (Processing LockListener (Number (args_nonce ev))) # es"]) simp
qed

lemma LockListener_handleEvent_first_mined:
  assumes "confirmationDepth L \<le> H - blockNumber ev"
    and "\<not> isProcessed (db w) (Number (args_nonce ev)) ''chainA'' ''Locked''"
    and "submitTx L (submitted (trace w))
           (mintWrapped (args_user ev) (args_amount ev) (Number (args_nonce ev))) = Mined h"
  shows "LockListener_handleEvent L ev H w =
     emit (w\<lparr>db := setLastBlock
                (markProcessed (db w) (Number (args_nonce ev)) ''chainA'' h ''Locked'')
                ''chainA_lock'' (blockNumber ev)\<rparr>)
       [Log (Processing LockListener (Number (args_nonce ev))),
        Submit (mintWrapped (args_user ev) (args_amount ev) (Number (args_nonce ev))) (Mined h),
        Log (Successful LockListener (Number (args_nonce ev)) h)]"
proof -
  let ?w1 = "emit w [Log (Processing LockListener (Number (args_nonce ev)))]"
  have "LockListener_handleEvent L ev H w = LockListener_retry L ev 1 ?w1"
    using assms(1,2) by (rule LockListener_handleEvent_new)
  also have "\<dots> = emit (?w1\<lparr>db := setLastBlock
                (markProcessed (db ?w1) (Number (args_nonce ev)) ''chainA'' h ''Locked'')
                ''chainA_lock'' (blockNumber ev)\<rparr>)
       [Submit (mintWrapped (args_user ev) (args_amount ev) (Number (args_nonce ev))) (Mined h),
        Log (Successful LockListener (Number (args_nonce ev)) h)]"
    using assms(3) by (intro LockListener_retry_mined) simp_all
  finally show ?thesis by (simp add: emit_def)
qed

lemma LockListener_handleEvent_cursor:
  "getLastBlock (db (LockListener_handleEvent L ev H w)) ''chainA_lock'' =
      getLastBlock (db w) ''chainA_lock''
   \<or> getLastBlock (db (LockListener_handleEvent L ev H w)) ''chainA_lock'' = blockNumber ev"
  using LockListener_handleEvent_summary [of L ev H w]
  by (auto simp: getLastBlock_setLastBlock)

lemma recovery_cursors_sorted:
  assumes "sorted (map blockNumber es)"
    and "\<forall>e\<in>set es. getLastBlock (db v) ''chainA_lock'' \<le> blockNumber e \<and> blockNumber e \<le> H"
    and "getLastBlock (db v) ''chainA_lock'' \<le> H"
  shows "sorted (map (\<lambda>v. getLastBlock (db v) ''chainA_lock'')
            (states (\<lambda>v ev. LockListener_handleEvent L ev H v) v es) @ [H])"
  using assms
proof (induction es arbitrary: v)
  case Nil
  then show ?case by simp
next
  case (Cons e es)
  let ?cur = "\<lambda>v. getLastBlock (db v) ''chainA_lock''"
  let ?f = "\<lambda>v ev. LockListener_handleEvent L ev H v"
  let ?v' = "LockListener_handleEvent L e H v"
  have step: "?cur ?v' = ?cur v \<or> ?cur ?v' = blockNumber e"
    by (rule LockListener_handleEvent_cursor)
  have e: "?cur v \<le> blockNumber e" "blockNumber e \<le> H"
    using Cons.prems(2) by simp_all
  have later: "\<forall>x\<in>set es. blockNumber e \<le> blockNumber x"
    using Cons.prems(1) by simp
  have up: "?cur v \<le> ?cur ?v'"
    using step e by auto
  have "\<forall>x\<in>set es. ?cur ?v' \<le> blockNumber x \<and> blockNumber x \<le> H"
    using step later Cons.prems(2) by auto
  moreover have "?cur ?v' \<le> H"
    using step e Cons.prems(3) by auto
  moreover have "sorted (map blockNumber es)"
    using Cons.prems(1) by simp
  ultimately have ih: "sorted (map ?cur (states ?f ?v' es) @ [H])"
    by (intro Cons.IH) simp_all
  obtain vs where vs: "states ?f ?v' es = ?v' # vs"
    using states_Cons [of ?f ?v' es] by blast
  show ?case
    using ih up unfolding states.simps vs by (auto simp: sorted_append)
qed

section \<open>The burn listener\<close>

lemma BurnListener_retry_threw:
  assumes "attempt < 3"
    and "submitTx L (submitted (trace w)) (unlock (args_user ev) (args_amount ev) (Number (args_nonce ev))) = Threw err"
  shows "BurnListener_retry L ev attempt w =
     BurnListener_retry L ev (Suc attempt)
       (emit w [Submit (unlock (args_user ev) (args_amount ev) (Number (args_nonce ev))) (Threw err),
                Log (AttemptFailed BurnListener attempt err), Sleep 2000])"
  using assms
  by (subst BurnListener_retry.simps) (simp add: MAX_RETRIES_def RETRY_DELAY_MS_def Let_def)

lemma BurnListener_retry_over: "3 < attempt \<Longrightarrow> BurnListener_retry L ev attempt w = w"
  by (subst BurnListener_retry.simps) (simp add: MAX_RETRIES_def)

lemma BurnListener_retry_last:
  assumes "submitTx L (submitted (trace w)) (unlock (args_user ev) (args_amount ev) (Number (args_nonce ev))) = Threw err"
  shows "BurnListener_retry L ev 3 w =
       emit w [Submit (unlock (args_user ev) (args_amount ev) (Number (args_nonce ev))) (Threw err),
                Log (AttemptFailed BurnListener 3 err), Log (Critical BurnListener (Number (args_nonce ev)))]"
  using assms
  by (subst BurnListener_retry.simps) (simp add: MAX_RETRIES_def BurnListener_retry_over Let_def)

lemma BurnListener_retry_all_threw:
  assumes "submitTx L (submitted (trace w)) (unlock (args_user ev) (args_amount ev) (Number (args_nonce ev))) = Threw e1"
    and "submitTx L (Suc (submitted (trace w))) (unlock (args_user ev) (args_amount ev) (Number (args_nonce ev))) = Threw e2"
    and "submitTx L (Suc (Suc (submitted (trace w)))) (unlock (args_user ev) (args_amount ev) (Number (args_nonce ev))) = Threw e3"
  shows "BurnListener_retry L ev 1 w =
     emit w
       [Submit (unlock (args_user ev) (args_amount ev) (Number (args_nonce ev))) (Threw e1),
        Log (AttemptFailed BurnListener 1 e1), Sleep 2000,
        Submit (unlock (args_user ev) (args_amount ev) (Number (args_nonce ev))) (Threw e2),
        Log (AttemptFailed BurnListener 2 e2), Sleep 2000,
        Submit (unlock (args_user ev) (args_amount ev) (Number (args_nonce ev))) (Threw e3),
        Log (AttemptFailed BurnListener 3 e3),
        Log (Critical BurnListener (Number (args_nonce ev)))]"
proof -
  let ?c = "unlock (args_user ev) (args_amount ev) (Number (args_nonce ev))"
  let ?w1 = "emit w [Submit ?c (Threw e1), Log (AttemptFailed BurnListener 1 e1), Sleep 2000]"
  let ?w2 = "emit ?w1 [Submit ?c (Threw e2), Log (AttemptFailed BurnListener 2 e2), Sleep 2000]"
  have s1: "BurnListener_retry L ev 1 w = BurnListener_retry L ev (Suc 1) ?w1"
    using assms(1) by (intro BurnListener_retry_threw) simp_all
  have "submitTx L (submitted (trace ?w1)) ?c = Threw e2"
    using assms(2) by simp
  then have s2: "BurnListener_retry L ev 2 ?w1 = BurnListener_retry L ev (Suc 2) ?w2"
    by (intro BurnListener_retry_threw) simp_all
  have "submitTx L (submitted (trace ?w2)) ?c = Threw e3"
    using assms(3) by simp
  then have s3: "BurnListener_retry L ev 3 ?w2 =
      emit ?w2 [Submit ?c (Threw e3), Log (AttemptFailed BurnListener 3 e3),
                Log (Critical BurnListener (Number (args_nonce ev)))]"
    by (rule BurnListener_retry_last)
  have n2: "Suc 1 = 2" and n3: "Suc 2 = 3" by simp_all
  show ?thesis
    unfolding s1 n2 s2 n3 s3 by (simp add: emit_emit)
qed

lemma BurnListener_handleEvent_new:
  "confirmationDepth L \<le> currentBlock - blockNumber ev \<Longrightarrow>
   \<not> isProcessed (db w) (Number (args_nonce ev)) ''chainB'' ''Burned'' \<Longrightarrow>
     BurnListener_handleEvent L ev currentBlock w =
       BurnListener_retry L ev 1 (emit w [Log (Processing BurnListener (Number (args_nonce ev)))])"
  by (simp add: BurnListener_handleEvent_def Let_def)

lemma BurnListener_handleEvent_processed:
  "confirmationDepth L \<le> currentBlock - blockNumber ev \<Longrightarrow>
   isProcessed (db w) (Number (args_nonce ev)) ''chainB'' ''Burned'' \<Longrightarrow>
     BurnListener_handleEvent L ev currentBlock w =
       emit w [Log (AlreadyProcessed BurnListener (Number (args_nonce ev)))]"
  by (simp add: BurnListener_handleEvent_def)

lemma BurnListener_handleEvent_all_threw:
  assumes "confirmationDepth L \<le> H - blockNumber ev"
    and "\<not> isProcessed (db w) (Number (args_nonce ev)) ''chainB'' ''Burned''"
    and "submitTx L (submitted (trace w)) (unlock (args_user ev) (args_amount ev) (Number (args_nonce ev))) = Threw e1"
    and "submitTx L (Suc (submitted (trace w))) (unlock (args_user ev) (args_amount ev) (Number (args_nonce ev))) = Threw e2"
    and "submitTx L (Suc (Suc (submitted (trace w)))) (unlock (args_user ev) (args_amount ev) (Number (args_nonce ev))) = Threw e3"
  shows "BurnListener_handleEvent L ev H w =
     emit w
       [Log (Processing BurnListener (Number (args_nonce ev))),
        Submit (unlock (args_user ev) (args_amount ev) (Number (args_nonce ev))) (Threw e1),
        Log (AttemptFailed BurnListener 1 e1), Sleep 2000,
        Submit (unlock (args_user ev) (args_amount ev) (Number (args_nonce ev))) (Threw e2),
        Log (AttemptFailed BurnListener 2 e2), Sleep 2000,
        Submit (unlock (args_user ev) (args_amount ev) (Number (args_nonce ev))) (Threw e3),
        Log (AttemptFailed BurnListener 3 e3),
        Log (Critical BurnListener (Number (args_nonce ev)))]"
proof -
  let ?w1 = "emit w [Log (Processing BurnListener (Number (args_nonce ev)))]"
  have "BurnListener_handleEvent L ev H w = BurnListener_retry L ev 1 ?w1"
    using assms(1,2) by (rule BurnListener_handleEvent_new)
  also have "\<dots> = emit ?w1
       [Submit (unlock (args_user ev) (args_amount ev) (Number (args_nonce ev))) (Threw e1),
        Log (AttemptFailed BurnListener 1 e1), Sleep 2000,
        Submit (unlock (args_user ev) (args_amount ev) (Number (args_nonce ev))) (Threw e2),
        Log (AttemptFailed BurnListener 2 e2), Sleep 2000,
        Submit (unlock (args_user ev) (args_amount ev) (Number (args_nonce ev))) (Threw e3),
        Log (AttemptFailed BurnListener 3 e3),
        Log (Critical BurnListener (Number (args_nonce ev)))]"
    using assms(3-5) by (intro BurnListener_retry_all_threw) simp_all
  finally show ?thesis by (simp add: emit_emit)
qed

section \<open>The governance listener\<close>

lemma GovernanceListener_executePauseBridge_over:
  "3 < attempt \<Longrightarrow> GovernanceListener_executePauseBridge L p ev attempt w = w"
  by (subst GovernanceListener_executePauseBridge.simps) (simp add: MAX_RETRIES_def)


lemma GovernanceListener_handleEvent_unconfirmed:
  "currentBlock - blockNumber ev < confirmationDepth L \<Longrightarrow>
     GovernanceListener_handleEvent L ev currentBlock w =
       emit w [Log (NotYetConfirmed GovernanceListener (Number (args_proposalId ev)))]"
  by (simp add: GovernanceListener_handleEvent_def)

lemma GovernanceListener_handleEvent_processed:
  "confirmationDepth L \<le> currentBlock - blockNumber ev \<Longrightarrow>
   isProcessed (db w) (Number (args_proposalId ev)) ''chainB'' ''ProposalPassed'' \<Longrightarrow>
     GovernanceListener_handleEvent L ev currentBlock w =
       emit w [Log (AlreadyProcessed GovernanceListener (Number (args_proposalId ev)))]"
  by (simp add: GovernanceListener_handleEvent_def)

lemma GovernanceListener_handleEvent_pause:
  "confirmationDepth L \<le> currentBlock - blockNumber ev \<Longrightarrow>
   \<not> isProcessed (db w) (Number (args_proposalId ev)) ''chainB'' ''ProposalPassed'' \<Longrightarrow>
   take 10 (args_data ev) = pauseSelector \<Longrightarrow>
     GovernanceListener_handleEvent L ev currentBlock w =
       GovernanceListener_executePauseBridge L (Number (args_proposalId ev)) ev 1
         (emit w [Log (ProcessingProposal (Number (args_proposalId ev)) pauseSelector)])"
  by (simp add: GovernanceListener_handleEvent_def Let_def)

lemma GovernanceListener_handleEvent_unknown:
  "confirmationDepth L \<le> currentBlock - blockNumber ev \<Longrightarrow>
   \<not> isProcessed (db w) (Number (args_proposalId ev)) ''chainB'' ''ProposalPassed'' \<Longrightarrow>
   take 10 (args_data ev) \<noteq> pauseSelector \<Longrightarrow>
     GovernanceListener_handleEvent L ev currentBlock w =
       emit w [Log (ProcessingProposal (Number (args_proposalId ev)) (take 10 (args_data ev))),
               Log (UnknownSelector (take 10 (args_data ev)))]"
  by (simp add: GovernanceListener_handleEvent_def Let_def emit_emit)


lemma GovernanceListener_recover_noop:
  "currentBlock \<le> getLastBlock (db w) ''chainB_governance'' \<Longrightarrow>
     GovernanceListener_recoverMissedEvents L currentBlock w = w"
  by (simp add: GovernanceListener_recoverMissedEvents_def)

lemma GovernanceListener_recover_scan:
  "getLastBlock (db w) ''chainB_governance'' < currentBlock \<Longrightarrow>
     GovernanceListener_recoverMissedEvents L currentBlock w =
       (foldl (\<lambda>v ev. GovernanceListener_handleEvent L ev currentBlock v)
          (emit w [Log (RecoveryScanning GovernanceListener
             (getLastBlock (db w) ''chainB_governance'' + 1) currentBlock)])
          (queryFilter L (getLastBlock (db w) ''chainB_governance'' + 1) currentBlock))
       \<lparr>db := setLastBlock
          (db (foldl (\<lambda>v ev. GovernanceListener_handleEvent L ev currentBlock v)
            (emit w [Log (RecoveryScanning GovernanceListener
               (getLastBlock (db w) ''chainB_governance'' + 1) currentBlock)])
            (queryFilter L (getLastBlock (db w) ''chainB_governance'' + 1) currentBlock)))
          ''chainB_governance'' currentBlock\<rparr>"
  by (simp add: GovernanceListener_recoverMissedEvents_def Let_def)

lemma GovernanceListener_recover_cursor:
  "getLastBlock (db w) ''chainB_governance'' < currentBlock \<Longrightarrow>
     getLastBlock (db (GovernanceListener_recoverMissedEvents L currentBlock w))
       ''chainB_governance'' = currentBlock"
  by (simp add: GovernanceListener_recover_scan getLastBlock_setLastBlock)

section \<open>The scenarios\<close>

lemma lock_at_50_fields [simp]:
  "blockNumber lock_at_50 = 50" "args_user lock_at_50 = ''0xf39f''"
  "args_amount lock_at_50 = 100" "args_nonce lock_at_50 = 0"
  by (simp_all add: lock_at_50_def)

lemma fresh_fields [simp]: "db fresh = initTables" "trace fresh = []"
  by (simp_all add: fresh_def)

lemma lock_listener_ok_fields [simp]:
  "confirmationDepth lock_listener_ok = 3" "submitTx lock_listener_ok = always_mined"
  "queryFilter lock_listener_ok = chain_with_lock_at_50"
  by (simp_all add: lock_listener_ok_def)

lemma lock_listener_down_fields [simp]:
  "confirmationDepth lock_listener_down = 3" "submitTx lock_listener_down = rpc_down"
  "queryFilter lock_listener_down = chain_with_lock_at_50"
  by (simp_all add: lock_listener_down_def)

lemma lock_down_any:
  assumes "\<not> isProcessed (db w) 0 ''chainA'' ''Locked''"
  shows "LockListener_handleEvent lock_listener_down lock_at_50 60 w =
     emit w
       [Log (Processing LockListener 0),
        Submit (mintWrapped ''0xf39f'' 100 0) (Threw (OtherError ''timeout'')),
        Log (AttemptFailed LockListener 1 (OtherError ''timeout'')), Sleep 2000,
        Submit (mintWrapped ''0xf39f'' 100 0) (Threw (OtherError ''timeout'')),
        Log (AttemptFailed LockListener 2 (OtherError ''timeout'')), Sleep 2000,
        Submit (mintWrapped ''0xf39f'' 100 0) (Threw (OtherError ''timeout'')),
        Log (AttemptFailed LockListener 3 (OtherError ''timeout'')),
        Log (Critical LockListener 0)]"
  using LockListener_handleEvent_all_threw
    [of lock_listener_down 60 lock_at_50 w "OtherError ''timeout''" "OtherError ''timeout''"
        "OtherError ''timeout''"] assms
  by (simp add: Number_small rpc_down_def)

lemma chain_with_lock_at_50_simps [simp]:
  "chain_with_lock_at_50 1 60 = [lock_at_50]" "chain_with_lock_at_50 61 70 = []"
  by (simp_all add: chain_with_lock_at_50_def)

lemma lock_down_recover:
  "LockListener_recoverMissedEvents lock_listener_down 60 fresh =
     \<lparr>db = \<lparr>processed_events = [], block_cursors = [(''chainA_lock'', 60)]\<rparr>,
      trace =
       [Log (RecoveryScanning LockListener 1 60),
        Log (Processing LockListener 0),
        Submit (mintWrapped ''0xf39f'' 100 0) (Threw (OtherError ''timeout'')),
        Log (AttemptFailed LockListener 1 (OtherError ''timeout'')), Sleep 2000,
        Submit (mintWrapped ''0xf39f'' 100 0) (Threw (OtherError ''timeout'')),
        Log (AttemptFailed LockListener 2 (OtherError ''timeout'')), Sleep 2000,
        Submit (mintWrapped ''0xf39f'' 100 0) (Threw (OtherError ''timeout'')),
        Log (AttemptFailed LockListener 3 (OtherError ''timeout'')),
        Log (Critical LockListener 0)]\<rparr>"
proof -
  let ?w1 = "emit fresh [Log (RecoveryScanning LockListener 1 60)]"
  have scan: "LockListener_recoverMissedEvents lock_listener_down 60 fresh =
      (LockListener_handleEvent lock_listener_down lock_at_50 60 ?w1)
      \<lparr>db := setLastBlock
         (db (LockListener_handleEvent lock_listener_down lock_at_50 60 ?w1))
         ''chainA_lock'' 60\<rparr>"
    by (simp add: LockListener_recover_scan)
  have "\<not> isProcessed (db ?w1) 0 ''chainA'' ''Locked''"
    by simp
  note handle = lock_down_any [OF this]
  show ?thesis
    unfolding scan handle
    by (simp add: emit_def fresh_def initTables_def setLastBlock_def)
qed

lemma lock_listener_seen_fields [simp]:
  "confirmationDepth lock_listener_seen = 3" "submitTx lock_listener_seen = nonce_seen"
  "queryFilter lock_listener_seen = chain_with_lock_at_50"
  by (simp_all add: lock_listener_seen_def)

lemma lock_seen_any:
  assumes "\<not> isProcessed (db w) 0 ''chainA'' ''Locked''"
  shows "LockListener_handleEvent lock_listener_seen lock_at_50 60 w =
     emit w
       [Log (Processing LockListener 0),
        Submit (mintWrapped ''0xf39f'' 100 0) (Threw (NonceAlreadyProcessed 0)),
        Log (AttemptFailed LockListener 1 (NonceAlreadyProcessed 0)), Sleep 2000,
        Submit (mintWrapped ''0xf39f'' 100 0) (Threw (NonceAlreadyProcessed 0)),
        Log (AttemptFailed LockListener 2 (NonceAlreadyProcessed 0)), Sleep 2000,
        Submit (mintWrapped ''0xf39f'' 100 0) (Threw (NonceAlreadyProcessed 0)),
        Log (AttemptFailed LockListener 3 (NonceAlreadyProcessed 0)),
        Log (Critical LockListener 0)]"
  using LockListener_handleEvent_all_threw
    [of lock_listener_seen 60 lock_at_50 w "NonceAlreadyProcessed 0" "NonceAlreadyProcessed 0"
        "NonceAlreadyProcessed 0"] assms
  by (simp add: Number_small)

lemma burn_at_120_fields [simp]:
  "blockNumber burn_at_120 = 120" "args_user burn_at_120 = ''0xf39f''"
  "args_amount burn_at_120 = 100" "args_nonce burn_at_120 = 0"
  by (simp_all add: burn_at_120_def)

lemma burn_listener_seen_fields [simp]:
  "confirmationDepth burn_listener_seen = 3" "submitTx burn_listener_seen = nonce_seen"
  "queryFilter burn_listener_seen = chain_with_burn_at_120"
  by (simp_all add: burn_listener_seen_def)

lemma proposal_1_fields [simp]:
  "blockNumber proposal_1 = 200" "args_proposalId proposal_1 = 1"
  "args_data proposal_1 = ''0xdeadbeef''"
  by (simp_all add: proposal_1_def)

lemma governance_listener_ok_fields [simp]:
  "confirmationDepth governance_listener_ok = 3"
  "submitTx governance_listener_ok = always_mined"
  "queryFilter governance_listener_ok = no_proposals"
  by (simp_all add: governance_listener_ok_def)

lemma chain_with_lock_at_50_head_51 [simp]: "chain_with_lock_at_50 1 51 = [lock_at_50]"
  by (simp add: chain_with_lock_at_50_def)

lemma lock_recover_unconfirmed:
  "trace (LockListener_recoverMissedEvents lock_listener_ok 51 fresh) =
     [Log (RecoveryScanning LockListener 1 51), Log (NotYetConfirmed LockListener 0)]"
proof -
  let ?w1 = "emit fresh [Log (RecoveryScanning LockListener 1 51)]"
  have scan: "LockListener_recoverMissedEvents lock_listener_ok 51 fresh =
      (LockListener_handleEvent lock_listener_ok lock_at_50 51 ?w1)
      \<lparr>db := setLastBlock
         (db (LockListener_handleEvent lock_listener_ok lock_at_50 51 ?w1))
         ''chainA_lock'' 51\<rparr>"
    by (simp add: LockListener_recover_scan)
  have handle: "LockListener_handleEvent lock_listener_ok lock_at_50 51 ?w1 =
      emit ?w1 [Log (NotYetConfirmed LockListener (Number (args_nonce lock_at_50)))]"
    by (rule LockListener_handleEvent_unconfirmed) simp
  show ?thesis
    unfolding scan handle by (simp add: Number_small)
qed

lemma lock_wait_three_polls:
  "LockListener_waitForConfirmation lock_listener_ok heads_from_50 0 lock_at_50 fresh =
     Some (LockListener_handleEvent lock_listener_ok lock_at_50 53
       (emit fresh [Sleep 1000, Sleep 1000, Sleep 1000]))"
proof -
  have "LockListener_waitForConfirmation lock_listener_ok heads_from_50 0 lock_at_50 fresh =
      LockListener_waitForConfirmation lock_listener_ok heads_from_50 (Suc 0) lock_at_50
        (emit fresh [Sleep 1000])"
    by (rule LockListener_waitForConfirmation_sleep) (simp add: heads_from_50_def)
  also have "\<dots> =
      LockListener_waitForConfirmation lock_listener_ok heads_from_50 (Suc (Suc 0)) lock_at_50
        (emit (emit fresh [Sleep 1000]) [Sleep 1000])"
    by (rule LockListener_waitForConfirmation_sleep) (simp add: heads_from_50_def)
  also have "\<dots> =
      LockListener_waitForConfirmation lock_listener_ok heads_from_50 (Suc (Suc (Suc 0))) lock_at_50
        (emit (emit (emit fresh [Sleep 1000]) [Sleep 1000]) [Sleep 1000])"
    by (rule LockListener_waitForConfirmation_sleep) (simp add: heads_from_50_def)
  also have "\<dots> =
      Some (LockListener_handleEvent lock_listener_ok lock_at_50
        (heads_from_50 (Suc (Suc (Suc 0))))
        (emit (emit (emit fresh [Sleep 1000]) [Sleep 1000]) [Sleep 1000]))"
    by (rule LockListener_waitForConfirmation_reached) (simp add: heads_from_50_def)
  finally show ?thesis by (simp add: emit_emit heads_from_50_def)
qed

lemma lock_at_101_fields [simp]:
  "blockNumber lock_at_101 = 101" "args_user lock_at_101 = ''0xf39f''"
  "args_amount lock_at_101 = 7" "args_nonce lock_at_101 = 1"
  by (simp_all add: lock_at_101_def)

lemma lock_at_102_fields [simp]:
  "blockNumber lock_at_102 = 102" "args_user lock_at_102 = ''0xf39f''"
  "args_amount lock_at_102 = 9" "args_nonce lock_at_102 = 2"
  by (simp_all add: lock_at_102_def)

lemma lock_ok_cursor:
  assumes "3 \<le> H - blockNumber ev"
    and "\<not> isProcessed (db w) (Number (args_nonce ev)) ''chainA'' ''Locked''"
  shows "LockListener_handleEvent lock_listener_ok ev H w =
     emit (w\<lparr>db := setLastBlock
                (markProcessed (db w) (Number (args_nonce ev)) ''chainA'' ''0xaa'' ''Locked'')
                ''chainA_lock'' (blockNumber ev)\<rparr>)
       [Log (Processing LockListener (Number (args_nonce ev))),
        Submit (mintWrapped (args_user ev) (args_amount ev) (Number (args_nonce ev)))
          (Mined ''0xaa''),
        Log (Successful LockListener (Number (args_nonce ev)) ''0xaa'')]"
  using assms by (intro LockListener_handleEvent_first_mined) (simp_all add: always_mined_def)

lemma lock_ok_recovery_cursors:
  "LockListener_recovery_cursors lock_listener_ok 60 fresh = [0, 50, 60]"
proof -
  let ?w1 = "emit fresh [Log (RecoveryScanning LockListener 1 60)]"
  have "LockListener_handleEvent lock_listener_ok lock_at_50 60 ?w1 =
     emit (?w1\<lparr>db := setLastBlock
                (markProcessed (db ?w1) (Number (args_nonce lock_at_50)) ''chainA'' ''0xaa'' ''Locked'')
                ''chainA_lock'' (blockNumber lock_at_50)\<rparr>)
       [Log (Processing LockListener (Number (args_nonce lock_at_50))),
        Submit (mintWrapped (args_user lock_at_50) (args_amount lock_at_50) (Number (args_nonce lock_at_50)))
          (Mined ''0xaa''),
        Log (Successful LockListener (Number (args_nonce lock_at_50)) ''0xaa'')]"
    by (rule lock_ok_cursor) (simp_all add: Number_small)
  then have "getLastBlock (db (LockListener_handleEvent lock_listener_ok lock_at_50 60 ?w1))
      ''chainA_lock'' = 50"
    by (simp add: getLastBlock_setLastBlock)
  moreover have "getLastBlock (db (LockListener_recoverMissedEvents lock_listener_ok 60 fresh))
      ''chainA_lock'' = 60"
    by (rule LockListener_recover_cursor) simp
  ultimately show ?thesis
    by (simp add: LockListener_recovery_cursors_def)
qed

lemma transfer_above_2_53_fields [simp]:
  "blockNumber transfer_above_2_53 = 50" "args_nonce transfer_above_2_53 = 2 ^ 53 + 3"
  by (simp_all add: transfer_above_2_53_def)

lemma proposal_above_2_53_fields [simp]:
  "blockNumber proposal_above_2_53 = 50" "args_proposalId proposal_above_2_53 = 2 ^ 53 + 3"
  by (simp_all add: proposal_above_2_53_def)

section \<open>Runs of the three listeners\<close>

lemma mined_unlocks_append [simp]:
  "mined_unlocks n (es @ fs) = mined_unlocks n es + mined_unlocks n fs"
  by (simp add: mined_unlocks_def)

lemma mined_unlocks_simps [simp]:
  "mined_unlocks n [] = 0"
  "mined_unlocks n (Log l # es) = mined_unlocks n es"
  "mined_unlocks n (Sleep t # es) = mined_unlocks n es"
  "mined_unlocks n (Submit c (Threw err) # es) = mined_unlocks n es"
  "mined_unlocks n (Submit (unlock u a m) (Mined h) # es) =
     (if m = n then Suc (mined_unlocks n es) else mined_unlocks n es)"
  by (simp_all add: mined_unlocks_def)

lemma BurnListener_retry_mined:
  assumes "attempt \<le> 3"
    and "submitTx L (submitted (trace w)) (unlock (args_user ev) (args_amount ev) (Number (args_nonce ev))) = Mined h"
  shows "BurnListener_retry L ev attempt w =
     emit (w\<lparr>db := setLastBlock (markProcessed (db w) (Number (args_nonce ev)) ''chainB'' h ''Burned'')
                     ''chainB_burn'' (blockNumber ev)\<rparr>)
       [Submit (unlock (args_user ev) (args_amount ev) (Number (args_nonce ev))) (Mined h),
        Log (Successful BurnListener (Number (args_nonce ev)) h)]"
  using assms by (subst BurnListener_retry.simps) (simp add: MAX_RETRIES_def Let_def)

lemma BurnListener_retry_summary:
  "\<exists>es. trace (BurnListener_retry L ev attempt w) = trace w @ es
     \<and> (\<forall>m. m \<noteq> Number (args_nonce ev) \<longrightarrow> mined_unlocks m es = 0)
     \<and> (\<forall>l m. Log (NotYetConfirmed l m) \<notin> set es)
     \<and> ((db (BurnListener_retry L ev attempt w) = db w \<and> mined_unlocks (Number (args_nonce ev)) es = 0)
        \<or> (\<exists>h. db (BurnListener_retry L ev attempt w) =
                  setLastBlock (markProcessed (db w) (Number (args_nonce ev)) ''chainB'' h ''Burned'')
                    ''chainB_burn'' (blockNumber ev)
              \<and> mined_unlocks (Number (args_nonce ev)) es = 1))"
proof (induction L ev attempt w rule: BurnListener_retry.induct)
  case (1 L ev attempt w)
  let ?c = "unlock (args_user ev) (args_amount ev) (Number (args_nonce ev))"
  show ?case
  proof (cases "attempt \<le> 3")
    case False
    then show ?thesis by (simp add: BurnListener_retry_over)
  next
    case le: True
    show ?thesis
    proof (cases "submitTx L (submitted (trace w)) ?c")
      case (Mined h)
      show ?thesis
        unfolding BurnListener_retry_mined [OF le Mined]
        by (rule exI [of _ "[Submit ?c (Mined h), Log (Successful BurnListener (Number (args_nonce ev)) h)]"])
          (auto simp: emit_def)
    next
      case (Threw err)
      show ?thesis
      proof (cases "attempt < 3")
        case True
        let ?es = "[Submit ?c (Threw err), Log (AttemptFailed BurnListener attempt err), Sleep 2000]"
        have ih: "\<exists>es. trace (BurnListener_retry L ev (attempt + 1) (emit w ?es)) = trace (emit w ?es) @ es
     \<and> (\<forall>m. m \<noteq> Number (args_nonce ev) \<longrightarrow> mined_unlocks m es = 0)
     \<and> (\<forall>l m. Log (NotYetConfirmed l m) \<notin> set es)
     \<and> ((db (BurnListener_retry L ev (attempt + 1) (emit w ?es)) = db (emit w ?es) \<and> mined_unlocks (Number (args_nonce ev)) es = 0)
        \<or> (\<exists>h. db (BurnListener_retry L ev (attempt + 1) (emit w ?es)) =
                  setLastBlock (markProcessed (db (emit w ?es)) (Number (args_nonce ev)) ''chainB'' h ''Burned'')
                    ''chainB_burn'' (blockNumber ev)
              \<and> mined_unlocks (Number (args_nonce ev)) es = 1))"
        proof -
          have le': "attempt \<le> MAX_RETRIES" and lt': "attempt < MAX_RETRIES"
            using True by (simp_all add: MAX_RETRIES_def)
          show ?thesis
            using "1.IH"(1) [OF le' refl refl Threw lt'] by (simp add: RETRY_DELAY_MS_def)
        qed
        then obtain es where es: "trace (BurnListener_retry L ev (attempt + 1) (emit w ?es)) = trace (emit w ?es) @ es"
          "\<forall>m. m \<noteq> Number (args_nonce ev) \<longrightarrow> mined_unlocks m es = 0"
          "\<forall>l m. Log (NotYetConfirmed l m) \<notin> set es"
          "(db (BurnListener_retry L ev (attempt + 1) (emit w ?es)) = db (emit w ?es) \<and> mined_unlocks (Number (args_nonce ev)) es = 0)
        \<or> (\<exists>h. db (BurnListener_retry L ev (attempt + 1) (emit w ?es)) =
                  setLastBlock (markProcessed (db (emit w ?es)) (Number (args_nonce ev)) ''chainB'' h ''Burned'')
                    ''chainB_burn'' (blockNumber ev)
              \<and> mined_unlocks (Number (args_nonce ev)) es = 1)"
          by blast
        show ?thesis
          unfolding BurnListener_retry_threw [OF True Threw]
          apply (rule exI [of _ "?es @ es"])
          using es by auto
      next
        case False
        with le have a3: "attempt = 3" by simp
        show ?thesis
          unfolding a3 BurnListener_retry_last [OF Threw]
          by (rule exI [of _ "[Submit ?c (Threw err), Log (AttemptFailed BurnListener 3 err), Log (Critical BurnListener (Number (args_nonce ev)))]"])
            auto
      qed
    qed
  qed
qed

lemma BurnListener_retry_some_mined:
  assumes "submitTx L (submitted (trace w) + j) (unlock (args_user ev) (args_amount ev) (Number (args_nonce ev))) = Mined h"
    and "j < 3"
  shows "isProcessed (db (BurnListener_retry L ev 1 w)) (Number (args_nonce ev)) ''chainB'' ''Burned''"
proof -
  let ?c = "unlock (args_user ev) (args_amount ev) (Number (args_nonce ev))"
  let ?n = "Number (args_nonce ev)"
  have mined: "isProcessed (db (BurnListener_retry L ev a v)) ?n ''chainB'' ''Burned''"
    if "a \<le> 3" "submitTx L (submitted (trace v)) ?c = Mined h'" for a v h'
    unfolding BurnListener_retry_mined [OF that]
    by (simp add: isProcessed_def setLastBlock_def markProcessed_def has_key_def)
  show ?thesis
  proof (cases "submitTx L (submitted (trace w)) ?c")
    case (Mined h')
    then show ?thesis by (intro mined) simp_all
  next
    case t1: (Threw e1)
    let ?w1 = "emit w [Submit ?c (Threw e1), Log (AttemptFailed BurnListener 1 e1), Sleep 2000]"
    have s1: "BurnListener_retry L ev 1 w = BurnListener_retry L ev 2 ?w1"
    proof -
      have "BurnListener_retry L ev 1 w = BurnListener_retry L ev (Suc 1) ?w1"
        using t1 by (intro BurnListener_retry_threw) simp_all
      moreover have "Suc 1 = 2" by simp
      ultimately show ?thesis by metis
    qed
    have k1: "submitted (trace ?w1) = Suc (submitted (trace w))" by simp
    show ?thesis
    proof (cases "submitTx L (submitted (trace ?w1)) ?c")
      case (Mined h')
      then show ?thesis unfolding s1 by (intro mined) simp_all
    next
      case t2: (Threw e2)
      let ?w2 = "emit ?w1 [Submit ?c (Threw e2), Log (AttemptFailed BurnListener 2 e2), Sleep 2000]"
      have s2: "BurnListener_retry L ev 2 ?w1 = BurnListener_retry L ev 3 ?w2"
      proof -
        have "BurnListener_retry L ev 2 ?w1 = BurnListener_retry L ev (Suc 2) ?w2"
          using t2 by (intro BurnListener_retry_threw) simp_all
        moreover have "Suc 2 = 3" by simp
        ultimately show ?thesis by metis
      qed
      have k2: "submitted (trace ?w2) = Suc (Suc (submitted (trace w)))" by simp
      from assms(2) have "j = 0 \<or> j = 1 \<or> j = 2" by arith
      with assms(1) t1 t2 have "submitTx L (submitted (trace ?w2)) ?c = Mined h"
        unfolding k1 k2 by auto
      then show ?thesis unfolding s1 s2 by (intro mined) simp_all
    qed
  qed
qed

lemma BurnListener_handleEvent_unconfirmed:
  "currentBlock - blockNumber ev < confirmationDepth L \<Longrightarrow>
     BurnListener_handleEvent L ev currentBlock w =
       emit w [Log (NotYetConfirmed BurnListener (Number (args_nonce ev)))]"
  by (simp add: BurnListener_handleEvent_def)

lemma BurnListener_handleEvent_summary:
  "\<exists>es. trace (BurnListener_handleEvent L ev H w) = trace w @ es
     \<and> (\<forall>m. m \<noteq> Number (args_nonce ev) \<longrightarrow> mined_unlocks m es = 0)
     \<and> (isProcessed (db w) (Number (args_nonce ev)) ''chainB'' ''Burned'' \<longrightarrow>
          mined_unlocks (Number (args_nonce ev)) es = 0)
     \<and> ((db (BurnListener_handleEvent L ev H w) = db w \<and> mined_unlocks (Number (args_nonce ev)) es = 0)
        \<or> (\<exists>h. db (BurnListener_handleEvent L ev H w) =
                  setLastBlock (markProcessed (db w) (Number (args_nonce ev)) ''chainB'' h ''Burned'')
                    ''chainB_burn'' (blockNumber ev)
              \<and> mined_unlocks (Number (args_nonce ev)) es = 1))"
proof -
  let ?n = "Number (args_nonce ev)"
  consider (u) "H - blockNumber ev < confirmationDepth L"
    | (p) "confirmationDepth L \<le> H - blockNumber ev" "isProcessed (db w) ?n ''chainB'' ''Burned''"
    | (r) "confirmationDepth L \<le> H - blockNumber ev" "\<not> isProcessed (db w) ?n ''chainB'' ''Burned''"
    by linarith
  then show ?thesis
  proof cases
    case u
    show ?thesis
      unfolding BurnListener_handleEvent_unconfirmed [OF u]
      by (rule exI [of _ "[Log (NotYetConfirmed BurnListener ?n)]"]) simp
  next
    case p
    show ?thesis
      unfolding BurnListener_handleEvent_processed [OF p]
      by (rule exI [of _ "[Log (AlreadyProcessed BurnListener ?n)]"]) simp
  next
    case r
    let ?w1 = "emit w [Log (Processing BurnListener ?n)]"
    obtain es where es: "trace (BurnListener_retry L ev 1 ?w1) = trace ?w1 @ es"
      "\<forall>m. m \<noteq> ?n \<longrightarrow> mined_unlocks m es = 0"
      "(db (BurnListener_retry L ev 1 ?w1) = db ?w1 \<and> mined_unlocks ?n es = 0)
        \<or> (\<exists>h. db (BurnListener_retry L ev 1 ?w1) =
                  setLastBlock (markProcessed (db ?w1) ?n ''chainB'' h ''Burned'')
                    ''chainB_burn'' (blockNumber ev)
              \<and> mined_unlocks ?n es = 1)"
      using BurnListener_retry_summary [of L ev 1 ?w1] by blast
    show ?thesis
      unfolding BurnListener_handleEvent_new [OF r]
      apply (rule exI [of _ "Log (Processing BurnListener ?n) # es"])
      using es r(2) by auto
  qed
qed

lemma BurnListener_handleEvent_inv:
  assumes "mined_unlocks m (trace w) \<le> 1"
    and "mined_unlocks m (trace w) = 1 \<longrightarrow> isProcessed (db w) m ''chainB'' ''Burned''"
  shows "mined_unlocks m (trace (BurnListener_handleEvent L ev H w)) \<le> 1
     \<and> (mined_unlocks m (trace (BurnListener_handleEvent L ev H w)) = 1 \<longrightarrow>
          isProcessed (db (BurnListener_handleEvent L ev H w)) m ''chainB'' ''Burned'')"
proof -
  let ?n = "Number (args_nonce ev)"
  let ?w' = "BurnListener_handleEvent L ev H w"
  obtain es where es: "trace ?w' = trace w @ es"
    "\<forall>k. k \<noteq> ?n \<longrightarrow> mined_unlocks k es = 0"
    "isProcessed (db w) ?n ''chainB'' ''Burned'' \<longrightarrow> mined_unlocks ?n es = 0"
    "(db ?w' = db w \<and> mined_unlocks ?n es = 0)
        \<or> (\<exists>h. db ?w' = setLastBlock (markProcessed (db w) ?n ''chainB'' h ''Burned'')
                    ''chainB_burn'' (blockNumber ev)
              \<and> mined_unlocks ?n es = 1)"
    using BurnListener_handleEvent_summary [of L ev H w] by blast
  have keep: "isProcessed (db w) m ''chainB'' ''Burned'' \<Longrightarrow> isProcessed (db ?w') m ''chainB'' ''Burned''"
    using es(4) by (auto simp: isProcessed_markProcessed)
  show ?thesis
  proof (cases "m = ?n")
    case False
    then have "mined_unlocks m es = 0" using es(2) by simp
    then show ?thesis using assms keep by (simp add: es(1))
  next
    case True
    show ?thesis
    proof (cases "mined_unlocks m (trace w) = 1")
      case True
      with assms(2) have "isProcessed (db w) m ''chainB'' ''Burned''" by simp
      with es(3) \<open>m = ?n\<close> keep have "mined_unlocks m es = 0" "isProcessed (db ?w') m ''chainB'' ''Burned''"
        by simp_all
      then show ?thesis using assms(1) by (simp add: es(1))
    next
      case False
      with assms(1) have z: "mined_unlocks m (trace w) = 0" by simp
      from es(4) show ?thesis
      proof
        assume "db ?w' = db w \<and> mined_unlocks ?n es = 0"
        then show ?thesis using z True by (simp add: es(1))
      next
        assume "\<exists>h. db ?w' = setLastBlock (markProcessed (db w) ?n ''chainB'' h ''Burned'')
                    ''chainB_burn'' (blockNumber ev) \<and> mined_unlocks ?n es = 1"
        then show ?thesis using z True by (auto simp: es(1) isProcessed_markProcessed)
      qed
    qed
  qed
qed

lemma BurnListener_run_inv:
  "mined_unlocks m (trace w) \<le> 1 \<Longrightarrow>
   (mined_unlocks m (trace w) = 1 \<longrightarrow> isProcessed (db w) m ''chainB'' ''Burned'') \<Longrightarrow>
   mined_unlocks m (trace (BurnListener_run L w calls)) \<le> 1"
proof (induction calls arbitrary: w)
  case Nil
  then show ?case by (simp add: BurnListener_run_def)
next
  case (Cons x calls)
  obtain ev H where x: "x = (ev, H)" by (cases x) auto
  have step: "BurnListener_run L w (x # calls) =
      BurnListener_run L (BurnListener_handleEvent L ev H w) calls"
    by (simp add: BurnListener_run_def x)
  show ?case
    unfolding step
    using BurnListener_handleEvent_inv [OF Cons.prems, of L ev H]
    by (intro Cons.IH) simp_all
qed

lemma BurnListener_handleEvent_first_mined:
  assumes "confirmationDepth L \<le> H - blockNumber ev"
    and "\<not> isProcessed (db w) (Number (args_nonce ev)) ''chainB'' ''Burned''"
    and "submitTx L (submitted (trace w))
           (unlock (args_user ev) (args_amount ev) (Number (args_nonce ev))) = Mined h"
  shows "BurnListener_handleEvent L ev H w =
     emit (w\<lparr>db := setLastBlock
                (markProcessed (db w) (Number (args_nonce ev)) ''chainB'' h ''Burned'')
                ''chainB_burn'' (blockNumber ev)\<rparr>)
       [Log (Processing BurnListener (Number (args_nonce ev))),
        Submit (unlock (args_user ev) (args_amount ev) (Number (args_nonce ev))) (Mined h),
        Log (Successful BurnListener (Number (args_nonce ev)) h)]"
proof -
  let ?w1 = "emit w [Log (Processing BurnListener (Number (args_nonce ev)))]"
  have "BurnListener_handleEvent L ev H w = BurnListener_retry L ev 1 ?w1"
    using assms(1,2) by (rule BurnListener_handleEvent_new)
  also have "\<dots> = emit (?w1\<lparr>db := setLastBlock
                (markProcessed (db ?w1) (Number (args_nonce ev)) ''chainB'' h ''Burned'')
                ''chainB_burn'' (blockNumber ev)\<rparr>)
       [Submit (unlock (args_user ev) (args_amount ev) (Number (args_nonce ev))) (Mined h),
        Log (Successful BurnListener (Number (args_nonce ev)) h)]"
    using assms(3) by (intro BurnListener_retry_mined) simp_all
  finally show ?thesis by (simp add: emit_def)
qed

lemma mined_pauses_append [simp]:
  "mined_pauses (es @ fs) = mined_pauses es + mined_pauses fs"
  by (simp add: mined_pauses_def)

lemma mined_pauses_simps [simp]:
  "mined_pauses [] = 0"
  "mined_pauses (e # es) = (if is_mined_pause e then Suc (mined_pauses es) else mined_pauses es)"
  by (simp_all add: mined_pauses_def)

lemma pauses_logged_append [simp]:
  "pauses_logged (es @ fs) = pauses_logged es + pauses_logged fs"
  by (simp add: pauses_logged_def)

lemma pauses_logged_simps [simp]:
  "pauses_logged [] = 0"
  "pauses_logged (e # es) =
     (if is_pause_logged e then Suc (pauses_logged es) else pauses_logged es)"
  by (simp_all add: pauses_logged_def)

lemma pauses_logged_for_append [simp]:
  "pauses_logged_for p (es @ fs) = pauses_logged_for p es + pauses_logged_for p fs"
  by (simp add: pauses_logged_for_def)

lemma pauses_logged_for_simps [simp]:
  "pauses_logged_for p [] = 0"
  "pauses_logged_for p (e # es) =
     (if is_pause_logged_for p e then Suc (pauses_logged_for p es) else pauses_logged_for p es)"
  by (simp_all add: pauses_logged_for_def)

lemma GovernanceListener_executePauseBridge_mined:
  assumes "attempt \<le> 3"
    and "submitTx L (submitted (trace w)) pauseBridge = Mined h"
  shows "GovernanceListener_executePauseBridge L p ev attempt w =
     emit (w\<lparr>db := setLastBlock (markProcessed (db w) p ''chainB'' h ''ProposalPassed'')
                     ''chainB_governance'' (blockNumber ev)\<rparr>)
       [Submit pauseBridge (Mined h), Log (Successful GovernanceListener p h)]"
  using assms
  by (subst GovernanceListener_executePauseBridge.simps) (simp add: MAX_RETRIES_def)

lemma GovernanceListener_executePauseBridge_threw:
  assumes "attempt < 3"
    and "submitTx L (submitted (trace w)) pauseBridge = Threw err"
  shows "GovernanceListener_executePauseBridge L p ev attempt w =
     GovernanceListener_executePauseBridge L p ev (Suc attempt)
       (emit w [Submit pauseBridge (Threw err),
                Log (AttemptFailed GovernanceListener attempt err), Sleep 2000])"
  using assms
  by (subst GovernanceListener_executePauseBridge.simps)
    (simp add: MAX_RETRIES_def RETRY_DELAY_MS_def)

lemma GovernanceListener_executePauseBridge_last:
  assumes "submitTx L (submitted (trace w)) pauseBridge = Threw err"
  shows "GovernanceListener_executePauseBridge L p ev 3 w =
       emit w [Submit pauseBridge (Threw err),
               Log (AttemptFailed GovernanceListener 3 err),
               Log (Critical GovernanceListener p)]"
  using assms
  by (subst GovernanceListener_executePauseBridge.simps)
    (simp add: MAX_RETRIES_def GovernanceListener_executePauseBridge_over)

lemma GovernanceListener_executePauseBridge_summary:
  "\<exists>es. trace (GovernanceListener_executePauseBridge L p ev attempt w) = trace w @ es
     \<and> (\<forall>q. q \<noteq> p \<longrightarrow> pauses_logged_for q es = 0)
     \<and> mined_pauses es = pauses_logged es
     \<and> ((db (GovernanceListener_executePauseBridge L p ev attempt w) = db w
           \<and> pauses_logged_for p es = 0)
        \<or> (\<exists>h. db (GovernanceListener_executePauseBridge L p ev attempt w) =
                  setLastBlock (markProcessed (db w) p ''chainB'' h ''ProposalPassed'')
                    ''chainB_governance'' (blockNumber ev)
              \<and> pauses_logged_for p es = 1))"
proof (induction L p ev attempt w rule: GovernanceListener_executePauseBridge.induct)
  case (1 L p ev attempt w)
  show ?case
  proof (cases "attempt \<le> 3")
    case False
    then show ?thesis by (simp add: GovernanceListener_executePauseBridge_over)
  next
    case le: True
    show ?thesis
    proof (cases "submitTx L (submitted (trace w)) pauseBridge")
      case (Mined h)
      show ?thesis
        unfolding GovernanceListener_executePauseBridge_mined [OF le Mined]
        by (rule exI [of _ "[Submit pauseBridge (Mined h),
              Log (Successful GovernanceListener p h)]"])
          (auto simp: emit_def)
    next
      case (Threw err)
      show ?thesis
      proof (cases "attempt < 3")
        case True
        let ?es = "[Submit pauseBridge (Threw err),
                    Log (AttemptFailed GovernanceListener attempt err), Sleep 2000]"
        let ?r = "GovernanceListener_executePauseBridge L p ev (attempt + 1) (emit w ?es)"
        have ih: "\<exists>es. trace ?r = trace (emit w ?es) @ es
           \<and> (\<forall>q. q \<noteq> p \<longrightarrow> pauses_logged_for q es = 0)
           \<and> mined_pauses es = pauses_logged es
           \<and> ((db ?r = db (emit w ?es) \<and> pauses_logged_for p es = 0)
              \<or> (\<exists>h. db ?r =
                   setLastBlock (markProcessed (db (emit w ?es)) p ''chainB'' h ''ProposalPassed'')
                     ''chainB_governance'' (blockNumber ev)
                 \<and> pauses_logged_for p es = 1))"
        proof -
          have le': "attempt \<le> MAX_RETRIES" and lt': "attempt < MAX_RETRIES"
            using True by (simp_all add: MAX_RETRIES_def)
          show ?thesis
            using "1.IH"(1) [OF le' Threw lt'] by (simp add: RETRY_DELAY_MS_def)
        qed
        then obtain es where es: "trace ?r = trace (emit w ?es) @ es"
          "\<forall>q. q \<noteq> p \<longrightarrow> pauses_logged_for q es = 0"
          "mined_pauses es = pauses_logged es"
          "(db ?r = db (emit w ?es) \<and> pauses_logged_for p es = 0)
              \<or> (\<exists>h. db ?r =
                   setLastBlock (markProcessed (db (emit w ?es)) p ''chainB'' h ''ProposalPassed'')
                     ''chainB_governance'' (blockNumber ev)
                 \<and> pauses_logged_for p es = 1)"
          by blast
        have unfold: "GovernanceListener_executePauseBridge L p ev attempt w = ?r"
          using GovernanceListener_executePauseBridge_threw [OF True Threw, of p ev] by simp
        show ?thesis
          unfolding unfold
          apply (rule exI [of _ "?es @ es"])
          using es by auto
      next
        case False
        with le have a3: "attempt = 3" by simp
        show ?thesis
          unfolding a3 GovernanceListener_executePauseBridge_last [OF Threw]
          by (rule exI [of _ "[Submit pauseBridge (Threw err),
                Log (AttemptFailed GovernanceListener 3 err),
                Log (Critical GovernanceListener p)]"])
            auto
      qed
    qed
  qed
qed

lemma GovernanceListener_executePauseBridge_some_mined:
  assumes "submitTx L (submitted (trace w) + j) pauseBridge = Mined h"
    and "j < 3"
  shows "isProcessed (db (GovernanceListener_executePauseBridge L p ev 1 w))
           p ''chainB'' ''ProposalPassed''"
proof -
  have mined: "isProcessed (db (GovernanceListener_executePauseBridge L p ev a v))
      p ''chainB'' ''ProposalPassed''"
    if "a \<le> 3" "submitTx L (submitted (trace v)) pauseBridge = Mined h'" for a v h'
    unfolding GovernanceListener_executePauseBridge_mined [OF that]
    by (simp add: isProcessed_def setLastBlock_def markProcessed_def has_key_def)
  show ?thesis
  proof (cases "submitTx L (submitted (trace w)) pauseBridge")
    case (Mined h')
    then show ?thesis by (intro mined) simp_all
  next
    case t1: (Threw e1)
    let ?w1 = "emit w [Submit pauseBridge (Threw e1),
                       Log (AttemptFailed GovernanceListener 1 e1), Sleep 2000]"
    have s1: "GovernanceListener_executePauseBridge L p ev 1 w =
        GovernanceListener_executePauseBridge L p ev 2 ?w1"
    proof -
      have "GovernanceListener_executePauseBridge L p ev 1 w =
          GovernanceListener_executePauseBridge L p ev (Suc 1) ?w1"
        using t1 by (intro GovernanceListener_executePauseBridge_threw) simp_all
      moreover have "Suc 1 = 2" by simp
      ultimately show ?thesis by metis
    qed
    have k1: "submitted (trace ?w1) = Suc (submitted (trace w))" by simp
    show ?thesis
    proof (cases "submitTx L (submitted (trace ?w1)) pauseBridge")
      case (Mined h')
      then show ?thesis unfolding s1 by (intro mined) simp_all
    next
      case t2: (Threw e2)
      let ?w2 = "emit ?w1 [Submit pauseBridge (Threw e2),
                           Log (AttemptFailed GovernanceListener 2 e2), Sleep 2000]"
      have s2: "GovernanceListener_executePauseBridge L p ev 2 ?w1 =
          GovernanceListener_executePauseBridge L p ev 3 ?w2"
      proof -
        have "GovernanceListener_executePauseBridge L p ev 2 ?w1 =
            GovernanceListener_executePauseBridge L p ev (Suc 2) ?w2"
          using t2 by (intro GovernanceListener_executePauseBridge_threw) simp_all
        moreover have "Suc 2 = 3" by simp
        ultimately show ?thesis by metis
      qed
      have k2: "submitted (trace ?w2) = Suc (Suc (submitted (trace w)))" by simp
      from assms(2) have "j = 0 \<or> j = 1 \<or> j = 2" by arith
      with assms(1) t1 t2 have "submitTx L (submitted (trace ?w2)) pauseBridge = Mined h"
        unfolding k1 k2 by auto
      then show ?thesis unfolding s1 s2 by (intro mined) simp_all
    qed
  qed
qed

lemma GovernanceListener_handleEvent_summary:
  "\<exists>es. trace (GovernanceListener_handleEvent L ev H w) = trace w @ es
     \<and> (\<forall>q. q \<noteq> Number (args_proposalId ev) \<longrightarrow> pauses_logged_for q es = 0)
     \<and> mined_pauses es = pauses_logged es
     \<and> (isProcessed (db w) (Number (args_proposalId ev)) ''chainB'' ''ProposalPassed'' \<longrightarrow>
          pauses_logged_for (Number (args_proposalId ev)) es = 0)
     \<and> ((db (GovernanceListener_handleEvent L ev H w) = db w
           \<and> pauses_logged_for (Number (args_proposalId ev)) es = 0)
        \<or> (\<exists>h. db (GovernanceListener_handleEvent L ev H w) =
                  setLastBlock
                    (markProcessed (db w) (Number (args_proposalId ev)) ''chainB'' h
                       ''ProposalPassed'')
                    ''chainB_governance'' (blockNumber ev)
              \<and> pauses_logged_for (Number (args_proposalId ev)) es = 1))"
proof -
  let ?p = "Number (args_proposalId ev)"
  consider (u) "H - blockNumber ev < confirmationDepth L"
    | (p) "confirmationDepth L \<le> H - blockNumber ev"
        "isProcessed (db w) ?p ''chainB'' ''ProposalPassed''"
    | (k) "confirmationDepth L \<le> H - blockNumber ev"
        "\<not> isProcessed (db w) ?p ''chainB'' ''ProposalPassed''"
        "take 10 (args_data ev) \<noteq> pauseSelector"
    | (r) "confirmationDepth L \<le> H - blockNumber ev"
        "\<not> isProcessed (db w) ?p ''chainB'' ''ProposalPassed''"
        "take 10 (args_data ev) = pauseSelector"
    by linarith
  then show ?thesis
  proof cases
    case u
    show ?thesis
      unfolding GovernanceListener_handleEvent_unconfirmed [OF u]
      by (rule exI [of _ "[Log (NotYetConfirmed GovernanceListener ?p)]"]) simp
  next
    case p
    show ?thesis
      unfolding GovernanceListener_handleEvent_processed [OF p]
      by (rule exI [of _ "[Log (AlreadyProcessed GovernanceListener ?p)]"]) simp
  next
    case k
    show ?thesis
      unfolding GovernanceListener_handleEvent_unknown [OF k]
      by (rule exI [of _ "[Log (ProcessingProposal ?p (take 10 (args_data ev))),
             Log (UnknownSelector (take 10 (args_data ev)))]"]) simp
  next
    case r
    let ?w1 = "emit w [Log (ProcessingProposal ?p pauseSelector)]"
    let ?r = "GovernanceListener_executePauseBridge L ?p ev 1 ?w1"
    obtain es where es: "trace ?r = trace ?w1 @ es"
      "\<forall>q. q \<noteq> ?p \<longrightarrow> pauses_logged_for q es = 0"
      "mined_pauses es = pauses_logged es"
      "(db ?r = db ?w1 \<and> pauses_logged_for ?p es = 0)
        \<or> (\<exists>h. db ?r =
                  setLastBlock (markProcessed (db ?w1) ?p ''chainB'' h ''ProposalPassed'')
                    ''chainB_governance'' (blockNumber ev)
              \<and> pauses_logged_for ?p es = 1)"
      using GovernanceListener_executePauseBridge_summary [of L ?p ev 1 ?w1] by blast
    show ?thesis
      unfolding GovernanceListener_handleEvent_pause [OF r]
      apply (rule exI [of _ "Log (ProcessingProposal ?p pauseSelector) # es"])
      using es r(2) by auto
  qed
qed

lemma GovernanceListener_handleEvent_inv:
  assumes "pauses_logged_for m (trace w) \<le> 1"
    and "pauses_logged_for m (trace w) = 1 \<longrightarrow> isProcessed (db w) m ''chainB'' ''ProposalPassed''"
  shows "pauses_logged_for m (trace (GovernanceListener_handleEvent L ev H w)) \<le> 1
     \<and> (pauses_logged_for m (trace (GovernanceListener_handleEvent L ev H w)) = 1 \<longrightarrow>
          isProcessed (db (GovernanceListener_handleEvent L ev H w)) m ''chainB'' ''ProposalPassed'')"
proof -
  let ?n = "Number (args_proposalId ev)"
  let ?w' = "GovernanceListener_handleEvent L ev H w"
  obtain es where es: "trace ?w' = trace w @ es"
    "\<forall>k. k \<noteq> ?n \<longrightarrow> pauses_logged_for k es = 0"
    "isProcessed (db w) ?n ''chainB'' ''ProposalPassed'' \<longrightarrow> pauses_logged_for ?n es = 0"
    "(db ?w' = db w \<and> pauses_logged_for ?n es = 0)
        \<or> (\<exists>h. db ?w' = setLastBlock (markProcessed (db w) ?n ''chainB'' h ''ProposalPassed'')
                    ''chainB_governance'' (blockNumber ev)
              \<and> pauses_logged_for ?n es = 1)"
    using GovernanceListener_handleEvent_summary [of L ev H w] by blast
  have keep: "isProcessed (db w) m ''chainB'' ''ProposalPassed'' \<Longrightarrow>
      isProcessed (db ?w') m ''chainB'' ''ProposalPassed''"
    using es(4) by (auto simp: isProcessed_markProcessed)
  show ?thesis
  proof (cases "m = ?n")
    case False
    then have "pauses_logged_for m es = 0" using es(2) by simp
    then show ?thesis using assms keep by (simp add: es(1))
  next
    case True
    show ?thesis
    proof (cases "pauses_logged_for m (trace w) = 1")
      case True
      with assms(2) have "isProcessed (db w) m ''chainB'' ''ProposalPassed''" by simp
      with es(3) \<open>m = ?n\<close> keep have "pauses_logged_for m es = 0"
        "isProcessed (db ?w') m ''chainB'' ''ProposalPassed''"
        by simp_all
      then show ?thesis using assms(1) by (simp add: es(1))
    next
      case False
      with assms(1) have z: "pauses_logged_for m (trace w) = 0" by simp
      from es(4) show ?thesis
      proof
        assume "db ?w' = db w \<and> pauses_logged_for ?n es = 0"
        then show ?thesis using z True by (simp add: es(1))
      next
        assume "\<exists>h. db ?w' = setLastBlock (markProcessed (db w) ?n ''chainB'' h ''ProposalPassed'')
                    ''chainB_governance'' (blockNumber ev) \<and> pauses_logged_for ?n es = 1"
        then show ?thesis using z True by (auto simp: es(1) isProcessed_markProcessed)
      qed
    qed
  qed
qed

lemma GovernanceListener_run_inv:
  "pauses_logged_for m (trace w) \<le> 1 \<Longrightarrow>
   (pauses_logged_for m (trace w) = 1 \<longrightarrow> isProcessed (db w) m ''chainB'' ''ProposalPassed'') \<Longrightarrow>
   pauses_logged_for m (trace (GovernanceListener_run L w calls)) \<le> 1"
proof (induction calls arbitrary: w)
  case Nil
  then show ?case by (simp add: GovernanceListener_run_def)
next
  case (Cons x calls)
  obtain ev H where x: "x = (ev, H)" by (cases x) auto
  have step: "GovernanceListener_run L w (x # calls) =
      GovernanceListener_run L (GovernanceListener_handleEvent L ev H w) calls"
    by (simp add: GovernanceListener_run_def x)
  show ?case
    unfolding step
    using GovernanceListener_handleEvent_inv [OF Cons.prems, of L ev H]
    by (intro Cons.IH) simp_all
qed

lemma GovernanceListener_run_logged:
  "\<exists>es. trace (GovernanceListener_run L w calls) = trace w @ es
     \<and> mined_pauses es = pauses_logged es"
proof (induction calls arbitrary: w)
  case Nil
  show ?case by (rule exI [of _ "[]"]) (simp add: GovernanceListener_run_def)
next
  case (Cons x calls)
  obtain ev H where x: "x = (ev, H)" by (cases x) auto
  let ?w' = "GovernanceListener_handleEvent L ev H w"
  have step: "GovernanceListener_run L w (x # calls) = GovernanceListener_run L ?w' calls"
    by (simp add: GovernanceListener_run_def x)
  obtain es where es: "trace ?w' = trace w @ es" "mined_pauses es = pauses_logged es"
    using GovernanceListener_handleEvent_summary [of L ev H w] by blast
  obtain fs where fs: "trace (GovernanceListener_run L ?w' calls) = trace ?w' @ fs"
    "mined_pauses fs = pauses_logged fs"
    using Cons.IH [of ?w'] by blast
  show ?case
    unfolding step
    by (rule exI [of _ "es @ fs"]) (simp add: es fs)
qed

lemma LockListener_handleEvent_begin_rest:
  "LockListener_handleEvent L ev H w =
     LockListener_handleEvent_rest L ev
       (fst (LockListener_handleEvent_begin L ev H w))
       (snd (LockListener_handleEvent_begin L ev H w))"
  by (simp add: LockListener_handleEvent_def LockListener_handleEvent_begin_def
      LockListener_handleEvent_rest_def Let_def)

lemma BurnListener_handleEvent_replayed:
  assumes "confirmationDepth L \<le> H - blockNumber ev"
    and "confirmationDepth L \<le> H' - blockNumber ev"
    and "j < 3"
    and "submitTx L (submitted (trace w) + j)
           (unlock (args_user ev) (args_amount ev) (Number (args_nonce ev))) = Mined h"
  shows "isProcessed (db (BurnListener_handleEvent L ev H w))
           (Number (args_nonce ev)) ''chainB'' ''Burned''
       \<and> BurnListener_handleEvent L ev H' (BurnListener_handleEvent L ev H w) =
           emit (BurnListener_handleEvent L ev H w)
             [Log (AlreadyProcessed BurnListener (Number (args_nonce ev)))]"
proof -
  let ?n = "Number (args_nonce ev)"
  have p: "isProcessed (db (BurnListener_handleEvent L ev H w)) ?n ''chainB'' ''Burned''"
  proof (cases "isProcessed (db w) ?n ''chainB'' ''Burned''")
    case True
    with assms show ?thesis by (simp add: BurnListener_handleEvent_processed)
  next
    case False
    let ?w1 = "emit w [Log (Processing BurnListener ?n)]"
    have "submitTx L (submitted (trace ?w1) + j)
           (unlock (args_user ev) (args_amount ev) ?n) = Mined h"
      using assms by simp
    then have "isProcessed (db (BurnListener_retry L ev 1 ?w1)) ?n ''chainB'' ''Burned''"
      using assms by (intro BurnListener_retry_some_mined [where j = j and h = h]) simp_all
    with assms False show ?thesis by (simp add: BurnListener_handleEvent_new)
  qed
  moreover from assms p have "BurnListener_handleEvent L ev H' (BurnListener_handleEvent L ev H w) =
           emit (BurnListener_handleEvent L ev H w) [Log (AlreadyProcessed BurnListener ?n)]"
    by (intro BurnListener_handleEvent_processed) simp_all
  ultimately show ?thesis by simp
qed

lemma GovernanceListener_handleEvent_replayed:
  assumes "confirmationDepth G \<le> H - blockNumber pv"
    and "confirmationDepth G \<le> H' - blockNumber pv"
    and "take 10 (args_data pv) = pauseSelector"
    and "j < 3"
    and "submitTx G (submitted (trace w) + j) pauseBridge = Mined h"
  shows "isProcessed (db (GovernanceListener_handleEvent G pv H w))
           (Number (args_proposalId pv)) ''chainB'' ''ProposalPassed''
       \<and> GovernanceListener_handleEvent G pv H' (GovernanceListener_handleEvent G pv H w) =
           emit (GovernanceListener_handleEvent G pv H w)
             [Log (AlreadyProcessed GovernanceListener (Number (args_proposalId pv)))]"
proof -
  let ?n = "Number (args_proposalId pv)"
  have p: "isProcessed (db (GovernanceListener_handleEvent G pv H w)) ?n
      ''chainB'' ''ProposalPassed''"
  proof (cases "isProcessed (db w) ?n ''chainB'' ''ProposalPassed''")
    case True
    with assms show ?thesis by (simp add: GovernanceListener_handleEvent_processed)
  next
    case False
    let ?w1 = "emit w [Log (ProcessingProposal ?n pauseSelector)]"
    have "submitTx G (submitted (trace ?w1) + j) pauseBridge = Mined h"
      using assms by simp
    then have "isProcessed (db (GovernanceListener_executePauseBridge G ?n pv 1 ?w1)) ?n
        ''chainB'' ''ProposalPassed''"
      using assms
      by (intro GovernanceListener_executePauseBridge_some_mined [where j = j and h = h])
        simp_all
    with assms False show ?thesis by (simp add: GovernanceListener_handleEvent_pause)
  qed
  moreover from assms p
  have "GovernanceListener_handleEvent G pv H' (GovernanceListener_handleEvent G pv H w) =
           emit (GovernanceListener_handleEvent G pv H w)
             [Log (AlreadyProcessed GovernanceListener ?n)]"
    by (intro GovernanceListener_handleEvent_processed) simp_all
  ultimately show ?thesis by simp
qed

lemma LockListener_handleEvent_replayed:
  assumes "confirmationDepth L \<le> H - blockNumber ev"
    and "confirmationDepth L \<le> H' - blockNumber ev"
    and "j < 3"
    and "submitTx L (submitted (trace w) + j)
           (mintWrapped (args_user ev) (args_amount ev) (Number (args_nonce ev))) = Mined h"
  shows "isProcessed (db (LockListener_handleEvent L ev H w))
           (Number (args_nonce ev)) ''chainA'' ''Locked''
       \<and> LockListener_handleEvent L ev H' (LockListener_handleEvent L ev H w) =
           emit (LockListener_handleEvent L ev H w)
             [Log (AlreadyProcessed LockListener (Number (args_nonce ev)))]"
proof -
  let ?n = "Number (args_nonce ev)"
  have p: "isProcessed (db (LockListener_handleEvent L ev H w)) ?n ''chainA'' ''Locked''"
  proof (cases "isProcessed (db w) ?n ''chainA'' ''Locked''")
    case True
    with assms show ?thesis by (simp add: LockListener_handleEvent_processed)
  next
    case False
    let ?w1 = "emit w [Log (Processing LockListener ?n)]"
    have "submitTx L (submitted (trace ?w1) + j)
           (mintWrapped (args_user ev) (args_amount ev) ?n) = Mined h"
      using assms by simp
    then have "isProcessed (db (LockListener_retry L ev 1 ?w1)) ?n ''chainA'' ''Locked''"
      using assms by (intro LockListener_retry_some_mined [where j = j and h = h]) simp_all
    with assms False show ?thesis by (simp add: LockListener_handleEvent_new)
  qed
  moreover from assms p have "LockListener_handleEvent L ev H' (LockListener_handleEvent L ev H w) =
           emit (LockListener_handleEvent L ev H w) [Log (AlreadyProcessed LockListener ?n)]"
    by (intro LockListener_handleEvent_processed) simp_all
  ultimately show ?thesis by simp
qed

lemma burn_listener_ok_fields [simp]:
  "confirmationDepth burn_listener_ok = 3" "submitTx burn_listener_ok = always_mined"
  "queryFilter burn_listener_ok = chain_with_burn_at_120"
  by (simp_all add: burn_listener_ok_def)

lemma proposal_0_fields [simp]:
  "blockNumber proposal_0 = 200" "args_proposalId proposal_0 = 0"
  "args_data proposal_0 = ''0x6b9a13e3''"
  by (simp_all add: proposal_0_def)

lemma lock_ok_overlapped:
  "trace (LockListener_overlapped lock_listener_ok lock_at_50 60 lock_at_50 60 fresh) =
     [Log (Processing LockListener 0), Log (Processing LockListener 0),
      Submit (mintWrapped ''0xf39f'' 100 0) (Mined ''0xaa''),
      Log (Successful LockListener 0 ''0xaa''),
      Submit (mintWrapped ''0xf39f'' 100 0) (Mined ''0xaa''),
      Log (Successful LockListener 0 ''0xaa'')]"
proof -
  let ?w1 = "emit fresh [Log (Processing LockListener 0)]"
  let ?w2 = "emit ?w1 [Log (Processing LockListener 0)]"
  have b1: "LockListener_handleEvent_begin lock_listener_ok lock_at_50 60 fresh = (True, ?w1)"
    by (simp add: LockListener_handleEvent_begin_def Number_small)
  have b2: "LockListener_handleEvent_begin lock_listener_ok lock_at_50 60 ?w1 = (True, ?w2)"
    by (simp add: LockListener_handleEvent_begin_def Number_small)
  have r: "trace (LockListener_retry lock_listener_ok lock_at_50 (Suc 0) v) =
      trace v @ [Submit (mintWrapped ''0xf39f'' 100 0) (Mined ''0xaa''),
                 Log (Successful LockListener 0 ''0xaa'')]" for v
    using LockListener_retry_mined [of "Suc 0" lock_listener_ok v lock_at_50 "''0xaa''"]
    by (simp add: always_mined_def Number_small)
  show ?thesis
    by (simp add: LockListener_overlapped_def b1 b2 LockListener_handleEvent_rest_def r)
qed

section \<open>The dedup key and the contract objects\<close>

lemma Number_large:
  assumes "2 ^ 53 \<le> n"
  shows "2 ^ 53 \<le> Number n"
proof -
  define l where "l = bit_length n"
  have "\<not> l \<le> 53"
    using assms bit_length_less [of n 53] by (simp add: l_def)
  then obtain s where s: "l = 53 + s" "0 < s"
    by (metis add_diff_inverse_nat less_imp_add_positive not_le_imp_less order_less_imp_not_less)
  have "\<not> bit_length n \<le> l - 1"
    using \<open>\<not> l \<le> 53\<close> by (simp add: l_def)
  then have "2 ^ (l - 1) \<le> n"
    using bit_length_less [of n "l - 1"] by simp
  moreover have "(2::nat) ^ (l - 1) = 2 ^ 52 * 2 ^ s"
  proof -
    have "l - 1 = 52 + s" using s by simp
    moreover have "(2::nat) ^ (52 + s) = 2 ^ 52 * 2 ^ s" by (rule power_add)
    ultimately show ?thesis by metis
  qed
  ultimately have "(2 ^ 52 * 2 ^ s) div 2 ^ s \<le> n div 2 ^ s"
    by (metis div_le_mono)
  then have q: "2 ^ 52 \<le> n div 2 ^ s"
    by simp
  have "(2::nat) ^ 53 = 2 ^ 52 * 2 ^ 1"
    by simp
  also have "\<dots> \<le> 2 ^ 52 * 2 ^ s"
    using s(2) by (intro mult_le_mono2 power_increasing) simp_all
  also have "\<dots> \<le> n div 2 ^ s * 2 ^ s"
    using q by (rule mult_le_mono1)
  finally have low: "2 ^ 53 \<le> n div 2 ^ s * 2 ^ s" .
  have "n div 2 ^ s * 2 ^ s \<le> (n div 2 ^ s + 1) * 2 ^ s"
    by simp
  with low have high: "2 ^ 53 \<le> (n div 2 ^ s + 1) * 2 ^ s"
    by (rule order_trans)
  have "Number n = (if 2 ^ (s - 1) < n mod 2 ^ s \<or> (n mod 2 ^ s = 2 ^ (s - 1) \<and> odd (n div 2 ^ s))
      then (n div 2 ^ s + 1) * 2 ^ s else n div 2 ^ s * 2 ^ s)"
    using s \<open>\<not> l \<le> 53\<close> unfolding Number_def l_def [symmetric] Let_def by simp
  with low high show ?thesis
    by (simp split: if_splits)
qed

lemma Number_injective_below:
  assumes "Number a = Number b" and "Number a < 2 ^ 53"
  shows "a = b"
proof -
  have below: "n < 2 ^ 53" if "Number n < 2 ^ 53" for n
  proof (rule ccontr)
    assume "\<not> n < 2 ^ 53"
    then have "2 ^ 53 \<le> n" by simp
    then have "2 ^ 53 \<le> Number n" by (rule Number_large)
    with that show False by simp
  qed
  have "a < 2 ^ 53"
    using assms(2) by (rule below)
  moreover have "Number b < 2 ^ 53"
    using assms by metis
  then have "b < 2 ^ 53"
    by (rule below)
  ultimately show ?thesis
    using assms(1) by (simp add: Number_small)
qed

lemma LockListener_ethers_overflow:
  assumes "submitTx L = ethers_contract f"
    and "confirmationDepth L \<le> H - blockNumber ev"
    and "\<not> isProcessed (db w) (Number (args_nonce ev)) ''chainA'' ''Locked''"
    and "2 ^ 53 \<le> Number (args_nonce ev)"
  shows "LockListener_handleEvent L ev H w =
     emit w
       [Log (Processing LockListener (Number (args_nonce ev))),
        Submit (mintWrapped (args_user ev) (args_amount ev) (Number (args_nonce ev)))
          (Threw (OtherError ''overflow'')),
        Log (AttemptFailed LockListener 1 (OtherError ''overflow'')), Sleep 2000,
        Submit (mintWrapped (args_user ev) (args_amount ev) (Number (args_nonce ev)))
          (Threw (OtherError ''overflow'')),
        Log (AttemptFailed LockListener 2 (OtherError ''overflow'')), Sleep 2000,
        Submit (mintWrapped (args_user ev) (args_amount ev) (Number (args_nonce ev)))
          (Threw (OtherError ''overflow'')),
        Log (AttemptFailed LockListener 3 (OtherError ''overflow'')),
        Log (Critical LockListener (Number (args_nonce ev)))]"
proof -
  have "submitTx L k (mintWrapped (args_user ev) (args_amount ev) (Number (args_nonce ev)))
      = Threw (OtherError ''overflow'')" for k
    using assms(1,4) by (simp add: ethers_contract_def)
  then show ?thesis
    using assms(2,3) by (intro LockListener_handleEvent_all_threw) simp_all
qed

lemma LockListener_ethers_db:
  assumes "submitTx L = ethers_contract f" and "2 ^ 53 \<le> Number (args_nonce ev)"
  shows "db (LockListener_handleEvent L ev H w) = db w"
proof -
  consider (u) "H - blockNumber ev < confirmationDepth L"
    | (p) "confirmationDepth L \<le> H - blockNumber ev"
        "isProcessed (db w) (Number (args_nonce ev)) ''chainA'' ''Locked''"
    | (r) "confirmationDepth L \<le> H - blockNumber ev"
        "\<not> isProcessed (db w) (Number (args_nonce ev)) ''chainA'' ''Locked''"
    by linarith
  then show ?thesis
  proof cases
    case u
    then show ?thesis by (simp add: LockListener_handleEvent_unconfirmed)
  next
    case p
    then show ?thesis by (simp add: LockListener_handleEvent_processed)
  next
    case r
    show ?thesis
      unfolding LockListener_ethers_overflow [OF assms(1) r assms(2)] by simp
  qed
qed

lemma LockListener_ethers_step:
  assumes "submitTx L = ethers_contract f"
    and "\<forall>n. 2 ^ 53 \<le> n \<longrightarrow> \<not> isProcessed (db w) n ''chainA'' ''Locked''"
  shows "\<forall>n. 2 ^ 53 \<le> n \<longrightarrow>
     \<not> isProcessed (db (LockListener_handleEvent L ev H w)) n ''chainA'' ''Locked''"
proof (cases "2 ^ 53 \<le> Number (args_nonce ev)")
  case True
  then show ?thesis
    using assms by (simp add: LockListener_ethers_db)
next
  case False
  then show ?thesis
    using LockListener_handleEvent_summary [of L ev H w] assms(2)
    by (auto simp: isProcessed_markProcessed)
qed

lemma LockListener_ethers_run:
  assumes "submitTx L = ethers_contract f"
  shows "(\<forall>n. 2 ^ 53 \<le> n \<longrightarrow> \<not> isProcessed (db w) n ''chainA'' ''Locked'') \<Longrightarrow>
     (\<forall>n. 2 ^ 53 \<le> n \<longrightarrow>
        \<not> isProcessed (db (LockListener_run L w calls)) n ''chainA'' ''Locked'')"
proof (induction calls arbitrary: w)
  case Nil
  then show ?case by (simp add: LockListener_run_def)
next
  case (Cons x calls)
  obtain ev H where x: "x = (ev, H)" by (cases x) auto
  have step: "LockListener_run L w (x # calls) =
      LockListener_run L (LockListener_handleEvent L ev H w) calls"
    by (simp add: LockListener_run_def x)
  show ?case
    unfolding step
    using LockListener_ethers_step [OF assms Cons.prems, of ev H]
    by (rule Cons.IH)
qed

lemma BurnListener_ethers_overflow:
  assumes "submitTx L = ethers_contract f"
    and "confirmationDepth L \<le> H - blockNumber ev"
    and "\<not> isProcessed (db w) (Number (args_nonce ev)) ''chainB'' ''Burned''"
    and "2 ^ 53 \<le> Number (args_nonce ev)"
  shows "BurnListener_handleEvent L ev H w =
     emit w
       [Log (Processing BurnListener (Number (args_nonce ev))),
        Submit (unlock (args_user ev) (args_amount ev) (Number (args_nonce ev)))
          (Threw (OtherError ''overflow'')),
        Log (AttemptFailed BurnListener 1 (OtherError ''overflow'')), Sleep 2000,
        Submit (unlock (args_user ev) (args_amount ev) (Number (args_nonce ev)))
          (Threw (OtherError ''overflow'')),
        Log (AttemptFailed BurnListener 2 (OtherError ''overflow'')), Sleep 2000,
        Submit (unlock (args_user ev) (args_amount ev) (Number (args_nonce ev)))
          (Threw (OtherError ''overflow'')),
        Log (AttemptFailed BurnListener 3 (OtherError ''overflow'')),
        Log (Critical BurnListener (Number (args_nonce ev)))]"
proof -
  have "submitTx L k (unlock (args_user ev) (args_amount ev) (Number (args_nonce ev)))
      = Threw (OtherError ''overflow'')" for k
    using assms(1,4) by (simp add: ethers_contract_def)
  then show ?thesis
    using assms(2,3) by (intro BurnListener_handleEvent_all_threw) simp_all
qed

lemma BurnListener_ethers_db:
  assumes "submitTx L = ethers_contract f" and "2 ^ 53 \<le> Number (args_nonce ev)"
  shows "db (BurnListener_handleEvent L ev H w) = db w"
proof -
  consider (u) "H - blockNumber ev < confirmationDepth L"
    | (p) "confirmationDepth L \<le> H - blockNumber ev"
        "isProcessed (db w) (Number (args_nonce ev)) ''chainB'' ''Burned''"
    | (r) "confirmationDepth L \<le> H - blockNumber ev"
        "\<not> isProcessed (db w) (Number (args_nonce ev)) ''chainB'' ''Burned''"
    by linarith
  then show ?thesis
  proof cases
    case u
    then show ?thesis by (simp add: BurnListener_handleEvent_unconfirmed)
  next
    case p
    then show ?thesis by (simp add: BurnListener_handleEvent_processed)
  next
    case r
    show ?thesis
      unfolding BurnListener_ethers_overflow [OF assms(1) r assms(2)] by simp
  qed
qed

lemma BurnListener_ethers_step:
  assumes "submitTx L = ethers_contract f"
    and "\<forall>n. 2 ^ 53 \<le> n \<longrightarrow> \<not> isProcessed (db w) n ''chainB'' ''Burned''"
  shows "\<forall>n. 2 ^ 53 \<le> n \<longrightarrow>
     \<not> isProcessed (db (BurnListener_handleEvent L ev H w)) n ''chainB'' ''Burned''"
proof (cases "2 ^ 53 \<le> Number (args_nonce ev)")
  case True
  then show ?thesis
    using assms by (simp add: BurnListener_ethers_db)
next
  case False
  then show ?thesis
    using BurnListener_handleEvent_summary [of L ev H w] assms(2)
    by (auto simp: isProcessed_markProcessed)
qed

lemma BurnListener_ethers_run:
  assumes "submitTx L = ethers_contract f"
  shows "(\<forall>n. 2 ^ 53 \<le> n \<longrightarrow> \<not> isProcessed (db w) n ''chainB'' ''Burned'') \<Longrightarrow>
     (\<forall>n. 2 ^ 53 \<le> n \<longrightarrow>
        \<not> isProcessed (db (BurnListener_run L w calls)) n ''chainB'' ''Burned'')"
proof (induction calls arbitrary: w)
  case Nil
  then show ?case by (simp add: BurnListener_run_def)
next
  case (Cons x calls)
  obtain ev H where x: "x = (ev, H)" by (cases x) auto
  have step: "BurnListener_run L w (x # calls) =
      BurnListener_run L (BurnListener_handleEvent L ev H w) calls"
    by (simp add: BurnListener_run_def x)
  show ?case
    unfolding step
    using BurnListener_ethers_step [OF assms Cons.prems, of ev H]
    by (rule Cons.IH)
qed

lemma GovernanceListener_handleEvent_first_mined:
  assumes "confirmationDepth G \<le> H - blockNumber pv"
    and "\<not> isProcessed (db w) (Number (args_proposalId pv)) ''chainB'' ''ProposalPassed''"
    and "take 10 (args_data pv) = pauseSelector"
    and "submitTx G (submitted (trace w)) pauseBridge = Mined h"
  shows "GovernanceListener_handleEvent G pv H w =
     emit (w\<lparr>db := setLastBlock
                (markProcessed (db w) (Number (args_proposalId pv)) ''chainB'' h
                   ''ProposalPassed'')
                ''chainB_governance'' (blockNumber pv)\<rparr>)
       [Log (ProcessingProposal (Number (args_proposalId pv)) pauseSelector),
        Submit pauseBridge (Mined h),
        Log (Successful GovernanceListener (Number (args_proposalId pv)) h)]"
proof -
  let ?p = "Number (args_proposalId pv)"
  let ?w1 = "emit w [Log (ProcessingProposal ?p pauseSelector)]"
  have "GovernanceListener_handleEvent G pv H w =
      GovernanceListener_executePauseBridge G ?p pv 1 ?w1"
    using assms(1-3) by (rule GovernanceListener_handleEvent_pause)
  also have "\<dots> = emit (?w1\<lparr>db := setLastBlock
                (markProcessed (db ?w1) ?p ''chainB'' h ''ProposalPassed'')
                ''chainB_governance'' (blockNumber pv)\<rparr>)
       [Submit pauseBridge (Mined h), Log (Successful GovernanceListener ?p h)]"
    using assms(4) by (intro GovernanceListener_executePauseBridge_mined) simp_all
  finally show ?thesis by (simp add: emit_def)
qed

lemma transfer_2_53_4_fields [simp]:
  "blockNumber transfer_2_53_4 = 49" "args_nonce transfer_2_53_4 = 2 ^ 53 + 4"
  "args_user transfer_2_53_4 = ''0xf39f''" "args_amount transfer_2_53_4 = 100"
  by (simp_all add: transfer_2_53_4_def)

lemma transfer_above_2_53_more_fields [simp]:
  "args_user transfer_above_2_53 = ''0xf39f''" "args_amount transfer_above_2_53 = 100"
  by (simp_all add: transfer_above_2_53_def)

lemma proposal_2_53_4_fields [simp]:
  "blockNumber proposal_2_53_4 = 49" "args_proposalId proposal_2_53_4 = 2 ^ 53 + 4"
  "args_data proposal_2_53_4 = ''0x6b9a13e3''"
  by (simp_all add: proposal_2_53_4_def)

lemma proposal_above_2_53_data [simp]:
  "args_data proposal_above_2_53 = ''0x6b9a13e3''"
  by (simp add: proposal_above_2_53_def)

lemma transfer_listener_ethers_fields [simp]:
  "submitTx transfer_listener_ethers = ethers_contract always_mined"
  "confirmationDepth transfer_listener_ethers = 3"
  by (simp_all add: transfer_listener_ethers_def)

lemma fresh_not_processed: "\<not> isProcessed (db fresh) n c t"
  by (simp add: fresh_def initTables_def isProcessed_def)

lemma lock_ethers_2_53_4:
  assumes "\<not> isProcessed (db w) (2 ^ 53 + 4) ''chainA'' ''Locked''"
  shows "LockListener_handleEvent transfer_listener_ethers transfer_2_53_4 60 w =
     emit w
       [Log (Processing LockListener (2 ^ 53 + 4)),
          Submit (mintWrapped ''0xf39f'' 100 (2 ^ 53 + 4)) (Threw (OtherError ''overflow'')),
          Log (AttemptFailed LockListener 1 (OtherError ''overflow'')), Sleep 2000,
          Submit (mintWrapped ''0xf39f'' 100 (2 ^ 53 + 4)) (Threw (OtherError ''overflow'')),
          Log (AttemptFailed LockListener 2 (OtherError ''overflow'')), Sleep 2000,
          Submit (mintWrapped ''0xf39f'' 100 (2 ^ 53 + 4)) (Threw (OtherError ''overflow'')),
          Log (AttemptFailed LockListener 3 (OtherError ''overflow'')),
          Log (Critical LockListener (2 ^ 53 + 4))]"
proof -
  have n: "Number (args_nonce transfer_2_53_4) = 2 ^ 53 + 4"
    by (simp only: transfer_2_53_4_fields Number_2_53_4)
  have "LockListener_handleEvent transfer_listener_ethers transfer_2_53_4 60 w =
     emit w
       [Log (Processing LockListener (Number (args_nonce transfer_2_53_4))),
          Submit (mintWrapped (args_user transfer_2_53_4) (args_amount transfer_2_53_4) (Number (args_nonce transfer_2_53_4)))
            (Threw (OtherError ''overflow'')),
          Log (AttemptFailed LockListener 1 (OtherError ''overflow'')), Sleep 2000,
          Submit (mintWrapped (args_user transfer_2_53_4) (args_amount transfer_2_53_4) (Number (args_nonce transfer_2_53_4)))
            (Threw (OtherError ''overflow'')),
          Log (AttemptFailed LockListener 2 (OtherError ''overflow'')), Sleep 2000,
          Submit (mintWrapped (args_user transfer_2_53_4) (args_amount transfer_2_53_4) (Number (args_nonce transfer_2_53_4)))
            (Threw (OtherError ''overflow'')),
          Log (AttemptFailed LockListener 3 (OtherError ''overflow'')),
          Log (Critical LockListener (Number (args_nonce transfer_2_53_4)))]"
  proof (rule LockListener_ethers_overflow [where f = always_mined])
    show "submitTx transfer_listener_ethers = ethers_contract always_mined"
      by simp
    show "confirmationDepth transfer_listener_ethers \<le> 60 - blockNumber transfer_2_53_4"
      by simp
    show "\<not> isProcessed (db w) (Number (args_nonce transfer_2_53_4)) ''chainA'' ''Locked''"
      unfolding n by (rule assms)
    show "2 ^ 53 \<le> Number (args_nonce transfer_2_53_4)"
      unfolding n by simp
  qed
  then show ?thesis
    unfolding n by (simp only: transfer_2_53_4_fields)
qed

lemma lock_ethers_2_53_3:
  assumes "\<not> isProcessed (db w) (2 ^ 53 + 4) ''chainA'' ''Locked''"
  shows "LockListener_handleEvent transfer_listener_ethers transfer_above_2_53 61 w =
     emit w
       [Log (Processing LockListener (2 ^ 53 + 4)),
          Submit (mintWrapped ''0xf39f'' 100 (2 ^ 53 + 4)) (Threw (OtherError ''overflow'')),
          Log (AttemptFailed LockListener 1 (OtherError ''overflow'')), Sleep 2000,
          Submit (mintWrapped ''0xf39f'' 100 (2 ^ 53 + 4)) (Threw (OtherError ''overflow'')),
          Log (AttemptFailed LockListener 2 (OtherError ''overflow'')), Sleep 2000,
          Submit (mintWrapped ''0xf39f'' 100 (2 ^ 53 + 4)) (Threw (OtherError ''overflow'')),
          Log (AttemptFailed LockListener 3 (OtherError ''overflow'')),
          Log (Critical LockListener (2 ^ 53 + 4))]"
proof -
  have n: "Number (args_nonce transfer_above_2_53) = 2 ^ 53 + 4"
    by (simp only: transfer_above_2_53_fields Number_2_53_3)
  have "LockListener_handleEvent transfer_listener_ethers transfer_above_2_53 61 w =
     emit w
       [Log (Processing LockListener (Number (args_nonce transfer_above_2_53))),
          Submit (mintWrapped (args_user transfer_above_2_53) (args_amount transfer_above_2_53) (Number (args_nonce transfer_above_2_53)))
            (Threw (OtherError ''overflow'')),
          Log (AttemptFailed LockListener 1 (OtherError ''overflow'')), Sleep 2000,
          Submit (mintWrapped (args_user transfer_above_2_53) (args_amount transfer_above_2_53) (Number (args_nonce transfer_above_2_53)))
            (Threw (OtherError ''overflow'')),
          Log (AttemptFailed LockListener 2 (OtherError ''overflow'')), Sleep 2000,
          Submit (mintWrapped (args_user transfer_above_2_53) (args_amount transfer_above_2_53) (Number (args_nonce transfer_above_2_53)))
            (Threw (OtherError ''overflow'')),
          Log (AttemptFailed LockListener 3 (OtherError ''overflow'')),
          Log (Critical LockListener (Number (args_nonce transfer_above_2_53)))]"
  proof (rule LockListener_ethers_overflow [where f = always_mined])
    show "submitTx transfer_listener_ethers = ethers_contract always_mined"
      by simp
    show "confirmationDepth transfer_listener_ethers \<le> 61 - blockNumber transfer_above_2_53"
      by simp
    show "\<not> isProcessed (db w) (Number (args_nonce transfer_above_2_53)) ''chainA'' ''Locked''"
      unfolding n by (rule assms)
    show "2 ^ 53 \<le> Number (args_nonce transfer_above_2_53)"
      unfolding n by simp
  qed
  then show ?thesis
    unfolding n by (simp only: transfer_above_2_53_fields transfer_above_2_53_more_fields)
qed

lemma lock_ethers_twice:
  "processed_events (db (LockListener_handleEvent transfer_listener_ethers transfer_2_53_4 60 fresh)) = []"
  "\<not> isProcessed (db (LockListener_handleEvent transfer_listener_ethers transfer_2_53_4 60 fresh))
       (2 ^ 53 + 4) ''chainA'' ''Locked''"
  "LockListener_handleEvent transfer_listener_ethers transfer_above_2_53 61
       (LockListener_handleEvent transfer_listener_ethers transfer_2_53_4 60 fresh) \<noteq>
     emit (LockListener_handleEvent transfer_listener_ethers transfer_2_53_4 60 fresh)
       [Log (AlreadyProcessed LockListener (2 ^ 53 + 4))]"
  "submitted (trace (LockListener_handleEvent transfer_listener_ethers transfer_above_2_53 61
       (LockListener_handleEvent transfer_listener_ethers transfer_2_53_4 60 fresh))) = 6"
proof -
  let ?w1 = "LockListener_handleEvent transfer_listener_ethers transfer_2_53_4 60 fresh"
  have first: "?w1 = emit fresh
       [Log (Processing LockListener (2 ^ 53 + 4)),
          Submit (mintWrapped ''0xf39f'' 100 (2 ^ 53 + 4)) (Threw (OtherError ''overflow'')),
          Log (AttemptFailed LockListener 1 (OtherError ''overflow'')), Sleep 2000,
          Submit (mintWrapped ''0xf39f'' 100 (2 ^ 53 + 4)) (Threw (OtherError ''overflow'')),
          Log (AttemptFailed LockListener 2 (OtherError ''overflow'')), Sleep 2000,
          Submit (mintWrapped ''0xf39f'' 100 (2 ^ 53 + 4)) (Threw (OtherError ''overflow'')),
          Log (AttemptFailed LockListener 3 (OtherError ''overflow'')),
          Log (Critical LockListener (2 ^ 53 + 4))]"
    by (rule lock_ethers_2_53_4) (rule fresh_not_processed)
  have d: "db ?w1 = db fresh"
    unfolding first by simp
  show "processed_events (db ?w1) = []"
    unfolding d by (simp add: initTables_def)
  show np: "\<not> isProcessed (db ?w1) (2 ^ 53 + 4) ''chainA'' ''Locked''"
    unfolding d by (rule fresh_not_processed)
  note second = lock_ethers_2_53_3 [OF np]
  have t1: "trace ?w1 = 
       [Log (Processing LockListener (2 ^ 53 + 4)),
          Submit (mintWrapped ''0xf39f'' 100 (2 ^ 53 + 4)) (Threw (OtherError ''overflow'')),
          Log (AttemptFailed LockListener 1 (OtherError ''overflow'')), Sleep 2000,
          Submit (mintWrapped ''0xf39f'' 100 (2 ^ 53 + 4)) (Threw (OtherError ''overflow'')),
          Log (AttemptFailed LockListener 2 (OtherError ''overflow'')), Sleep 2000,
          Submit (mintWrapped ''0xf39f'' 100 (2 ^ 53 + 4)) (Threw (OtherError ''overflow'')),
          Log (AttemptFailed LockListener 3 (OtherError ''overflow'')),
          Log (Critical LockListener (2 ^ 53 + 4))]"
    unfolding first by simp
  show "LockListener_handleEvent transfer_listener_ethers transfer_above_2_53 61 ?w1 \<noteq>
     emit ?w1 [Log (AlreadyProcessed LockListener (2 ^ 53 + 4))]"
  proof
    assume "LockListener_handleEvent transfer_listener_ethers transfer_above_2_53 61 ?w1 =
     emit ?w1 [Log (AlreadyProcessed LockListener (2 ^ 53 + 4))]"
    then have "trace (LockListener_handleEvent transfer_listener_ethers transfer_above_2_53 61 ?w1) =
     trace (emit ?w1 [Log (AlreadyProcessed LockListener (2 ^ 53 + 4))])"
      by (rule arg_cong)
    then show False
      unfolding second by simp
  qed
  show "submitted (trace (LockListener_handleEvent transfer_listener_ethers transfer_above_2_53 61 ?w1)) = 6"
    unfolding second by (simp add: t1)
qed

lemma burn_ethers_2_53_4:
  assumes "\<not> isProcessed (db w) (2 ^ 53 + 4) ''chainB'' ''Burned''"
  shows "BurnListener_handleEvent transfer_listener_ethers transfer_2_53_4 60 w =
     emit w
       [Log (Processing BurnListener (2 ^ 53 + 4)),
          Submit (unlock ''0xf39f'' 100 (2 ^ 53 + 4)) (Threw (OtherError ''overflow'')),
          Log (AttemptFailed BurnListener 1 (OtherError ''overflow'')), Sleep 2000,
          Submit (unlock ''0xf39f'' 100 (2 ^ 53 + 4)) (Threw (OtherError ''overflow'')),
          Log (AttemptFailed BurnListener 2 (OtherError ''overflow'')), Sleep 2000,
          Submit (unlock ''0xf39f'' 100 (2 ^ 53 + 4)) (Threw (OtherError ''overflow'')),
          Log (AttemptFailed BurnListener 3 (OtherError ''overflow'')),
          Log (Critical BurnListener (2 ^ 53 + 4))]"
proof -
  have n: "Number (args_nonce transfer_2_53_4) = 2 ^ 53 + 4"
    by (simp only: transfer_2_53_4_fields Number_2_53_4)
  have "BurnListener_handleEvent transfer_listener_ethers transfer_2_53_4 60 w =
     emit w
       [Log (Processing BurnListener (Number (args_nonce transfer_2_53_4))),
          Submit (unlock (args_user transfer_2_53_4) (args_amount transfer_2_53_4) (Number (args_nonce transfer_2_53_4)))
            (Threw (OtherError ''overflow'')),
          Log (AttemptFailed BurnListener 1 (OtherError ''overflow'')), Sleep 2000,
          Submit (unlock (args_user transfer_2_53_4) (args_amount transfer_2_53_4) (Number (args_nonce transfer_2_53_4)))
            (Threw (OtherError ''overflow'')),
          Log (AttemptFailed BurnListener 2 (OtherError ''overflow'')), Sleep 2000,
          Submit (unlock (args_user transfer_2_53_4) (args_amount transfer_2_53_4) (Number (args_nonce transfer_2_53_4)))
            (Threw (OtherError ''overflow'')),
          Log (AttemptFailed BurnListener 3 (OtherError ''overflow'')),
          Log (Critical BurnListener (Number (args_nonce transfer_2_53_4)))]"
  proof (rule BurnListener_ethers_overflow [where f = always_mined])
    show "submitTx transfer_listener_ethers = ethers_contract always_mined"
      by simp
    show "confirmationDepth transfer_listener_ethers \<le> 60 - blockNumber transfer_2_53_4"
      by simp
    show "\<not> isProcessed (db w) (Number (args_nonce transfer_2_53_4)) ''chainB'' ''Burned''"
      unfolding n by (rule assms)
    show "2 ^ 53 \<le> Number (args_nonce transfer_2_53_4)"
      unfolding n by simp
  qed
  then show ?thesis
    unfolding n by (simp only: transfer_2_53_4_fields)
qed

lemma burn_ethers_2_53_3:
  assumes "\<not> isProcessed (db w) (2 ^ 53 + 4) ''chainB'' ''Burned''"
  shows "BurnListener_handleEvent transfer_listener_ethers transfer_above_2_53 61 w =
     emit w
       [Log (Processing BurnListener (2 ^ 53 + 4)),
          Submit (unlock ''0xf39f'' 100 (2 ^ 53 + 4)) (Threw (OtherError ''overflow'')),
          Log (AttemptFailed BurnListener 1 (OtherError ''overflow'')), Sleep 2000,
          Submit (unlock ''0xf39f'' 100 (2 ^ 53 + 4)) (Threw (OtherError ''overflow'')),
          Log (AttemptFailed BurnListener 2 (OtherError ''overflow'')), Sleep 2000,
          Submit (unlock ''0xf39f'' 100 (2 ^ 53 + 4)) (Threw (OtherError ''overflow'')),
          Log (AttemptFailed BurnListener 3 (OtherError ''overflow'')),
          Log (Critical BurnListener (2 ^ 53 + 4))]"
proof -
  have n: "Number (args_nonce transfer_above_2_53) = 2 ^ 53 + 4"
    by (simp only: transfer_above_2_53_fields Number_2_53_3)
  have "BurnListener_handleEvent transfer_listener_ethers transfer_above_2_53 61 w =
     emit w
       [Log (Processing BurnListener (Number (args_nonce transfer_above_2_53))),
          Submit (unlock (args_user transfer_above_2_53) (args_amount transfer_above_2_53) (Number (args_nonce transfer_above_2_53)))
            (Threw (OtherError ''overflow'')),
          Log (AttemptFailed BurnListener 1 (OtherError ''overflow'')), Sleep 2000,
          Submit (unlock (args_user transfer_above_2_53) (args_amount transfer_above_2_53) (Number (args_nonce transfer_above_2_53)))
            (Threw (OtherError ''overflow'')),
          Log (AttemptFailed BurnListener 2 (OtherError ''overflow'')), Sleep 2000,
          Submit (unlock (args_user transfer_above_2_53) (args_amount transfer_above_2_53) (Number (args_nonce transfer_above_2_53)))
            (Threw (OtherError ''overflow'')),
          Log (AttemptFailed BurnListener 3 (OtherError ''overflow'')),
          Log (Critical BurnListener (Number (args_nonce transfer_above_2_53)))]"
  proof (rule BurnListener_ethers_overflow [where f = always_mined])
    show "submitTx transfer_listener_ethers = ethers_contract always_mined"
      by simp
    show "confirmationDepth transfer_listener_ethers \<le> 61 - blockNumber transfer_above_2_53"
      by simp
    show "\<not> isProcessed (db w) (Number (args_nonce transfer_above_2_53)) ''chainB'' ''Burned''"
      unfolding n by (rule assms)
    show "2 ^ 53 \<le> Number (args_nonce transfer_above_2_53)"
      unfolding n by simp
  qed
  then show ?thesis
    unfolding n by (simp only: transfer_above_2_53_fields transfer_above_2_53_more_fields)
qed

lemma burn_ethers_twice:
  "processed_events (db (BurnListener_handleEvent transfer_listener_ethers transfer_2_53_4 60 fresh)) = []"
  "\<not> isProcessed (db (BurnListener_handleEvent transfer_listener_ethers transfer_2_53_4 60 fresh))
       (2 ^ 53 + 4) ''chainB'' ''Burned''"
  "BurnListener_handleEvent transfer_listener_ethers transfer_above_2_53 61
       (BurnListener_handleEvent transfer_listener_ethers transfer_2_53_4 60 fresh) \<noteq>
     emit (BurnListener_handleEvent transfer_listener_ethers transfer_2_53_4 60 fresh)
       [Log (AlreadyProcessed BurnListener (2 ^ 53 + 4))]"
  "submitted (trace (BurnListener_handleEvent transfer_listener_ethers transfer_above_2_53 61
       (BurnListener_handleEvent transfer_listener_ethers transfer_2_53_4 60 fresh))) = 6"
proof -
  let ?w1 = "BurnListener_handleEvent transfer_listener_ethers transfer_2_53_4 60 fresh"
  have first: "?w1 = emit fresh
       [Log (Processing BurnListener (2 ^ 53 + 4)),
          Submit (unlock ''0xf39f'' 100 (2 ^ 53 + 4)) (Threw (OtherError ''overflow'')),
          Log (AttemptFailed BurnListener 1 (OtherError ''overflow'')), Sleep 2000,
          Submit (unlock ''0xf39f'' 100 (2 ^ 53 + 4)) (Threw (OtherError ''overflow'')),
          Log (AttemptFailed BurnListener 2 (OtherError ''overflow'')), Sleep 2000,
          Submit (unlock ''0xf39f'' 100 (2 ^ 53 + 4)) (Threw (OtherError ''overflow'')),
          Log (AttemptFailed BurnListener 3 (OtherError ''overflow'')),
          Log (Critical BurnListener (2 ^ 53 + 4))]"
    by (rule burn_ethers_2_53_4) (rule fresh_not_processed)
  have d: "db ?w1 = db fresh"
    unfolding first by simp
  show "processed_events (db ?w1) = []"
    unfolding d by (simp add: initTables_def)
  show np: "\<not> isProcessed (db ?w1) (2 ^ 53 + 4) ''chainB'' ''Burned''"
    unfolding d by (rule fresh_not_processed)
  note second = burn_ethers_2_53_3 [OF np]
  have t1: "trace ?w1 = 
       [Log (Processing BurnListener (2 ^ 53 + 4)),
          Submit (unlock ''0xf39f'' 100 (2 ^ 53 + 4)) (Threw (OtherError ''overflow'')),
          Log (AttemptFailed BurnListener 1 (OtherError ''overflow'')), Sleep 2000,
          Submit (unlock ''0xf39f'' 100 (2 ^ 53 + 4)) (Threw (OtherError ''overflow'')),
          Log (AttemptFailed BurnListener 2 (OtherError ''overflow'')), Sleep 2000,
          Submit (unlock ''0xf39f'' 100 (2 ^ 53 + 4)) (Threw (OtherError ''overflow'')),
          Log (AttemptFailed BurnListener 3 (OtherError ''overflow'')),
          Log (Critical BurnListener (2 ^ 53 + 4))]"
    unfolding first by simp
  show "BurnListener_handleEvent transfer_listener_ethers transfer_above_2_53 61 ?w1 \<noteq>
     emit ?w1 [Log (AlreadyProcessed BurnListener (2 ^ 53 + 4))]"
  proof
    assume "BurnListener_handleEvent transfer_listener_ethers transfer_above_2_53 61 ?w1 =
     emit ?w1 [Log (AlreadyProcessed BurnListener (2 ^ 53 + 4))]"
    then have "trace (BurnListener_handleEvent transfer_listener_ethers transfer_above_2_53 61 ?w1) =
     trace (emit ?w1 [Log (AlreadyProcessed BurnListener (2 ^ 53 + 4))])"
      by (rule arg_cong)
    then show False
      unfolding second by simp
  qed
  show "submitted (trace (BurnListener_handleEvent transfer_listener_ethers transfer_above_2_53 61 ?w1)) = 6"
    unfolding second by (simp add: t1)
qed

section \<open>Claims about the store\<close>

text \<open>
  C7. \<open>markProcessed\<close> is an idempotent insert-if-absent. A second call with the same
  (nonce, chain, event type) key, whatever its tx hash, leaves the store exactly as the
  first call left it; if the key was absent before, the single row of the key carries the
  tx hash of the first call; \<open>isProcessed\<close> is true for the key after \<open>markProcessed\<close>;
  and after any run of \<open>markProcessed\<close> calls on the new tables every key has at most
  one row.
\<close>

theorem markProcessed_idempotent:
  "markProcessed (markProcessed d n c h1 t) n c h2 t = markProcessed d n c h1 t
   \<and> rows_of (markProcessed (markProcessed d n c h1 t) n c h2 t) n c t =
       (if isProcessed d n c t then rows_of d n c t
        else [\<lparr>nonce = n, chain = c, tx_hash = h1, event_type = t\<rparr>])
   \<and> isProcessed (markProcessed d n c h1 t) n c t
   \<and> length (rows_of (markAll initTables ms) n' c' t') \<le> 1"
proof -
  have marked: "isProcessed (markProcessed d n c h1 t) n c t"
    by (simp add: isProcessed_markProcessed)
  have again: "markProcessed (markProcessed d n c h1 t) n c h2 t = markProcessed d n c h1 t"
    using marked by (rule markProcessed_present)
  have "length (rows_of initTables n' c' t') \<le> 1"
    by (simp add: rows_of_def initTables_def)
  then have "length (rows_of (markAll initTables ms) n' c' t') \<le> 1"
    by (rule rows_of_markAll_le)
  with marked again show ?thesis
    by (simp add: rows_of_markProcessed_same)
qed

theorem markProcessed_idempotent_witness:
  "markProcessed (markProcessed initTables 0 ''chainA'' ''0xaa'' ''Locked'')
       0 ''chainA'' ''0xbb'' ''Locked''
     = \<lparr>processed_events =
          [\<lparr>nonce = 0, chain = ''chainA'', tx_hash = ''0xaa'', event_type = ''Locked''\<rparr>],
        block_cursors = []\<rparr>
   \<and> isProcessed (markProcessed initTables 0 ''chainA'' ''0xaa'' ''Locked'')
       0 ''chainA'' ''Locked''
   \<and> length (rows_of (markAll initTables
         [(0, ''chainA'', ''0xaa'', ''Locked''), (0, ''chainA'', ''0xbb'', ''Locked'')])
         0 ''chainA'' ''Locked'') \<le> 1"
  using markProcessed_idempotent
    [of initTables 0 "''chainA''" "''0xaa''" "''Locked''" "''0xbb''"
        "[(0, ''chainA'', ''0xaa'', ''Locked''), (0, ''chainA'', ''0xbb'', ''Locked'')]"
        0 "''chainA''" "''Locked''"]
  by (simp add: markProcessed_def initTables_def has_key_def isProcessed_def rows_of_def)

section \<open>Claims about the lock pipeline\<close>

text \<open>
  C3 (as amended). When all three attempts for a confirmed, unmarked Locked event throw,
  \<open>_handleEvent\<close> makes exactly three destination calls, logs each failure, sleeps 2000 ms
  after the first and after the second, logs CRITICAL after the third and returns with the
  store as it found it: no processed mark and no cursor write. A recovery pass with a head
  above the stored cursor ends by setting the cursor to that head, whatever happened to
  the events of the range.
\<close>

theorem LockListener_three_attempts:
  "(confirmationDepth L \<le> H - blockNumber ev
      \<and> \<not> isProcessed (db w) (Number (args_nonce ev)) ''chainA'' ''Locked''
      \<and> submitTx L (submitted (trace w))
           (mintWrapped (args_user ev) (args_amount ev) (Number (args_nonce ev))) = Threw e1
      \<and> submitTx L (Suc (submitted (trace w)))
           (mintWrapped (args_user ev) (args_amount ev) (Number (args_nonce ev))) = Threw e2
      \<and> submitTx L (Suc (Suc (submitted (trace w))))
           (mintWrapped (args_user ev) (args_amount ev) (Number (args_nonce ev))) = Threw e3
     \<longrightarrow> LockListener_handleEvent L ev H w =
          emit w
            [Log (Processing LockListener (Number (args_nonce ev))),
             Submit (mintWrapped (args_user ev) (args_amount ev) (Number (args_nonce ev)))
               (Threw e1),
             Log (AttemptFailed LockListener 1 e1), Sleep 2000,
             Submit (mintWrapped (args_user ev) (args_amount ev) (Number (args_nonce ev)))
               (Threw e2),
             Log (AttemptFailed LockListener 2 e2), Sleep 2000,
             Submit (mintWrapped (args_user ev) (args_amount ev) (Number (args_nonce ev)))
               (Threw e3),
             Log (AttemptFailed LockListener 3 e3),
             Log (Critical LockListener (Number (args_nonce ev)))]
        \<and> db (LockListener_handleEvent L ev H w) = db w)
   \<and> (getLastBlock (db v) ''chainA_lock'' < currentBlock
     \<longrightarrow> getLastBlock (db (LockListener_recoverMissedEvents L currentBlock v)) ''chainA_lock''
          = currentBlock)"
  by (auto simp: LockListener_handleEvent_all_threw LockListener_recover_cursor)

theorem LockListener_three_attempts_witness:
  "confirmationDepth lock_listener_down \<le> 60 - blockNumber lock_at_50
   \<and> \<not> isProcessed (db fresh) (Number (args_nonce lock_at_50)) ''chainA'' ''Locked''
   \<and> submitTx lock_listener_down (submitted (trace fresh))
        (mintWrapped (args_user lock_at_50) (args_amount lock_at_50)
           (Number (args_nonce lock_at_50))) = Threw (OtherError ''timeout'')
   \<and> getLastBlock (db fresh) ''chainA_lock'' < 60
   \<and> trace (LockListener_handleEvent lock_listener_down lock_at_50 60 fresh) =
       [Log (Processing LockListener 0),
        Submit (mintWrapped ''0xf39f'' 100 0) (Threw (OtherError ''timeout'')),
        Log (AttemptFailed LockListener 1 (OtherError ''timeout'')), Sleep 2000,
        Submit (mintWrapped ''0xf39f'' 100 0) (Threw (OtherError ''timeout'')),
        Log (AttemptFailed LockListener 2 (OtherError ''timeout'')), Sleep 2000,
        Submit (mintWrapped ''0xf39f'' 100 0) (Threw (OtherError ''timeout'')),
        Log (AttemptFailed LockListener 3 (OtherError ''timeout'')),
        Log (Critical LockListener 0)]
   \<and> db (LockListener_handleEvent lock_listener_down lock_at_50 60 fresh) = initTables
   \<and> getLastBlock (db (LockListener_recoverMissedEvents lock_listener_down 60 fresh))
        ''chainA_lock'' = 60"
  using LockListener_three_attempts
    [of lock_listener_down 60 lock_at_50 fresh "OtherError ''timeout''"
        "OtherError ''timeout''" "OtherError ''timeout''" fresh 60]
  by (simp add: Number_small rpc_down_def)

text \<open>
  C3 as stated fails in a recovery pass: the Locked event at block 50 fails three times,
  the pass sets the cursor to the head 60, and the next pass (head 70) scans from block 61
  and makes no further attempt.
\<close>

theorem LockListener_failed_event_counterexample:
  "blockNumber lock_at_50
     < getLastBlock (db (LockListener_recoverMissedEvents lock_listener_down 60 fresh))
         ''chainA_lock''
   \<and> \<not> isProcessed (db (LockListener_recoverMissedEvents lock_listener_down 60 fresh))
         0 ''chainA'' ''Locked''
   \<and> submitted (trace (LockListener_recoverMissedEvents lock_listener_down 60 fresh)) = 3
   \<and> submitted (trace (LockListener_recoverMissedEvents lock_listener_down 70
         (LockListener_recoverMissedEvents lock_listener_down 60 fresh))) = 3"
  by (simp add: lock_down_recover LockListener_recover_scan getLastBlock_def isProcessed_def
      emit_def)

section \<open>Claims about error handling\<close>

text \<open>
  C2 (as amended). The \<open>catch\<close> clause of the lock and of the burn listener treats a
  \<open>NonceAlreadyProcessed\<close> revert like every other error. When the three attempts for a
  confirmed, unmarked event all revert with it, \<open>_handleEvent\<close> has made three
  destination calls, has logged CRITICAL last, and has left the store as it was: no
  processed mark is written and the cursor is not written.
\<close>

theorem NonceAlreadyProcessed_like_any_error:
  "(confirmationDepth L \<le> H - blockNumber ev
      \<and> \<not> isProcessed (db w) (Number (args_nonce ev)) ''chainA'' ''Locked''
      \<and> (\<forall>j<3. submitTx L (submitted (trace w) + j)
            (mintWrapped (args_user ev) (args_amount ev) (Number (args_nonce ev)))
            = Threw (NonceAlreadyProcessed (Number (args_nonce ev))))
     \<longrightarrow> db (LockListener_handleEvent L ev H w) = db w
       \<and> submitted (trace (LockListener_handleEvent L ev H w)) = submitted (trace w) + 3
       \<and> last (trace (LockListener_handleEvent L ev H w))
           = Log (Critical LockListener (Number (args_nonce ev))))
   \<and> (confirmationDepth L \<le> H - blockNumber ev
      \<and> \<not> isProcessed (db w) (Number (args_nonce ev)) ''chainB'' ''Burned''
      \<and> (\<forall>j<3. submitTx L (submitted (trace w) + j)
            (unlock (args_user ev) (args_amount ev) (Number (args_nonce ev)))
            = Threw (NonceAlreadyProcessed (Number (args_nonce ev))))
     \<longrightarrow> db (BurnListener_handleEvent L ev H w) = db w
       \<and> submitted (trace (BurnListener_handleEvent L ev H w)) = submitted (trace w) + 3
       \<and> last (trace (BurnListener_handleEvent L ev H w))
           = Log (Critical BurnListener (Number (args_nonce ev))))"
proof -
  let ?n = "Number (args_nonce ev)"
  let ?m = "mintWrapped (args_user ev) (args_amount ev) ?n"
  let ?u = "unlock (args_user ev) (args_amount ev) ?n"
  have lock: "db (LockListener_handleEvent L ev H w) = db w
       \<and> submitted (trace (LockListener_handleEvent L ev H w)) = submitted (trace w) + 3
       \<and> last (trace (LockListener_handleEvent L ev H w)) = Log (Critical LockListener ?n)"
    if c: "confirmationDepth L \<le> H - blockNumber ev"
      and p: "\<not> isProcessed (db w) ?n ''chainA'' ''Locked''"
      and t: "\<forall>j<3. submitTx L (submitted (trace w) + j) ?m = Threw (NonceAlreadyProcessed ?n)"
    unfolding LockListener_handleEvent_all_threw [OF c p three_indices [OF t]]
    by simp
  have burn: "db (BurnListener_handleEvent L ev H w) = db w
       \<and> submitted (trace (BurnListener_handleEvent L ev H w)) = submitted (trace w) + 3
       \<and> last (trace (BurnListener_handleEvent L ev H w)) = Log (Critical BurnListener ?n)"
    if c: "confirmationDepth L \<le> H - blockNumber ev"
      and p: "\<not> isProcessed (db w) ?n ''chainB'' ''Burned''"
      and t: "\<forall>j<3. submitTx L (submitted (trace w) + j) ?u = Threw (NonceAlreadyProcessed ?n)"
    unfolding BurnListener_handleEvent_all_threw [OF c p three_indices [OF t]]
    by simp
  from lock burn show ?thesis by blast
qed

theorem NonceAlreadyProcessed_like_any_error_witness:
  "confirmationDepth lock_listener_seen \<le> 60 - blockNumber lock_at_50
   \<and> \<not> isProcessed (db fresh) (Number (args_nonce lock_at_50)) ''chainA'' ''Locked''
   \<and> submitTx lock_listener_seen (submitted (trace fresh) + 0)
         (mintWrapped (args_user lock_at_50) (args_amount lock_at_50)
            (Number (args_nonce lock_at_50)))
         = Threw (NonceAlreadyProcessed (Number (args_nonce lock_at_50)))
   \<and> submitTx lock_listener_seen (submitted (trace fresh) + 1)
         (mintWrapped (args_user lock_at_50) (args_amount lock_at_50)
            (Number (args_nonce lock_at_50)))
         = Threw (NonceAlreadyProcessed (Number (args_nonce lock_at_50)))
   \<and> submitTx lock_listener_seen (submitted (trace fresh) + 2)
         (mintWrapped (args_user lock_at_50) (args_amount lock_at_50)
            (Number (args_nonce lock_at_50)))
         = Threw (NonceAlreadyProcessed (Number (args_nonce lock_at_50)))
   \<and> db (LockListener_handleEvent lock_listener_seen lock_at_50 60 fresh) = initTables
   \<and> submitted (trace (LockListener_handleEvent lock_listener_seen lock_at_50 60 fresh)) = 3
   \<and> confirmationDepth burn_listener_seen \<le> 125 - blockNumber burn_at_120
   \<and> \<not> isProcessed (db fresh) (Number (args_nonce burn_at_120)) ''chainB'' ''Burned''
   \<and> submitTx burn_listener_seen (submitted (trace fresh) + 0)
         (unlock (args_user burn_at_120) (args_amount burn_at_120)
            (Number (args_nonce burn_at_120)))
         = Threw (NonceAlreadyProcessed (Number (args_nonce burn_at_120)))
   \<and> submitTx burn_listener_seen (submitted (trace fresh) + 1)
         (unlock (args_user burn_at_120) (args_amount burn_at_120)
            (Number (args_nonce burn_at_120)))
         = Threw (NonceAlreadyProcessed (Number (args_nonce burn_at_120)))
   \<and> submitTx burn_listener_seen (submitted (trace fresh) + 2)
         (unlock (args_user burn_at_120) (args_amount burn_at_120)
            (Number (args_nonce burn_at_120)))
         = Threw (NonceAlreadyProcessed (Number (args_nonce burn_at_120)))
   \<and> db (BurnListener_handleEvent burn_listener_seen burn_at_120 125 fresh) = initTables
   \<and> submitted (trace (BurnListener_handleEvent burn_listener_seen burn_at_120 125 fresh)) = 3"
  using NonceAlreadyProcessed_like_any_error [of lock_listener_seen 60 lock_at_50 fresh]
    NonceAlreadyProcessed_like_any_error [of burn_listener_seen 125 burn_at_120 fresh]
  by (simp add: Number_small)

text \<open>
  C2 as stated fails: the destination reverts with \<open>NonceAlreadyProcessed\<close>, yet after
  \<open>_handleEvent\<close> the event is not marked processed, the cursor is still 0, and a second
  \<open>_handleEvent\<close> submits the same event three more times.
\<close>

theorem NonceAlreadyProcessed_counterexample:
  "submitTx lock_listener_seen 0 (mintWrapped ''0xf39f'' 100 0) = Threw (NonceAlreadyProcessed 0)
   \<and> \<not> isProcessed (db (LockListener_handleEvent lock_listener_seen lock_at_50 60 fresh))
         0 ''chainA'' ''Locked''
   \<and> getLastBlock (db (LockListener_handleEvent lock_listener_seen lock_at_50 60 fresh))
         ''chainA_lock'' = 0
   \<and> submitted (trace (LockListener_handleEvent lock_listener_seen lock_at_50 60 fresh)) = 3
   \<and> submitted (trace (LockListener_handleEvent lock_listener_seen lock_at_50 60
         (LockListener_handleEvent lock_listener_seen lock_at_50 60 fresh))) = 6"
  by (simp add: lock_seen_any)

section \<open>Claims about the confirmation check\<close>



section \<open>Claims about the governance dispatch\<close>

text \<open>
  C5 (as amended). When a confirmed, unmarked ProposalPassed event carries a selector other
  than \<open>0x6b9a13e3\<close>, the governance \<open>_handleEvent\<close> makes no destination call, logs the
  proposal and then the unknown selector, and leaves the store unchanged: no processed mark
  is written, so a later call for the same event passes the \<open>isProcessed\<close> check and logs
  the same two lines again.
\<close>

theorem unknown_selector_not_marked:
  "confirmationDepth G \<le> H - blockNumber pv
   \<and> \<not> isProcessed (db w) (Number (args_proposalId pv)) ''chainB'' ''ProposalPassed''
   \<and> take 10 (args_data pv) \<noteq> pauseSelector
   \<longrightarrow> GovernanceListener_handleEvent G pv H w =
         emit w [Log (ProcessingProposal (Number (args_proposalId pv)) (take 10 (args_data pv))),
                 Log (UnknownSelector (take 10 (args_data pv)))]
     \<and> db (GovernanceListener_handleEvent G pv H w) = db w
     \<and> submitted (trace (GovernanceListener_handleEvent G pv H w)) = submitted (trace w)
     \<and> \<not> isProcessed (db (GovernanceListener_handleEvent G pv H w))
           (Number (args_proposalId pv)) ''chainB'' ''ProposalPassed''
     \<and> GovernanceListener_handleEvent G pv H (GovernanceListener_handleEvent G pv H w) =
         emit (GovernanceListener_handleEvent G pv H w)
           [Log (ProcessingProposal (Number (args_proposalId pv)) (take 10 (args_data pv))),
            Log (UnknownSelector (take 10 (args_data pv)))]"
proof
  assume a: "confirmationDepth G \<le> H - blockNumber pv
   \<and> \<not> isProcessed (db w) (Number (args_proposalId pv)) ''chainB'' ''ProposalPassed''
   \<and> take 10 (args_data pv) \<noteq> pauseSelector"
  let ?es = "[Log (ProcessingProposal (Number (args_proposalId pv)) (take 10 (args_data pv))),
                 Log (UnknownSelector (take 10 (args_data pv)))]"
  have first: "GovernanceListener_handleEvent G pv H w = emit w ?es"
    using a by (intro GovernanceListener_handleEvent_unknown) simp_all
  have "GovernanceListener_handleEvent G pv H (emit w ?es) = emit (emit w ?es) ?es"
    using a by (intro GovernanceListener_handleEvent_unknown) simp_all
  with first a show "GovernanceListener_handleEvent G pv H w = emit w ?es
     \<and> db (GovernanceListener_handleEvent G pv H w) = db w
     \<and> submitted (trace (GovernanceListener_handleEvent G pv H w)) = submitted (trace w)
     \<and> \<not> isProcessed (db (GovernanceListener_handleEvent G pv H w))
           (Number (args_proposalId pv)) ''chainB'' ''ProposalPassed''
     \<and> GovernanceListener_handleEvent G pv H (GovernanceListener_handleEvent G pv H w) =
         emit (GovernanceListener_handleEvent G pv H w) ?es"
    by simp
qed

theorem unknown_selector_not_marked_witness:
  "confirmationDepth governance_listener_ok \<le> 210 - blockNumber proposal_1
   \<and> \<not> isProcessed (db fresh) (Number (args_proposalId proposal_1)) ''chainB'' ''ProposalPassed''
   \<and> take 10 (args_data proposal_1) \<noteq> pauseSelector
   \<and> GovernanceListener_handleEvent governance_listener_ok proposal_1 210 fresh =
       emit fresh [Log (ProcessingProposal 1 ''0xdeadbeef''),
                   Log (UnknownSelector ''0xdeadbeef'')]"
  using unknown_selector_not_marked [of governance_listener_ok 210 proposal_1 fresh]
  by (simp add: Number_small pauseSelector_def)

text \<open>
  C5 as stated fails: after proposal 1 with data \<open>0xdeadbeef\<close> was handled, the dedup table
  is empty, and handling it again reaches the selector dispatch again.
\<close>

theorem unknown_selector_counterexample:
  "\<not> isProcessed (db (GovernanceListener_handleEvent governance_listener_ok proposal_1 210 fresh))
       1 ''chainB'' ''ProposalPassed''
   \<and> processed_events
       (db (GovernanceListener_handleEvent governance_listener_ok proposal_1 210 fresh)) = []
   \<and> trace (GovernanceListener_handleEvent governance_listener_ok proposal_1 210
       (GovernanceListener_handleEvent governance_listener_ok proposal_1 210 fresh)) =
       [Log (ProcessingProposal 1 ''0xdeadbeef''), Log (UnknownSelector ''0xdeadbeef''),
        Log (ProcessingProposal 1 ''0xdeadbeef''), Log (UnknownSelector ''0xdeadbeef'')]"
proof -
  let ?es = "[Log (ProcessingProposal (Number (args_proposalId proposal_1))
                 (take 10 (args_data proposal_1))),
              Log (UnknownSelector (take 10 (args_data proposal_1)))]"
  have first: "GovernanceListener_handleEvent governance_listener_ok proposal_1 210 fresh =
      emit fresh ?es"
    by (rule GovernanceListener_handleEvent_unknown) (simp_all add: pauseSelector_def)
  have second: "GovernanceListener_handleEvent governance_listener_ok proposal_1 210
      (emit fresh ?es) = emit (emit fresh ?es) ?es"
    by (rule GovernanceListener_handleEvent_unknown) (simp_all add: pauseSelector_def)
  show ?thesis
    unfolding first second by (simp add: Number_small initTables_def isProcessed_def)
qed

section \<open>Claims about the live path\<close>

text \<open>
  C10. \<open>_waitForConfirmation\<close> calls \<open>_handleEvent\<close> only with a head that has reached
  the event's block plus the depth. If some poll reaches that target, the loop returns: it
  sleeps 1000 ms after each earlier poll, calls \<open>_handleEvent\<close> with the first head that
  reaches the target, for which the confirmation check passes, and nothing that
  \<open>_handleEvent\<close> then logs is a "not yet confirmed" line. A recovery scan can take that
  branch: with the head at block 51 and depth 3 the Locked event at block 50 is logged as
  not yet confirmed.
\<close>

theorem live_path_never_deferred:
  "(blockNumber ev + confirmationDepth L \<le> heads (k + j)
     \<longrightarrow> (\<exists>m es. m \<le> j
            \<and> confirmationDepth L \<le> heads (k + m) - blockNumber ev
            \<and> (\<forall>i<m. heads (k + i) < blockNumber ev + confirmationDepth L)
            \<and> LockListener_waitForConfirmation L heads k ev w =
                Some (LockListener_handleEvent L ev (heads (k + m))
                        (emit w (replicate m (Sleep 1000))))
            \<and> trace (LockListener_handleEvent L ev (heads (k + m))
                        (emit w (replicate m (Sleep 1000)))) =
                trace w @ replicate m (Sleep 1000) @ es
            \<and> (\<forall>l n. Log (NotYetConfirmed l n) \<notin> set es)))
   \<and> trace (LockListener_recoverMissedEvents lock_listener_ok 51 fresh) =
       [Log (RecoveryScanning LockListener 1 51), Log (NotYetConfirmed LockListener 0)]"
proof (intro conjI impI)
  assume "blockNumber ev + confirmationDepth L \<le> heads (k + j)"
  from LockListener_waitForConfirmation_first [of ev L heads k j w] this
  obtain m where m: "m \<le> j"
    "blockNumber ev + confirmationDepth L \<le> heads (k + m)"
    "\<forall>i<m. heads (k + i) < blockNumber ev + confirmationDepth L"
    "LockListener_waitForConfirmation L heads k ev w =
          Some (LockListener_handleEvent L ev (heads (k + m))
                  (emit w (replicate m (Sleep 1000))))"
    by blast
  from m(2) have c: "confirmationDepth L \<le> heads (k + m) - blockNumber ev" by simp
  from LockListener_handleEvent_confirmed_trace [OF c, of "emit w (replicate m (Sleep 1000))"]
  obtain es where "trace (LockListener_handleEvent L ev (heads (k + m))
                        (emit w (replicate m (Sleep 1000)))) =
                trace (emit w (replicate m (Sleep 1000))) @ es"
    "\<forall>l n. Log (NotYetConfirmed l n) \<notin> set es"
    by blast
  with m c show "\<exists>m es. m \<le> j
            \<and> confirmationDepth L \<le> heads (k + m) - blockNumber ev
            \<and> (\<forall>i<m. heads (k + i) < blockNumber ev + confirmationDepth L)
            \<and> LockListener_waitForConfirmation L heads k ev w =
                Some (LockListener_handleEvent L ev (heads (k + m))
                        (emit w (replicate m (Sleep 1000))))
            \<and> trace (LockListener_handleEvent L ev (heads (k + m))
                        (emit w (replicate m (Sleep 1000)))) =
                trace w @ replicate m (Sleep 1000) @ es
            \<and> (\<forall>l n. Log (NotYetConfirmed l n) \<notin> set es)"
    by (intro exI [of _ m] exI [of _ es]) simp
next
  show "trace (LockListener_recoverMissedEvents lock_listener_ok 51 fresh) =
       [Log (RecoveryScanning LockListener 1 51), Log (NotYetConfirmed LockListener 0)]"
    by (rule lock_recover_unconfirmed)
qed

theorem live_path_never_deferred_witness:
  "blockNumber lock_at_50 + confirmationDepth lock_listener_ok \<le> heads_from_50 (0 + 3)
   \<and> (\<exists>m es. m \<le> 3
        \<and> confirmationDepth lock_listener_ok \<le> heads_from_50 (0 + m) - blockNumber lock_at_50
        \<and> LockListener_waitForConfirmation lock_listener_ok heads_from_50 0 lock_at_50 fresh =
            Some (LockListener_handleEvent lock_listener_ok lock_at_50 (heads_from_50 (0 + m))
                    (emit fresh (replicate m (Sleep 1000))))
        \<and> trace (LockListener_handleEvent lock_listener_ok lock_at_50 (heads_from_50 (0 + m))
                    (emit fresh (replicate m (Sleep 1000)))) =
            trace fresh @ replicate m (Sleep 1000) @ es
        \<and> (\<forall>l n. Log (NotYetConfirmed l n) \<notin> set es))
   \<and> LockListener_waitForConfirmation lock_listener_ok heads_from_50 0 lock_at_50 fresh =
       Some (LockListener_handleEvent lock_listener_ok lock_at_50 53
         (emit fresh [Sleep 1000, Sleep 1000, Sleep 1000]))"
proof -
  have h: "blockNumber lock_at_50 + confirmationDepth lock_listener_ok \<le> heads_from_50 (0 + 3)"
    by (simp add: heads_from_50_def)
  from live_path_never_deferred [of lock_at_50 lock_listener_ok heads_from_50 0 3 fresh] h
  have "\<exists>m es. m \<le> 3
        \<and> confirmationDepth lock_listener_ok \<le> heads_from_50 (0 + m) - blockNumber lock_at_50
        \<and> (\<forall>i<m. heads_from_50 (0 + i) < blockNumber lock_at_50 + confirmationDepth lock_listener_ok)
        \<and> LockListener_waitForConfirmation lock_listener_ok heads_from_50 0 lock_at_50 fresh =
            Some (LockListener_handleEvent lock_listener_ok lock_at_50 (heads_from_50 (0 + m))
                    (emit fresh (replicate m (Sleep 1000))))
        \<and> trace (LockListener_handleEvent lock_listener_ok lock_at_50 (heads_from_50 (0 + m))
                    (emit fresh (replicate m (Sleep 1000)))) =
            trace fresh @ replicate m (Sleep 1000) @ es
        \<and> (\<forall>l n. Log (NotYetConfirmed l n) \<notin> set es)"
    by blast
  then have "\<exists>m es. m \<le> 3
        \<and> confirmationDepth lock_listener_ok \<le> heads_from_50 (0 + m) - blockNumber lock_at_50
        \<and> LockListener_waitForConfirmation lock_listener_ok heads_from_50 0 lock_at_50 fresh =
            Some (LockListener_handleEvent lock_listener_ok lock_at_50 (heads_from_50 (0 + m))
                    (emit fresh (replicate m (Sleep 1000))))
        \<and> trace (LockListener_handleEvent lock_listener_ok lock_at_50 (heads_from_50 (0 + m))
                    (emit fresh (replicate m (Sleep 1000)))) =
            trace fresh @ replicate m (Sleep 1000) @ es
        \<and> (\<forall>l n. Log (NotYetConfirmed l n) \<notin> set es)"
    by blast
  with h lock_wait_three_polls show ?thesis by blast
qed

section \<open>Claims about recovery\<close>

text \<open>
  C8. For the lock and the governance listener: when the stored cursor is not below the
  head, \<open>recoverMissedEvents\<close> returns without any effect; when the cursor is below the
  head and the range query returns no event, the pass logs the scan and sets the cursor to
  the head, and does nothing else (no processed mark, no destination call); and a pass run
  again with the same head changes nothing, whatever the first pass did.
\<close>

theorem recover_rerun_noop:
  "(H \<le> getLastBlock (db w) ''chainA_lock''
      \<longrightarrow> LockListener_recoverMissedEvents L H w = w)
   \<and> (getLastBlock (db w) ''chainA_lock'' < H
       \<and> queryFilter L (getLastBlock (db w) ''chainA_lock'' + 1) H = []
      \<longrightarrow> LockListener_recoverMissedEvents L H w =
           \<lparr>db = setLastBlock (db w) ''chainA_lock'' H,
            trace = trace w @ [Log (RecoveryScanning LockListener
                       (getLastBlock (db w) ''chainA_lock'' + 1) H)]\<rparr>)
   \<and> LockListener_recoverMissedEvents L H (LockListener_recoverMissedEvents L H w) =
       LockListener_recoverMissedEvents L H w
   \<and> (H \<le> getLastBlock (db w) ''chainB_governance''
      \<longrightarrow> GovernanceListener_recoverMissedEvents G H w = w)
   \<and> (getLastBlock (db w) ''chainB_governance'' < H
       \<and> queryFilter G (getLastBlock (db w) ''chainB_governance'' + 1) H = []
      \<longrightarrow> GovernanceListener_recoverMissedEvents G H w =
           \<lparr>db = setLastBlock (db w) ''chainB_governance'' H,
            trace = trace w @ [Log (RecoveryScanning GovernanceListener
                       (getLastBlock (db w) ''chainB_governance'' + 1) H)]\<rparr>)
   \<and> GovernanceListener_recoverMissedEvents G H (GovernanceListener_recoverMissedEvents G H w) =
       GovernanceListener_recoverMissedEvents G H w"
proof -
  have l1: "LockListener_recoverMissedEvents L H w = w"
    if "H \<le> getLastBlock (db w) ''chainA_lock''"
    using that by (rule LockListener_recover_noop)
  have l2: "LockListener_recoverMissedEvents L H w =
           \<lparr>db = setLastBlock (db w) ''chainA_lock'' H,
            trace = trace w @ [Log (RecoveryScanning LockListener
                       (getLastBlock (db w) ''chainA_lock'' + 1) H)]\<rparr>"
    if "getLastBlock (db w) ''chainA_lock'' < H"
      "queryFilter L (getLastBlock (db w) ''chainA_lock'' + 1) H = []"
    using that by (simp add: LockListener_recover_scan emit_def)
  have l3: "LockListener_recoverMissedEvents L H (LockListener_recoverMissedEvents L H w) =
       LockListener_recoverMissedEvents L H w"
  proof (cases "H \<le> getLastBlock (db w) ''chainA_lock''")
    case True
    then show ?thesis by (simp add: LockListener_recover_noop)
  next
    case False
    then have "getLastBlock (db (LockListener_recoverMissedEvents L H w)) ''chainA_lock'' = H"
      by (intro LockListener_recover_cursor) simp
    then show ?thesis by (intro LockListener_recover_noop) simp
  qed
  have g1: "GovernanceListener_recoverMissedEvents G H w = w"
    if "H \<le> getLastBlock (db w) ''chainB_governance''"
    using that by (rule GovernanceListener_recover_noop)
  have g2: "GovernanceListener_recoverMissedEvents G H w =
           \<lparr>db = setLastBlock (db w) ''chainB_governance'' H,
            trace = trace w @ [Log (RecoveryScanning GovernanceListener
                       (getLastBlock (db w) ''chainB_governance'' + 1) H)]\<rparr>"
    if "getLastBlock (db w) ''chainB_governance'' < H"
      "queryFilter G (getLastBlock (db w) ''chainB_governance'' + 1) H = []"
    using that by (simp add: GovernanceListener_recover_scan emit_def)
  have g3: "GovernanceListener_recoverMissedEvents G H (GovernanceListener_recoverMissedEvents G H w) =
       GovernanceListener_recoverMissedEvents G H w"
  proof (cases "H \<le> getLastBlock (db w) ''chainB_governance''")
    case True
    then show ?thesis by (simp add: GovernanceListener_recover_noop)
  next
    case False
    then have "getLastBlock (db (GovernanceListener_recoverMissedEvents G H w))
        ''chainB_governance'' = H"
      by (intro GovernanceListener_recover_cursor) simp
    then show ?thesis by (intro GovernanceListener_recover_noop) simp
  qed
  from l1 l2 l3 g1 g2 g3 show ?thesis by blast
qed

theorem recover_rerun_noop_witness:
  "0 \<le> getLastBlock (db fresh) ''chainA_lock''
   \<and> LockListener_recoverMissedEvents lock_listener_ok 0 fresh = fresh
   \<and> getLastBlock (db fresh) ''chainA_lock'' < 40
   \<and> queryFilter lock_listener_ok (getLastBlock (db fresh) ''chainA_lock'' + 1) 40 = []
   \<and> LockListener_recoverMissedEvents lock_listener_ok 40 fresh =
       \<lparr>db = \<lparr>processed_events = [], block_cursors = [(''chainA_lock'', 40)]\<rparr>,
        trace = [Log (RecoveryScanning LockListener 1 40)]\<rparr>
   \<and> LockListener_recoverMissedEvents lock_listener_ok 40
         (LockListener_recoverMissedEvents lock_listener_ok 40 fresh) =
       LockListener_recoverMissedEvents lock_listener_ok 40 fresh
   \<and> 0 \<le> getLastBlock (db fresh) ''chainB_governance''
   \<and> GovernanceListener_recoverMissedEvents governance_listener_ok 0 fresh = fresh
   \<and> getLastBlock (db fresh) ''chainB_governance'' < 40
   \<and> queryFilter governance_listener_ok (getLastBlock (db fresh) ''chainB_governance'' + 1) 40 = []
   \<and> GovernanceListener_recoverMissedEvents governance_listener_ok 40 fresh =
       \<lparr>db = \<lparr>processed_events = [], block_cursors = [(''chainB_governance'', 40)]\<rparr>,
        trace = [Log (RecoveryScanning GovernanceListener 1 40)]\<rparr>
   \<and> GovernanceListener_recoverMissedEvents governance_listener_ok 40
         (GovernanceListener_recoverMissedEvents governance_listener_ok 40 fresh) =
       GovernanceListener_recoverMissedEvents governance_listener_ok 40 fresh"
proof -
  note at_0 = recover_rerun_noop [where H = 0 and w = fresh and L = lock_listener_ok
      and G = governance_listener_ok]
  note at_40 = recover_rerun_noop [where H = 40 and w = fresh and L = lock_listener_ok
      and G = governance_listener_ok]
  have h1: "0 \<le> getLastBlock (db fresh) ''chainA_lock''"
    and h2: "getLastBlock (db fresh) ''chainA_lock'' < 40"
    and h3: "queryFilter lock_listener_ok (getLastBlock (db fresh) ''chainA_lock'' + 1) 40 = []"
    and h4: "0 \<le> getLastBlock (db fresh) ''chainB_governance''"
    and h5: "getLastBlock (db fresh) ''chainB_governance'' < 40"
    and h6: "queryFilter governance_listener_ok
        (getLastBlock (db fresh) ''chainB_governance'' + 1) 40 = []"
    by (simp_all add: chain_with_lock_at_50_def no_proposals_def)
  have l0: "LockListener_recoverMissedEvents lock_listener_ok 0 fresh = fresh"
    and g0: "GovernanceListener_recoverMissedEvents governance_listener_ok 0 fresh = fresh"
    using at_0 h1 h4 by blast+
  have "LockListener_recoverMissedEvents lock_listener_ok 40 fresh =
      \<lparr>db = setLastBlock (db fresh) ''chainA_lock'' 40,
       trace = trace fresh @ [Log (RecoveryScanning LockListener
                  (getLastBlock (db fresh) ''chainA_lock'' + 1) 40)]\<rparr>"
    using at_40 h2 h3 by blast
  then have l40: "LockListener_recoverMissedEvents lock_listener_ok 40 fresh =
       \<lparr>db = \<lparr>processed_events = [], block_cursors = [(''chainA_lock'', 40)]\<rparr>,
        trace = [Log (RecoveryScanning LockListener 1 40)]\<rparr>"
    by (simp add: setLastBlock_def initTables_def getLastBlock_def)
  have "GovernanceListener_recoverMissedEvents governance_listener_ok 40 fresh =
      \<lparr>db = setLastBlock (db fresh) ''chainB_governance'' 40,
       trace = trace fresh @ [Log (RecoveryScanning GovernanceListener
                  (getLastBlock (db fresh) ''chainB_governance'' + 1) 40)]\<rparr>"
    using at_40 h5 h6 by blast
  then have g40: "GovernanceListener_recoverMissedEvents governance_listener_ok 40 fresh =
       \<lparr>db = \<lparr>processed_events = [], block_cursors = [(''chainB_governance'', 40)]\<rparr>,
        trace = [Log (RecoveryScanning GovernanceListener 1 40)]\<rparr>"
    by (simp add: setLastBlock_def initTables_def getLastBlock_def)
  have li: "LockListener_recoverMissedEvents lock_listener_ok 40
         (LockListener_recoverMissedEvents lock_listener_ok 40 fresh) =
       LockListener_recoverMissedEvents lock_listener_ok 40 fresh"
    and gi: "GovernanceListener_recoverMissedEvents governance_listener_ok 40
         (GovernanceListener_recoverMissedEvents governance_listener_ok 40 fresh) =
       GovernanceListener_recoverMissedEvents governance_listener_ok 40 fresh"
    using at_40 by blast+
  from h1 h2 h3 h4 h5 h6 l0 g0 l40 g40 li gi show ?thesis
    by blast
qed

section \<open>Claims about the cursor\<close>

text \<open>
  C6 (as amended). \<open>setLastBlock\<close> is an unconditional upsert: afterwards the cursor of
  the stream is the written value, whatever it was before. A mined first attempt for a
  confirmed, unmarked Locked event sets the cursor to the block of that event. Within one
  recovery pass whose range query returns its events in ascending block order, all inside
  the range above the stored cursor and up to the head, the cursor never decreases: the
  values before the pass, after each event and after the closing write are ascending.
\<close>

theorem cursor_writes:
  "getLastBlock (setLastBlock d c b) c = b
   \<and> (confirmationDepth L \<le> H - blockNumber ev
       \<and> \<not> isProcessed (db w) (Number (args_nonce ev)) ''chainA'' ''Locked''
       \<and> submitTx L (submitted (trace w))
            (mintWrapped (args_user ev) (args_amount ev) (Number (args_nonce ev))) = Mined h
      \<longrightarrow> getLastBlock (db (LockListener_handleEvent L ev H w)) ''chainA_lock''
            = blockNumber ev)
   \<and> (getLastBlock (db v) ''chainA_lock'' < H
       \<and> sorted (map blockNumber (queryFilter L (getLastBlock (db v) ''chainA_lock'' + 1) H))
       \<and> (\<forall>e \<in> set (queryFilter L (getLastBlock (db v) ''chainA_lock'' + 1) H).
             getLastBlock (db v) ''chainA_lock'' < blockNumber e \<and> blockNumber e \<le> H)
      \<longrightarrow> sorted (getLastBlock (db v) ''chainA_lock'' # LockListener_recovery_cursors L H v))"
proof (intro conjI impI)
  show "getLastBlock (setLastBlock d c b) c = b"
    by (simp add: getLastBlock_setLastBlock)
next
  assume a: "confirmationDepth L \<le> H - blockNumber ev
       \<and> \<not> isProcessed (db w) (Number (args_nonce ev)) ''chainA'' ''Locked''
       \<and> submitTx L (submitted (trace w))
            (mintWrapped (args_user ev) (args_amount ev) (Number (args_nonce ev))) = Mined h"
  then have "LockListener_handleEvent L ev H w =
     emit (w\<lparr>db := setLastBlock
                (markProcessed (db w) (Number (args_nonce ev)) ''chainA'' h ''Locked'')
                ''chainA_lock'' (blockNumber ev)\<rparr>)
       [Log (Processing LockListener (Number (args_nonce ev))),
        Submit (mintWrapped (args_user ev) (args_amount ev) (Number (args_nonce ev))) (Mined h),
        Log (Successful LockListener (Number (args_nonce ev)) h)]"
    by (intro LockListener_handleEvent_first_mined) simp_all
  then show "getLastBlock (db (LockListener_handleEvent L ev H w)) ''chainA_lock''
            = blockNumber ev"
    by (simp add: getLastBlock_setLastBlock)
next
  let ?C = "getLastBlock (db v) ''chainA_lock''"
  let ?w1 = "emit v [Log (RecoveryScanning LockListener (?C + 1) H)]"
  assume a: "?C < H
       \<and> sorted (map blockNumber (queryFilter L (?C + 1) H))
       \<and> (\<forall>e \<in> set (queryFilter L (?C + 1) H). ?C < blockNumber e \<and> blockNumber e \<le> H)"
  have "sorted (map (\<lambda>v. getLastBlock (db v) ''chainA_lock'')
            (states (\<lambda>v ev. LockListener_handleEvent L ev H v) ?w1
               (queryFilter L (?C + 1) H)) @ [H])"
    using a by (intro recovery_cursors_sorted) auto
  moreover obtain vs where "states (\<lambda>v ev. LockListener_handleEvent L ev H v) ?w1
               (queryFilter L (?C + 1) H) = ?w1 # vs"
    using states_Cons by blast
  moreover have "getLastBlock (db (LockListener_recoverMissedEvents L H v)) ''chainA_lock'' = H"
    using a by (intro LockListener_recover_cursor) simp
  ultimately show "sorted (?C # LockListener_recovery_cursors L H v)"
    by (simp add: LockListener_recovery_cursors_def Let_def)
qed

theorem cursor_writes_witness:
  "getLastBlock (setLastBlock initTables ''chainA_lock'' 7) ''chainA_lock'' = 7
   \<and> confirmationDepth lock_listener_ok \<le> 60 - blockNumber lock_at_50
   \<and> \<not> isProcessed (db fresh) (Number (args_nonce lock_at_50)) ''chainA'' ''Locked''
   \<and> submitTx lock_listener_ok (submitted (trace fresh))
        (mintWrapped (args_user lock_at_50) (args_amount lock_at_50)
           (Number (args_nonce lock_at_50))) = Mined ''0xaa''
   \<and> getLastBlock (db (LockListener_handleEvent lock_listener_ok lock_at_50 60 fresh))
        ''chainA_lock'' = 50
   \<and> getLastBlock (db fresh) ''chainA_lock'' < 60
   \<and> queryFilter lock_listener_ok (getLastBlock (db fresh) ''chainA_lock'' + 1) 60
       = [lock_at_50]
   \<and> getLastBlock (db fresh) ''chainA_lock'' < blockNumber lock_at_50
   \<and> blockNumber lock_at_50 \<le> 60
   \<and> sorted (getLastBlock (db fresh) ''chainA_lock''
        # LockListener_recovery_cursors lock_listener_ok 60 fresh)
   \<and> LockListener_recovery_cursors lock_listener_ok 60 fresh = [0, 50, 60]"
  using cursor_writes [of initTables "''chainA_lock''" 7 lock_listener_ok 60 lock_at_50 fresh
      "''0xaa''" fresh]
  by (simp add: Number_small always_mined_def lock_ok_recovery_cursors)

text \<open>
  C6 as stated fails: when the Locked event at block 102 is handled before the one at block
  101, the cursor goes from 102 down to 101; and the store accepts a lower value.
\<close>

theorem cursor_decrease_counterexample:
  "getLastBlock (db (LockListener_run lock_listener_ok fresh [(lock_at_102, 200)]))
       ''chainA_lock'' = 102
   \<and> getLastBlock (db (LockListener_run lock_listener_ok fresh
         [(lock_at_102, 200), (lock_at_101, 200)])) ''chainA_lock'' = 101
   \<and> getLastBlock (setLastBlock (setLastBlock initTables ''chainA_lock'' 102)
         ''chainA_lock'' 101) ''chainA_lock'' = 101"
proof -
  let ?w2 = "LockListener_handleEvent lock_listener_ok lock_at_102 200 fresh"
  have first: "?w2 =
     emit (fresh\<lparr>db := setLastBlock
                (markProcessed (db fresh) (Number (args_nonce lock_at_102)) ''chainA'' ''0xaa'' ''Locked'')
                ''chainA_lock'' (blockNumber lock_at_102)\<rparr>)
       [Log (Processing LockListener (Number (args_nonce lock_at_102))),
        Submit (mintWrapped (args_user lock_at_102) (args_amount lock_at_102) (Number (args_nonce lock_at_102)))
          (Mined ''0xaa''),
        Log (Successful LockListener (Number (args_nonce lock_at_102)) ''0xaa'')]"
    by (rule lock_ok_cursor) simp_all
  then have c1: "getLastBlock (db ?w2) ''chainA_lock'' = 102"
    by (simp add: getLastBlock_setLastBlock)
  have unseen: "\<not> isProcessed (db ?w2) (Number (args_nonce lock_at_101)) ''chainA'' ''Locked''"
    unfolding first by (simp add: isProcessed_markProcessed Number_small)
  have "LockListener_handleEvent lock_listener_ok lock_at_101 200 ?w2 =
     emit (?w2\<lparr>db := setLastBlock
                (markProcessed (db ?w2) (Number (args_nonce lock_at_101)) ''chainA'' ''0xaa'' ''Locked'')
                ''chainA_lock'' (blockNumber lock_at_101)\<rparr>)
       [Log (Processing LockListener (Number (args_nonce lock_at_101))),
        Submit (mintWrapped (args_user lock_at_101) (args_amount lock_at_101) (Number (args_nonce lock_at_101)))
          (Mined ''0xaa''),
        Log (Successful LockListener (Number (args_nonce lock_at_101)) ''0xaa'')]"
    using unseen by (intro lock_ok_cursor) simp_all
  then have c2: "getLastBlock (db (LockListener_handleEvent lock_listener_ok lock_at_101 200 ?w2))
      ''chainA_lock'' = 101"
    by (simp add: getLastBlock_setLastBlock)
  from c1 c2 show ?thesis
    by (simp add: LockListener_run_def getLastBlock_setLastBlock)
qed

section \<open>Claims about replays\<close>

text \<open>
  C1 (as amended). In each of the three listeners: if \<open>_handleEvent\<close> is called on an
  event with a confirmed head and one of its three attempts is mined (for the governance
  listener: the event carries the selector of \<open>pauseBridge()\<close>), then afterwards the event
  is marked processed, and a second call with a confirmed head, made after the first one
  has returned, returns at the \<open>isProcessed\<close> check: it only logs "already processed",
  the store is unchanged and no destination call is made. Over any number of
  \<open>_handleEvent\<close> calls of one listener that run one after the other, starting where no
  destination call for a given nonce was mined yet, at most one destination call for that
  nonce is mined: at most one mined \<open>mintWrapped\<close> and at most one mined \<open>unlock\<close> with
  the nonce, and at most one logged pause for a proposal, where the mined \<open>pauseBridge()\<close>
  calls are as many as the logged pauses. Attempts that throw are repeated, so the call
  itself can be made several times with the same nonce. \<open>_handleEvent\<close> is its part
  before the first \<open>await\<close> followed by the rest; nothing is said here about calls that
  overlap.
\<close>

theorem replay_after_mined:
  "(confirmationDepth L \<le> H - blockNumber ev \<and> confirmationDepth L \<le> H' - blockNumber ev
      \<and> j < 3
      \<and> submitTx L (submitted (trace w) + j)
           (mintWrapped (args_user ev) (args_amount ev) (Number (args_nonce ev))) = Mined h
     \<longrightarrow> isProcessed (db (LockListener_handleEvent L ev H w))
           (Number (args_nonce ev)) ''chainA'' ''Locked''
       \<and> LockListener_handleEvent L ev H' (LockListener_handleEvent L ev H w) =
           emit (LockListener_handleEvent L ev H w)
             [Log (AlreadyProcessed LockListener (Number (args_nonce ev)))])
   \<and> (mined_mints m (trace v) = 0 \<longrightarrow> mined_mints m (trace (LockListener_run L v calls)) \<le> 1)
   \<and> (confirmationDepth L \<le> H - blockNumber ev \<and> confirmationDepth L \<le> H' - blockNumber ev
      \<and> j < 3
      \<and> submitTx L (submitted (trace w) + j)
           (unlock (args_user ev) (args_amount ev) (Number (args_nonce ev))) = Mined h
     \<longrightarrow> isProcessed (db (BurnListener_handleEvent L ev H w))
           (Number (args_nonce ev)) ''chainB'' ''Burned''
       \<and> BurnListener_handleEvent L ev H' (BurnListener_handleEvent L ev H w) =
           emit (BurnListener_handleEvent L ev H w)
             [Log (AlreadyProcessed BurnListener (Number (args_nonce ev)))])
   \<and> (mined_unlocks m (trace v) = 0
     \<longrightarrow> mined_unlocks m (trace (BurnListener_run L v calls)) \<le> 1)
   \<and> (confirmationDepth G \<le> H - blockNumber pv \<and> confirmationDepth G \<le> H' - blockNumber pv
      \<and> take 10 (args_data pv) = pauseSelector
      \<and> j < 3
      \<and> submitTx G (submitted (trace w) + j) pauseBridge = Mined h
     \<longrightarrow> isProcessed (db (GovernanceListener_handleEvent G pv H w))
           (Number (args_proposalId pv)) ''chainB'' ''ProposalPassed''
       \<and> GovernanceListener_handleEvent G pv H' (GovernanceListener_handleEvent G pv H w) =
           emit (GovernanceListener_handleEvent G pv H w)
             [Log (AlreadyProcessed GovernanceListener (Number (args_proposalId pv)))])
   \<and> (pauses_logged_for m (trace v) = 0
     \<longrightarrow> pauses_logged_for m (trace (GovernanceListener_run G v gcalls)) \<le> 1)
   \<and> (\<exists>es. trace (GovernanceListener_run G v gcalls) = trace v @ es
         \<and> mined_pauses es = pauses_logged es)
   \<and> LockListener_handleEvent L ev H w =
       LockListener_handleEvent_rest L ev
         (fst (LockListener_handleEvent_begin L ev H w))
         (snd (LockListener_handleEvent_begin L ev H w))"
proof -
  have lock_run: "mined_mints m (trace (LockListener_run L v calls)) \<le> 1"
    if "mined_mints m (trace v) = 0"
    using that by (intro LockListener_run_inv) simp_all
  have burn_run: "mined_unlocks m (trace (BurnListener_run L v calls)) \<le> 1"
    if "mined_unlocks m (trace v) = 0"
    using that by (intro BurnListener_run_inv) simp_all
  have gov_run: "pauses_logged_for m (trace (GovernanceListener_run G v gcalls)) \<le> 1"
    if "pauses_logged_for m (trace v) = 0"
    using that by (intro GovernanceListener_run_inv) simp_all
  note first = LockListener_handleEvent_replayed [of L H ev H' j w h]
    BurnListener_handleEvent_replayed [of L H ev H' j w h]
    GovernanceListener_handleEvent_replayed [of G H pv H' j w h]
  note rest = GovernanceListener_run_logged [of G v gcalls]
    LockListener_handleEvent_begin_rest [of L ev H w]
  from first rest lock_run burn_run gov_run show ?thesis
    by blast
qed

theorem replay_after_mined_witness:
  "confirmationDepth lock_listener_ok \<le> 60 - blockNumber lock_at_50
   \<and> submitTx lock_listener_ok (submitted (trace fresh) + 0)
        (mintWrapped (args_user lock_at_50) (args_amount lock_at_50)
           (Number (args_nonce lock_at_50))) = Mined ''0xaa''
   \<and> mined_mints 0 (trace fresh) = 0
   \<and> isProcessed (db (LockListener_handleEvent lock_listener_ok lock_at_50 60 fresh))
        0 ''chainA'' ''Locked''
   \<and> LockListener_handleEvent lock_listener_ok lock_at_50 60
        (LockListener_handleEvent lock_listener_ok lock_at_50 60 fresh) =
       emit (LockListener_handleEvent lock_listener_ok lock_at_50 60 fresh)
         [Log (AlreadyProcessed LockListener 0)]
   \<and> mined_mints 0 (trace (LockListener_run lock_listener_ok fresh
        [(lock_at_50, 60), (lock_at_50, 60)])) \<le> 1
   \<and> confirmationDepth burn_listener_ok \<le> 125 - blockNumber burn_at_120
   \<and> submitTx burn_listener_ok (submitted (trace fresh) + 0)
        (unlock (args_user burn_at_120) (args_amount burn_at_120)
           (Number (args_nonce burn_at_120))) = Mined ''0xaa''
   \<and> mined_unlocks 0 (trace fresh) = 0
   \<and> isProcessed (db (BurnListener_handleEvent burn_listener_ok burn_at_120 125 fresh))
        0 ''chainB'' ''Burned''
   \<and> BurnListener_handleEvent burn_listener_ok burn_at_120 125
        (BurnListener_handleEvent burn_listener_ok burn_at_120 125 fresh) =
       emit (BurnListener_handleEvent burn_listener_ok burn_at_120 125 fresh)
         [Log (AlreadyProcessed BurnListener 0)]
   \<and> mined_unlocks 0 (trace (BurnListener_run burn_listener_ok fresh
        [(burn_at_120, 125), (burn_at_120, 125)])) \<le> 1
   \<and> confirmationDepth governance_listener_ok \<le> 210 - blockNumber proposal_0
   \<and> take 10 (args_data proposal_0) = pauseSelector
   \<and> submitTx governance_listener_ok (submitted (trace fresh) + 0) pauseBridge = Mined ''0xaa''
   \<and> pauses_logged_for 0 (trace fresh) = 0
   \<and> isProcessed (db (GovernanceListener_handleEvent governance_listener_ok proposal_0 210 fresh))
        0 ''chainB'' ''ProposalPassed''
   \<and> GovernanceListener_handleEvent governance_listener_ok proposal_0 210
        (GovernanceListener_handleEvent governance_listener_ok proposal_0 210 fresh) =
       emit (GovernanceListener_handleEvent governance_listener_ok proposal_0 210 fresh)
         [Log (AlreadyProcessed GovernanceListener 0)]
   \<and> pauses_logged_for 0 (trace (GovernanceListener_run governance_listener_ok fresh
        [(proposal_0, 210), (proposal_0, 210)])) \<le> 1"
proof -
  note lock = replay_after_mined
    [where L = lock_listener_ok and H = 60 and H' = 60 and ev = lock_at_50 and j = 0
       and w = fresh and h = "''0xaa''" and m = 0 and v = fresh
       and calls = "[(lock_at_50, 60), (lock_at_50, 60)]"]
  note burn = replay_after_mined
    [where L = burn_listener_ok and H = 125 and H' = 125 and ev = burn_at_120 and j = 0
       and w = fresh and h = "''0xaa''" and m = 0 and v = fresh
       and calls = "[(burn_at_120, 125), (burn_at_120, 125)]"]
  note gov = replay_after_mined
    [where G = governance_listener_ok and H = 210 and H' = 210 and pv = proposal_0 and j = 0
       and w = fresh and h = "''0xaa''" and m = 0 and v = fresh
       and gcalls = "[(proposal_0, 210), (proposal_0, 210)]"]
  have n: "Number (args_nonce lock_at_50) = 0" "Number (args_nonce burn_at_120) = 0"
    "Number (args_proposalId proposal_0) = 0"
    by (simp_all add: Number_small)
  have h: "confirmationDepth lock_listener_ok \<le> 60 - blockNumber lock_at_50"
    "submitTx lock_listener_ok (submitted (trace fresh) + 0)
        (mintWrapped (args_user lock_at_50) (args_amount lock_at_50)
           (Number (args_nonce lock_at_50))) = Mined ''0xaa''"
    "mined_mints 0 (trace fresh) = 0"
    "confirmationDepth burn_listener_ok \<le> 125 - blockNumber burn_at_120"
    "submitTx burn_listener_ok (submitted (trace fresh) + 0)
        (unlock (args_user burn_at_120) (args_amount burn_at_120)
           (Number (args_nonce burn_at_120))) = Mined ''0xaa''"
    "mined_unlocks 0 (trace fresh) = 0"
    "confirmationDepth governance_listener_ok \<le> 210 - blockNumber proposal_0"
    "take 10 (args_data proposal_0) = pauseSelector"
    "submitTx governance_listener_ok (submitted (trace fresh) + 0) pauseBridge = Mined ''0xaa''"
    "pauses_logged_for 0 (trace fresh) = 0"
    "(0::nat) < 3"
    by (simp_all add: always_mined_def pauseSelector_def)
  have l: "isProcessed (db (LockListener_handleEvent lock_listener_ok lock_at_50 60 fresh))
        (Number (args_nonce lock_at_50)) ''chainA'' ''Locked''
      \<and> LockListener_handleEvent lock_listener_ok lock_at_50 60
        (LockListener_handleEvent lock_listener_ok lock_at_50 60 fresh) =
       emit (LockListener_handleEvent lock_listener_ok lock_at_50 60 fresh)
         [Log (AlreadyProcessed LockListener (Number (args_nonce lock_at_50)))]
      \<and> mined_mints 0 (trace (LockListener_run lock_listener_ok fresh
        [(lock_at_50, 60), (lock_at_50, 60)])) \<le> 1"
    using lock h by blast
  have b: "isProcessed (db (BurnListener_handleEvent burn_listener_ok burn_at_120 125 fresh))
        (Number (args_nonce burn_at_120)) ''chainB'' ''Burned''
      \<and> BurnListener_handleEvent burn_listener_ok burn_at_120 125
        (BurnListener_handleEvent burn_listener_ok burn_at_120 125 fresh) =
       emit (BurnListener_handleEvent burn_listener_ok burn_at_120 125 fresh)
         [Log (AlreadyProcessed BurnListener (Number (args_nonce burn_at_120)))]
      \<and> mined_unlocks 0 (trace (BurnListener_run burn_listener_ok fresh
        [(burn_at_120, 125), (burn_at_120, 125)])) \<le> 1"
    using burn h by blast
  have g: "isProcessed
        (db (GovernanceListener_handleEvent governance_listener_ok proposal_0 210 fresh))
        (Number (args_proposalId proposal_0)) ''chainB'' ''ProposalPassed''
      \<and> GovernanceListener_handleEvent governance_listener_ok proposal_0 210
        (GovernanceListener_handleEvent governance_listener_ok proposal_0 210 fresh) =
       emit (GovernanceListener_handleEvent governance_listener_ok proposal_0 210 fresh)
         [Log (AlreadyProcessed GovernanceListener (Number (args_proposalId proposal_0)))]
      \<and> pauses_logged_for 0 (trace (GovernanceListener_run governance_listener_ok fresh
        [(proposal_0, 210), (proposal_0, 210)])) \<le> 1"
    using gov h by blast
  from l b g h show ?thesis
    unfolding n by blast
qed

text \<open>
  C1 as stated fails in two ways. When the attempts of the first call all throw, nothing
  is marked and the second call submits again, so that \<open>mintWrapped\<close> is called six times
  with nonce 0. And when a second call for the same event starts while the first one waits
  for its destination call, both pass the replay check, and two \<open>mintWrapped\<close> calls with
  nonce 0 are mined.
\<close>

theorem replay_counterexample:
  "LockListener_handleEvent lock_listener_down lock_at_50 60
       (LockListener_handleEvent lock_listener_down lock_at_50 60 fresh)
     \<noteq> emit (LockListener_handleEvent lock_listener_down lock_at_50 60 fresh)
         [Log (AlreadyProcessed LockListener 0)]
   \<and> submitted (trace (LockListener_handleEvent lock_listener_down lock_at_50 60 fresh)) = 3
   \<and> submitted (trace (LockListener_handleEvent lock_listener_down lock_at_50 60
         (LockListener_handleEvent lock_listener_down lock_at_50 60 fresh))) = 6
   \<and> mined_mints 0
        (trace (LockListener_overlapped lock_listener_ok lock_at_50 60 lock_at_50 60 fresh)) = 2"
proof -
  have "mined_mints 0
      (trace (LockListener_overlapped lock_listener_ok lock_at_50 60 lock_at_50 60 fresh)) = 2"
    by (simp add: lock_ok_overlapped)
  moreover have "LockListener_handleEvent lock_listener_down lock_at_50 60
       (LockListener_handleEvent lock_listener_down lock_at_50 60 fresh)
     \<noteq> emit (LockListener_handleEvent lock_listener_down lock_at_50 60 fresh)
         [Log (AlreadyProcessed LockListener 0)]
   \<and> submitted (trace (LockListener_handleEvent lock_listener_down lock_at_50 60 fresh)) = 3
   \<and> submitted (trace (LockListener_handleEvent lock_listener_down lock_at_50 60
         (LockListener_handleEvent lock_listener_down lock_at_50 60 fresh))) = 6"
    by (simp add: lock_down_any emit_def fresh_def)
  ultimately show ?thesis by blast
qed

section \<open>Claims about the dedup key\<close>

text \<open>
  C9 (as amended). Every listener passes \<open>Number(nonce)\<close> (or \<open>Number(proposalId)\<close>) to
  \<open>isProcessed\<close> and to \<open>markProcessed\<close>: a confirmed event whose converted nonce is
  marked is skipped as already processed; when the first attempt of a confirmed, unmarked
  event is mined, the store afterwards is the one before with the mark of the converted
  nonce and the cursor of the event's block; and whatever happens, a handler leaves the
  store as it was or writes exactly that mark and cursor. The conversion is exact for
  every nonce up to \<open>2 ^ 53\<close>, and two nonces share a key only if the key is at least
  \<open>2 ^ 53\<close>. Above, distinct nonces share a key: \<open>2 ^ 53 + 3\<close> and \<open>2 ^ 53 + 4\<close>, both
  valid 256-bit values, are converted to the same number.

  The governance listener conflates such proposals: once a confirmed pause proposal was
  handled with a mined first attempt, a confirmed proposal with another id and the same
  converted id is skipped as already processed. The lock and the burn listener do not:
  they pass the converted nonce to the destination call as well, an ethers contract
  throws on a number that is not a safe integer, so for a nonce of at least \<open>2 ^ 53\<close>
  all three attempts throw, nothing is marked, and over any number of \<open>_handleEvent\<close>
  calls that run one after the other no key of at least \<open>2 ^ 53\<close> is ever marked on
  their streams.
\<close>

theorem dedup_key:
  "(\<forall>n. n \<le> 2 ^ 53 \<longrightarrow> Number n = n)
   \<and> (Number a = Number b \<and> Number a < 2 ^ 53 \<longrightarrow> a = b)
   \<and> (2::nat) ^ 53 < 2 ^ 53 + 3 \<and> (2::nat) ^ 53 + 3 \<noteq> 2 ^ 53 + 4
   \<and> (2::nat) ^ 53 + 4 < 2 ^ 256
   \<and> Number (2 ^ 53 + 3) = Number (2 ^ 53 + 4)
   \<and> (confirmationDepth L \<le> H - blockNumber ev
       \<and> isProcessed (db w) (Number (args_nonce ev)) ''chainA'' ''Locked''
      \<longrightarrow> LockListener_handleEvent L ev H w =
           emit w [Log (AlreadyProcessed LockListener (Number (args_nonce ev)))])
   \<and> (confirmationDepth L \<le> H - blockNumber ev
       \<and> \<not> isProcessed (db w) (Number (args_nonce ev)) ''chainA'' ''Locked''
       \<and> submitTx L (submitted (trace w))
            (mintWrapped (args_user ev) (args_amount ev) (Number (args_nonce ev))) = Mined h
      \<longrightarrow> db (LockListener_handleEvent L ev H w) =
             setLastBlock
               (markProcessed (db w) (Number (args_nonce ev)) ''chainA'' h ''Locked'')
               ''chainA_lock'' (blockNumber ev)
          \<and> isProcessed (db (LockListener_handleEvent L ev H w)) (Number (args_nonce ev))
               ''chainA'' ''Locked'')
   \<and> (db (LockListener_handleEvent L ev H w) = db w
      \<or> (\<exists>tx. db (LockListener_handleEvent L ev H w) =
             setLastBlock
               (markProcessed (db w) (Number (args_nonce ev)) ''chainA'' tx ''Locked'')
               ''chainA_lock'' (blockNumber ev)))
   \<and> (confirmationDepth B \<le> H - blockNumber ev
       \<and> isProcessed (db w) (Number (args_nonce ev)) ''chainB'' ''Burned''
      \<longrightarrow> BurnListener_handleEvent B ev H w =
           emit w [Log (AlreadyProcessed BurnListener (Number (args_nonce ev)))])
   \<and> (confirmationDepth B \<le> H - blockNumber ev
       \<and> \<not> isProcessed (db w) (Number (args_nonce ev)) ''chainB'' ''Burned''
       \<and> submitTx B (submitted (trace w))
            (unlock (args_user ev) (args_amount ev) (Number (args_nonce ev))) = Mined h
      \<longrightarrow> db (BurnListener_handleEvent B ev H w) =
             setLastBlock
               (markProcessed (db w) (Number (args_nonce ev)) ''chainB'' h ''Burned'')
               ''chainB_burn'' (blockNumber ev)
          \<and> isProcessed (db (BurnListener_handleEvent B ev H w)) (Number (args_nonce ev))
               ''chainB'' ''Burned'')
   \<and> (db (BurnListener_handleEvent B ev H w) = db w
      \<or> (\<exists>tx. db (BurnListener_handleEvent B ev H w) =
             setLastBlock
               (markProcessed (db w) (Number (args_nonce ev)) ''chainB'' tx ''Burned'')
               ''chainB_burn'' (blockNumber ev)))
   \<and> (confirmationDepth G \<le> H - blockNumber pv
       \<and> isProcessed (db w) (Number (args_proposalId pv)) ''chainB'' ''ProposalPassed''
      \<longrightarrow> GovernanceListener_handleEvent G pv H w =
           emit w [Log (AlreadyProcessed GovernanceListener (Number (args_proposalId pv)))])
   \<and> (confirmationDepth G \<le> H - blockNumber pv
       \<and> \<not> isProcessed (db w) (Number (args_proposalId pv)) ''chainB'' ''ProposalPassed''
       \<and> take 10 (args_data pv) = pauseSelector
       \<and> submitTx G (submitted (trace w)) pauseBridge = Mined h
      \<longrightarrow> db (GovernanceListener_handleEvent G pv H w) =
             setLastBlock
               (markProcessed (db w) (Number (args_proposalId pv)) ''chainB'' h
                  ''ProposalPassed'')
               ''chainB_governance'' (blockNumber pv)
          \<and> isProcessed (db (GovernanceListener_handleEvent G pv H w))
               (Number (args_proposalId pv)) ''chainB'' ''ProposalPassed'')
   \<and> (db (GovernanceListener_handleEvent G pv H w) = db w
      \<or> (\<exists>tx. db (GovernanceListener_handleEvent G pv H w) =
             setLastBlock
               (markProcessed (db w) (Number (args_proposalId pv)) ''chainB'' tx
                  ''ProposalPassed'')
               ''chainB_governance'' (blockNumber pv)))
   \<and> (confirmationDepth G \<le> H - blockNumber pv
       \<and> \<not> isProcessed (db w) (Number (args_proposalId pv)) ''chainB'' ''ProposalPassed''
       \<and> take 10 (args_data pv) = pauseSelector
       \<and> submitTx G (submitted (trace w)) pauseBridge = Mined h
       \<and> confirmationDepth G \<le> H' - blockNumber pv'
       \<and> Number (args_proposalId pv') = Number (args_proposalId pv)
      \<longrightarrow> GovernanceListener_handleEvent G pv' H' (GovernanceListener_handleEvent G pv H w) =
           emit (GovernanceListener_handleEvent G pv H w)
             [Log (AlreadyProcessed GovernanceListener (Number (args_proposalId pv)))])
   \<and> (submitTx L = ethers_contract node
       \<and> confirmationDepth L \<le> H - blockNumber ev
       \<and> \<not> isProcessed (db w) (Number (args_nonce ev)) ''chainA'' ''Locked''
       \<and> 2 ^ 53 \<le> args_nonce ev
      \<longrightarrow> LockListener_handleEvent L ev H w =
           emit w
             [Log (Processing LockListener (Number (args_nonce ev))),
              Submit (mintWrapped (args_user ev) (args_amount ev) (Number (args_nonce ev)))
                (Threw (OtherError ''overflow'')),
              Log (AttemptFailed LockListener 1 (OtherError ''overflow'')), Sleep 2000,
              Submit (mintWrapped (args_user ev) (args_amount ev) (Number (args_nonce ev)))
                (Threw (OtherError ''overflow'')),
              Log (AttemptFailed LockListener 2 (OtherError ''overflow'')), Sleep 2000,
              Submit (mintWrapped (args_user ev) (args_amount ev) (Number (args_nonce ev)))
                (Threw (OtherError ''overflow'')),
              Log (AttemptFailed LockListener 3 (OtherError ''overflow'')),
              Log (Critical LockListener (Number (args_nonce ev)))])
   \<and> (submitTx L = ethers_contract node
       \<and> (\<forall>n. 2 ^ 53 \<le> n \<longrightarrow> \<not> isProcessed (db w) n ''chainA'' ''Locked'')
      \<longrightarrow> (\<forall>n. 2 ^ 53 \<le> n \<longrightarrow>
             \<not> isProcessed (db (LockListener_run L w calls)) n ''chainA'' ''Locked''))
   \<and> (submitTx B = ethers_contract node
       \<and> confirmationDepth B \<le> H - blockNumber ev
       \<and> \<not> isProcessed (db w) (Number (args_nonce ev)) ''chainB'' ''Burned''
       \<and> 2 ^ 53 \<le> args_nonce ev
      \<longrightarrow> BurnListener_handleEvent B ev H w =
           emit w
             [Log (Processing BurnListener (Number (args_nonce ev))),
              Submit (unlock (args_user ev) (args_amount ev) (Number (args_nonce ev)))
                (Threw (OtherError ''overflow'')),
              Log (AttemptFailed BurnListener 1 (OtherError ''overflow'')), Sleep 2000,
              Submit (unlock (args_user ev) (args_amount ev) (Number (args_nonce ev)))
                (Threw (OtherError ''overflow'')),
              Log (AttemptFailed BurnListener 2 (OtherError ''overflow'')), Sleep 2000,
              Submit (unlock (args_user ev) (args_amount ev) (Number (args_nonce ev)))
                (Threw (OtherError ''overflow'')),
              Log (AttemptFailed BurnListener 3 (OtherError ''overflow'')),
              Log (Critical BurnListener (Number (args_nonce ev)))])
   \<and> (submitTx B = ethers_contract node
       \<and> (\<forall>n. 2 ^ 53 \<le> n \<longrightarrow> \<not> isProcessed (db w) n ''chainB'' ''Burned'')
      \<longrightarrow> (\<forall>n. 2 ^ 53 \<le> n \<longrightarrow>
             \<not> isProcessed (db (BurnListener_run B w bcalls)) n ''chainB'' ''Burned''))"
proof -
  have exact: "\<forall>n. n \<le> 2 ^ 53 \<longrightarrow> Number n = n"
    by (simp add: Number_exact_up_to_2_53)
  have inj: "Number a = Number b \<and> Number a < 2 ^ 53 \<longrightarrow> a = b"
    using Number_injective_below [of a b] by blast
  have arith: "(2::nat) ^ 53 < 2 ^ 53 + 3" "(2::nat) ^ 53 + 3 \<noteq> 2 ^ 53 + 4"
    "(2::nat) ^ 53 + 4 < 2 ^ 256"
    by simp_all
  have same: "Number (2 ^ 53 + 3) = Number (2 ^ 53 + 4)"
    by (simp only: Number_2_53_3 Number_2_53_4)
  have lock_read: "LockListener_handleEvent L ev H w =
           emit w [Log (AlreadyProcessed LockListener (Number (args_nonce ev)))]"
    if "confirmationDepth L \<le> H - blockNumber ev"
      "isProcessed (db w) (Number (args_nonce ev)) ''chainA'' ''Locked''"
    using that by (rule LockListener_handleEvent_processed)
  have lock_write: "db (LockListener_handleEvent L ev H w) =
             setLastBlock
               (markProcessed (db w) (Number (args_nonce ev)) ''chainA'' h ''Locked'')
               ''chainA_lock'' (blockNumber ev)
          \<and> isProcessed (db (LockListener_handleEvent L ev H w)) (Number (args_nonce ev))
               ''chainA'' ''Locked''"
    if "confirmationDepth L \<le> H - blockNumber ev"
      "\<not> isProcessed (db w) (Number (args_nonce ev)) ''chainA'' ''Locked''"
      "submitTx L (submitted (trace w))
            (mintWrapped (args_user ev) (args_amount ev) (Number (args_nonce ev))) = Mined h"
    unfolding LockListener_handleEvent_first_mined [OF that]
    by (simp add: isProcessed_markProcessed)
  have lock_only: "db (LockListener_handleEvent L ev H w) = db w
      \<or> (\<exists>tx. db (LockListener_handleEvent L ev H w) =
             setLastBlock
               (markProcessed (db w) (Number (args_nonce ev)) ''chainA'' tx ''Locked'')
               ''chainA_lock'' (blockNumber ev))"
    using LockListener_handleEvent_summary [of L ev H w] by blast
  have burn_read: "BurnListener_handleEvent B ev H w =
           emit w [Log (AlreadyProcessed BurnListener (Number (args_nonce ev)))]"
    if "confirmationDepth B \<le> H - blockNumber ev"
      "isProcessed (db w) (Number (args_nonce ev)) ''chainB'' ''Burned''"
    using that by (rule BurnListener_handleEvent_processed)
  have burn_write: "db (BurnListener_handleEvent B ev H w) =
             setLastBlock
               (markProcessed (db w) (Number (args_nonce ev)) ''chainB'' h ''Burned'')
               ''chainB_burn'' (blockNumber ev)
          \<and> isProcessed (db (BurnListener_handleEvent B ev H w)) (Number (args_nonce ev))
               ''chainB'' ''Burned''"
    if "confirmationDepth B \<le> H - blockNumber ev"
      "\<not> isProcessed (db w) (Number (args_nonce ev)) ''chainB'' ''Burned''"
      "submitTx B (submitted (trace w))
            (unlock (args_user ev) (args_amount ev) (Number (args_nonce ev))) = Mined h"
    unfolding BurnListener_handleEvent_first_mined [OF that]
    by (simp add: isProcessed_markProcessed)
  have burn_only: "db (BurnListener_handleEvent B ev H w) = db w
      \<or> (\<exists>tx. db (BurnListener_handleEvent B ev H w) =
             setLastBlock
               (markProcessed (db w) (Number (args_nonce ev)) ''chainB'' tx ''Burned'')
               ''chainB_burn'' (blockNumber ev))"
    using BurnListener_handleEvent_summary [of B ev H w] by blast
  have gov_read: "GovernanceListener_handleEvent G pv H w =
           emit w [Log (AlreadyProcessed GovernanceListener (Number (args_proposalId pv)))]"
    if "confirmationDepth G \<le> H - blockNumber pv"
      "isProcessed (db w) (Number (args_proposalId pv)) ''chainB'' ''ProposalPassed''"
    using that by (rule GovernanceListener_handleEvent_processed)
  have gov_write: "db (GovernanceListener_handleEvent G pv H w) =
             setLastBlock
               (markProcessed (db w) (Number (args_proposalId pv)) ''chainB'' h
                  ''ProposalPassed'')
               ''chainB_governance'' (blockNumber pv)
          \<and> isProcessed (db (GovernanceListener_handleEvent G pv H w))
               (Number (args_proposalId pv)) ''chainB'' ''ProposalPassed''"
    if "confirmationDepth G \<le> H - blockNumber pv"
      "\<not> isProcessed (db w) (Number (args_proposalId pv)) ''chainB'' ''ProposalPassed''"
      "take 10 (args_data pv) = pauseSelector"
      "submitTx G (submitted (trace w)) pauseBridge = Mined h"
    unfolding GovernanceListener_handleEvent_first_mined [OF that]
    by (simp add: isProcessed_markProcessed)
  have gov_only: "db (GovernanceListener_handleEvent G pv H w) = db w
      \<or> (\<exists>tx. db (GovernanceListener_handleEvent G pv H w) =
             setLastBlock
               (markProcessed (db w) (Number (args_proposalId pv)) ''chainB'' tx
                  ''ProposalPassed'')
               ''chainB_governance'' (blockNumber pv))"
    using GovernanceListener_handleEvent_summary [of G pv H w] by blast
  have gov_conflates:
    "GovernanceListener_handleEvent G pv' H' (GovernanceListener_handleEvent G pv H w) =
           emit (GovernanceListener_handleEvent G pv H w)
             [Log (AlreadyProcessed GovernanceListener (Number (args_proposalId pv)))]"
    if "confirmationDepth G \<le> H - blockNumber pv"
      "\<not> isProcessed (db w) (Number (args_proposalId pv)) ''chainB'' ''ProposalPassed''"
      "take 10 (args_data pv) = pauseSelector"
      "submitTx G (submitted (trace w)) pauseBridge = Mined h"
      "confirmationDepth G \<le> H' - blockNumber pv'"
      "Number (args_proposalId pv') = Number (args_proposalId pv)"
  proof -
    have "isProcessed (db (GovernanceListener_handleEvent G pv H w))
               (Number (args_proposalId pv')) ''chainB'' ''ProposalPassed''"
      using conjunct2 [OF gov_write [OF that(1-4)]] unfolding that(6) .
    with that(5) have "GovernanceListener_handleEvent G pv' H' (GovernanceListener_handleEvent G pv H w) =
           emit (GovernanceListener_handleEvent G pv H w)
             [Log (AlreadyProcessed GovernanceListener (Number (args_proposalId pv')))]"
      by (rule GovernanceListener_handleEvent_processed)
    then show ?thesis
      unfolding that(6) .
  qed
  have lock_ethers: "LockListener_handleEvent L ev H w =
           emit w
             [Log (Processing LockListener (Number (args_nonce ev))),
              Submit (mintWrapped (args_user ev) (args_amount ev) (Number (args_nonce ev)))
                (Threw (OtherError ''overflow'')),
              Log (AttemptFailed LockListener 1 (OtherError ''overflow'')), Sleep 2000,
              Submit (mintWrapped (args_user ev) (args_amount ev) (Number (args_nonce ev)))
                (Threw (OtherError ''overflow'')),
              Log (AttemptFailed LockListener 2 (OtherError ''overflow'')), Sleep 2000,
              Submit (mintWrapped (args_user ev) (args_amount ev) (Number (args_nonce ev)))
                (Threw (OtherError ''overflow'')),
              Log (AttemptFailed LockListener 3 (OtherError ''overflow'')),
              Log (Critical LockListener (Number (args_nonce ev)))]"
    if "submitTx L = ethers_contract node" "confirmationDepth L \<le> H - blockNumber ev"
      "\<not> isProcessed (db w) (Number (args_nonce ev)) ''chainA'' ''Locked''"
      "2 ^ 53 \<le> args_nonce ev"
    using that(1-3) Number_large [OF that(4)] by (rule LockListener_ethers_overflow)
  have lock_run: "\<forall>n. 2 ^ 53 \<le> n \<longrightarrow>
             \<not> isProcessed (db (LockListener_run L w calls)) n ''chainA'' ''Locked''"
    if "submitTx L = ethers_contract node"
      "\<forall>n. 2 ^ 53 \<le> n \<longrightarrow> \<not> isProcessed (db w) n ''chainA'' ''Locked''"
    using that by (rule LockListener_ethers_run)
  have burn_ethers: "BurnListener_handleEvent B ev H w =
           emit w
             [Log (Processing BurnListener (Number (args_nonce ev))),
              Submit (unlock (args_user ev) (args_amount ev) (Number (args_nonce ev)))
                (Threw (OtherError ''overflow'')),
              Log (AttemptFailed BurnListener 1 (OtherError ''overflow'')), Sleep 2000,
              Submit (unlock (args_user ev) (args_amount ev) (Number (args_nonce ev)))
                (Threw (OtherError ''overflow'')),
              Log (AttemptFailed BurnListener 2 (OtherError ''overflow'')), Sleep 2000,
              Submit (unlock (args_user ev) (args_amount ev) (Number (args_nonce ev)))
                (Threw (OtherError ''overflow'')),
              Log (AttemptFailed BurnListener 3 (OtherError ''overflow'')),
              Log (Critical BurnListener (Number (args_nonce ev)))]"
    if "submitTx B = ethers_contract node" "confirmationDepth B \<le> H - blockNumber ev"
      "\<not> isProcessed (db w) (Number (args_nonce ev)) ''chainB'' ''Burned''"
      "2 ^ 53 \<le> args_nonce ev"
    using that(1-3) Number_large [OF that(4)] by (rule BurnListener_ethers_overflow)
  have burn_run: "\<forall>n. 2 ^ 53 \<le> n \<longrightarrow>
             \<not> isProcessed (db (BurnListener_run B w bcalls)) n ''chainB'' ''Burned''"
    if "submitTx B = ethers_contract node"
      "\<forall>n. 2 ^ 53 \<le> n \<longrightarrow> \<not> isProcessed (db w) n ''chainB'' ''Burned''"
    using that by (rule BurnListener_ethers_run)
  show ?thesis
    apply (intro conjI)
    subgoal by (rule exact)
    subgoal by (rule inj)
    subgoal by (rule arith)
    subgoal by (rule arith)
    subgoal by (rule arith)
    subgoal by (rule same)
    subgoal by (intro impI, elim conjE, rule lock_read)
    subgoal by (intro impI, elim conjE, rule lock_write)
    subgoal by (rule lock_only)
    subgoal by (intro impI, elim conjE, rule burn_read)
    subgoal by (intro impI, elim conjE, rule burn_write)
    subgoal by (rule burn_only)
    subgoal by (intro impI, elim conjE, rule gov_read)
    subgoal by (intro impI, elim conjE, rule gov_write)
    subgoal by (rule gov_only)
    subgoal by (intro impI, elim conjE, rule gov_conflates)
    subgoal by (intro impI, elim conjE, rule lock_ethers)
    subgoal by (rule impI, elim conjE, rule lock_run)
    subgoal by (intro impI, elim conjE, rule burn_ethers)
    subgoal by (rule impI, elim conjE, rule burn_run)
    done
qed

theorem dedup_key_witness:
  "(5::nat) \<le> 2 ^ 53 \<and> Number 5 = 5 \<and> Number 5 < 2 ^ 53
   \<and> confirmationDepth lock_listener_ok \<le> 60 - blockNumber lock_at_50
   \<and> \<not> isProcessed (db fresh) (Number (args_nonce lock_at_50)) ''chainA'' ''Locked''
   \<and> submitTx lock_listener_ok (submitted (trace fresh))
        (mintWrapped (args_user lock_at_50) (args_amount lock_at_50)
           (Number (args_nonce lock_at_50))) = Mined ''0xaa''
   \<and> db (LockListener_handleEvent lock_listener_ok lock_at_50 60 fresh) =
        setLastBlock (markProcessed (db fresh) (0) ''chainA'' ''0xaa'' ''Locked'')
          ''chainA_lock'' (50)
   \<and> isProcessed (db (LockListener_handleEvent lock_listener_ok lock_at_50 60 fresh))
        (0) ''chainA'' ''Locked''
   \<and> confirmationDepth lock_listener_ok \<le> 61 - blockNumber lock_at_50
   \<and> LockListener_handleEvent lock_listener_ok lock_at_50 61
        (LockListener_handleEvent lock_listener_ok lock_at_50 60 fresh) =
       emit (LockListener_handleEvent lock_listener_ok lock_at_50 60 fresh)
         [Log (AlreadyProcessed LockListener (0))]
   \<and> confirmationDepth burn_listener_ok \<le> 125 - blockNumber burn_at_120
   \<and> \<not> isProcessed (db fresh) (Number (args_nonce burn_at_120)) ''chainB'' ''Burned''
   \<and> submitTx burn_listener_ok (submitted (trace fresh))
        (unlock (args_user burn_at_120) (args_amount burn_at_120)
           (Number (args_nonce burn_at_120))) = Mined ''0xaa''
   \<and> db (BurnListener_handleEvent burn_listener_ok burn_at_120 125 fresh) =
        setLastBlock (markProcessed (db fresh) (0) ''chainB'' ''0xaa'' ''Burned'')
          ''chainB_burn'' (120)
   \<and> isProcessed (db (BurnListener_handleEvent burn_listener_ok burn_at_120 125 fresh))
        (0) ''chainB'' ''Burned''
   \<and> confirmationDepth burn_listener_ok \<le> 126 - blockNumber burn_at_120
   \<and> BurnListener_handleEvent burn_listener_ok burn_at_120 126
        (BurnListener_handleEvent burn_listener_ok burn_at_120 125 fresh) =
       emit (BurnListener_handleEvent burn_listener_ok burn_at_120 125 fresh)
         [Log (AlreadyProcessed BurnListener (0))]
   \<and> confirmationDepth governance_listener_ok \<le> 60 - blockNumber proposal_2_53_4
   \<and> \<not> isProcessed (db fresh) (Number (args_proposalId proposal_2_53_4))
        ''chainB'' ''ProposalPassed''
   \<and> take 10 (args_data proposal_2_53_4) = pauseSelector
   \<and> submitTx governance_listener_ok (submitted (trace fresh)) pauseBridge = Mined ''0xaa''
   \<and> db (GovernanceListener_handleEvent governance_listener_ok proposal_2_53_4 60 fresh) =
        setLastBlock
          (markProcessed (db fresh) (2 ^ 53 + 4) ''chainB'' ''0xaa'' ''ProposalPassed'')
          ''chainB_governance'' (49)
   \<and> isProcessed (db (GovernanceListener_handleEvent governance_listener_ok proposal_2_53_4 60 fresh))
        (2 ^ 53 + 4) ''chainB'' ''ProposalPassed''
   \<and> confirmationDepth governance_listener_ok \<le> 61 - blockNumber proposal_above_2_53
   \<and> args_proposalId proposal_above_2_53 \<noteq> args_proposalId proposal_2_53_4
   \<and> Number (args_proposalId proposal_above_2_53) =
       Number (args_proposalId proposal_2_53_4)
   \<and> GovernanceListener_handleEvent governance_listener_ok proposal_above_2_53 61
        (GovernanceListener_handleEvent governance_listener_ok proposal_2_53_4 60 fresh) =
       emit (GovernanceListener_handleEvent governance_listener_ok proposal_2_53_4 60 fresh)
         [Log (AlreadyProcessed GovernanceListener (2 ^ 53 + 4))]
   \<and> confirmationDepth governance_listener_ok \<le> 62 - blockNumber proposal_2_53_4
   \<and> GovernanceListener_handleEvent governance_listener_ok proposal_2_53_4 62
        (GovernanceListener_handleEvent governance_listener_ok proposal_2_53_4 60 fresh) =
       emit (GovernanceListener_handleEvent governance_listener_ok proposal_2_53_4 60 fresh)
         [Log (AlreadyProcessed GovernanceListener (2 ^ 53 + 4))]
   \<and> submitTx transfer_listener_ethers = ethers_contract always_mined
   \<and> confirmationDepth transfer_listener_ethers \<le> 60 - blockNumber transfer_2_53_4
   \<and> (2::nat) ^ 53 \<le> args_nonce transfer_2_53_4
   \<and> processed_events (db fresh) = []
   \<and> LockListener_handleEvent transfer_listener_ethers transfer_2_53_4 60 fresh =
       emit fresh
         [Log (Processing LockListener (2 ^ 53 + 4)),
          Submit (mintWrapped ''0xf39f'' 100 (2 ^ 53 + 4)) (Threw (OtherError ''overflow'')),
          Log (AttemptFailed LockListener 1 (OtherError ''overflow'')), Sleep 2000,
          Submit (mintWrapped ''0xf39f'' 100 (2 ^ 53 + 4)) (Threw (OtherError ''overflow'')),
          Log (AttemptFailed LockListener 2 (OtherError ''overflow'')), Sleep 2000,
          Submit (mintWrapped ''0xf39f'' 100 (2 ^ 53 + 4)) (Threw (OtherError ''overflow'')),
          Log (AttemptFailed LockListener 3 (OtherError ''overflow'')),
          Log (Critical LockListener (2 ^ 53 + 4))]
   \<and> \<not> isProcessed
          (db (LockListener_run transfer_listener_ethers fresh
                 [(transfer_2_53_4, 60), (transfer_above_2_53, 61)]))
          (2 ^ 53 + 4) ''chainA'' ''Locked''
   \<and> BurnListener_handleEvent transfer_listener_ethers transfer_2_53_4 60 fresh =
       emit fresh
         [Log (Processing BurnListener (2 ^ 53 + 4)),
          Submit (unlock ''0xf39f'' 100 (2 ^ 53 + 4)) (Threw (OtherError ''overflow'')),
          Log (AttemptFailed BurnListener 1 (OtherError ''overflow'')), Sleep 2000,
          Submit (unlock ''0xf39f'' 100 (2 ^ 53 + 4)) (Threw (OtherError ''overflow'')),
          Log (AttemptFailed BurnListener 2 (OtherError ''overflow'')), Sleep 2000,
          Submit (unlock ''0xf39f'' 100 (2 ^ 53 + 4)) (Threw (OtherError ''overflow'')),
          Log (AttemptFailed BurnListener 3 (OtherError ''overflow'')),
          Log (Critical BurnListener (2 ^ 53 + 4))]
   \<and> \<not> isProcessed
          (db (BurnListener_run transfer_listener_ethers fresh
                 [(transfer_2_53_4, 60), (transfer_above_2_53, 61)]))
          (2 ^ 53 + 4) ''chainB'' ''Burned''"
proof -
  note lock = dedup_key
    [where a = 5 and b = 5 and L = lock_listener_ok and H = 60 and ev = lock_at_50
       and w = fresh and h = "''0xaa''"]
  note lock_again = dedup_key
    [where L = lock_listener_ok and H = 61 and ev = lock_at_50
       and w = "LockListener_handleEvent lock_listener_ok lock_at_50 60 fresh"]
  note burn = dedup_key
    [where B = burn_listener_ok and H = 125 and ev = burn_at_120 and w = fresh
       and h = "''0xaa''"]
  note burn_again = dedup_key
    [where B = burn_listener_ok and H = 126 and ev = burn_at_120
       and w = "BurnListener_handleEvent burn_listener_ok burn_at_120 125 fresh"]
  note gov = dedup_key
    [where G = governance_listener_ok and H = 60 and pv = proposal_2_53_4 and w = fresh
       and h = "''0xaa''" and H' = 61 and pv' = proposal_above_2_53]
  note gov_again = dedup_key
    [where G = governance_listener_ok and H = 62 and pv = proposal_2_53_4
       and w = "GovernanceListener_handleEvent governance_listener_ok proposal_2_53_4 60 fresh"]
  note ethers = dedup_key
    [where L = transfer_listener_ethers and B = transfer_listener_ethers
       and node = always_mined and H = 60 and ev = transfer_2_53_4 and w = fresh
       and calls = "[(transfer_2_53_4, 60), (transfer_above_2_53, 61)]"
       and bcalls = "[(transfer_2_53_4, 60), (transfer_above_2_53, 61)]"]
  have n: "Number (args_nonce lock_at_50) = 0" "Number (args_nonce burn_at_120) = 0"
    by (simp_all add: Number_small)
  have n4: "Number (args_proposalId proposal_2_53_4) = 2 ^ 53 + 4"
    "Number (args_nonce transfer_2_53_4) = 2 ^ 53 + 4"
    by (simp_all only: proposal_2_53_4_fields transfer_2_53_4_fields Number_2_53_4)
  have n3: "Number (args_proposalId proposal_above_2_53) = 2 ^ 53 + 4"
    by (simp only: proposal_above_2_53_fields Number_2_53_3)
  have f: "blockNumber lock_at_50 = 50" "blockNumber burn_at_120 = 120"
    "blockNumber proposal_2_53_4 = 49" "args_user transfer_2_53_4 = ''0xf39f''"
    "args_amount transfer_2_53_4 = 100"
    by simp_all
  have five: "(5::nat) \<le> 2 ^ 53" "Number 5 < 2 ^ 53"
    by (simp_all add: Number_small)
  have h: "confirmationDepth lock_listener_ok \<le> 60 - blockNumber lock_at_50"
    "\<not> isProcessed (db fresh) (Number (args_nonce lock_at_50)) ''chainA'' ''Locked''"
    "submitTx lock_listener_ok (submitted (trace fresh))
        (mintWrapped (args_user lock_at_50) (args_amount lock_at_50)
           (Number (args_nonce lock_at_50))) = Mined ''0xaa''"
    "confirmationDepth lock_listener_ok \<le> 61 - blockNumber lock_at_50"
    "confirmationDepth burn_listener_ok \<le> 125 - blockNumber burn_at_120"
    "\<not> isProcessed (db fresh) (Number (args_nonce burn_at_120)) ''chainB'' ''Burned''"
    "submitTx burn_listener_ok (submitted (trace fresh))
        (unlock (args_user burn_at_120) (args_amount burn_at_120)
           (Number (args_nonce burn_at_120))) = Mined ''0xaa''"
    "confirmationDepth burn_listener_ok \<le> 126 - blockNumber burn_at_120"
    "confirmationDepth governance_listener_ok \<le> 60 - blockNumber proposal_2_53_4"
    "\<not> isProcessed (db fresh) (Number (args_proposalId proposal_2_53_4))
        ''chainB'' ''ProposalPassed''"
    "take 10 (args_data proposal_2_53_4) = pauseSelector"
    "submitTx governance_listener_ok (submitted (trace fresh)) pauseBridge = Mined ''0xaa''"
    "confirmationDepth governance_listener_ok \<le> 61 - blockNumber proposal_above_2_53"
    "submitTx transfer_listener_ethers = ethers_contract always_mined"
    "confirmationDepth transfer_listener_ethers \<le> 60 - blockNumber transfer_2_53_4"
    "processed_events (db fresh) = []"
    by (simp_all add: always_mined_def pauseSelector_def isProcessed_def initTables_def)
  have h': "args_proposalId proposal_above_2_53 \<noteq> args_proposalId proposal_2_53_4"
    "(2::nat) ^ 53 \<le> args_nonce transfer_2_53_4"
    by simp_all
  have same: "Number (args_proposalId proposal_above_2_53) =
       Number (args_proposalId proposal_2_53_4)"
    by (simp only: n3 n4)
  have np: "\<not> isProcessed (db fresh) (Number (args_nonce transfer_2_53_4)) ''chainA'' ''Locked''"
    "\<not> isProcessed (db fresh) (Number (args_nonce transfer_2_53_4)) ''chainB'' ''Burned''"
    "\<forall>n. 2 ^ 53 \<le> n \<longrightarrow> \<not> isProcessed (db fresh) n ''chainA'' ''Locked''"
    "\<forall>n. 2 ^ 53 \<le> n \<longrightarrow> \<not> isProcessed (db fresh) n ''chainB'' ''Burned''"
    by (simp_all add: isProcessed_def initTables_def)
  have e: "Number 5 = 5"
    using lock [THEN conjunct1] five(1) by blast
  have l: "db (LockListener_handleEvent lock_listener_ok lock_at_50 60 fresh) =
        setLastBlock
          (markProcessed (db fresh) (Number (args_nonce lock_at_50)) ''chainA'' ''0xaa''
             ''Locked'')
          ''chainA_lock'' (blockNumber lock_at_50)
      \<and> isProcessed (db (LockListener_handleEvent lock_listener_ok lock_at_50 60 fresh))
        (Number (args_nonce lock_at_50)) ''chainA'' ''Locked''"
    using lock [THEN conjunct2, THEN conjunct2, THEN conjunct2, THEN conjunct2, THEN conjunct2, THEN conjunct2, THEN conjunct2, THEN conjunct1] h(1-3) by blast
  have l2: "LockListener_handleEvent lock_listener_ok lock_at_50 61
        (LockListener_handleEvent lock_listener_ok lock_at_50 60 fresh) =
       emit (LockListener_handleEvent lock_listener_ok lock_at_50 60 fresh)
         [Log (AlreadyProcessed LockListener (Number (args_nonce lock_at_50)))]"
    using lock_again [THEN conjunct2, THEN conjunct2, THEN conjunct2, THEN conjunct2, THEN conjunct2, THEN conjunct2, THEN conjunct1] h(4) l by blast
  have b: "db (BurnListener_handleEvent burn_listener_ok burn_at_120 125 fresh) =
        setLastBlock
          (markProcessed (db fresh) (Number (args_nonce burn_at_120)) ''chainB'' ''0xaa''
             ''Burned'')
          ''chainB_burn'' (blockNumber burn_at_120)
      \<and> isProcessed (db (BurnListener_handleEvent burn_listener_ok burn_at_120 125 fresh))
        (Number (args_nonce burn_at_120)) ''chainB'' ''Burned''"
    using burn [THEN conjunct2, THEN conjunct2, THEN conjunct2, THEN conjunct2, THEN conjunct2, THEN conjunct2, THEN conjunct2, THEN conjunct2, THEN conjunct2, THEN conjunct2, THEN conjunct1] h(5-7) by blast
  have b2: "BurnListener_handleEvent burn_listener_ok burn_at_120 126
        (BurnListener_handleEvent burn_listener_ok burn_at_120 125 fresh) =
       emit (BurnListener_handleEvent burn_listener_ok burn_at_120 125 fresh)
         [Log (AlreadyProcessed BurnListener (Number (args_nonce burn_at_120)))]"
    using burn_again [THEN conjunct2, THEN conjunct2, THEN conjunct2, THEN conjunct2, THEN conjunct2, THEN conjunct2, THEN conjunct2, THEN conjunct2, THEN conjunct2, THEN conjunct1] h(8) b by blast
  have g: "db (GovernanceListener_handleEvent governance_listener_ok proposal_2_53_4 60 fresh) =
        setLastBlock
          (markProcessed (db fresh) (Number (args_proposalId proposal_2_53_4)) ''chainB''
             ''0xaa'' ''ProposalPassed'')
          ''chainB_governance'' (blockNumber proposal_2_53_4)
      \<and> isProcessed (db (GovernanceListener_handleEvent governance_listener_ok proposal_2_53_4 60 fresh))
        (Number (args_proposalId proposal_2_53_4)) ''chainB'' ''ProposalPassed''"
    using gov [THEN conjunct2, THEN conjunct2, THEN conjunct2, THEN conjunct2, THEN conjunct2, THEN conjunct2, THEN conjunct2, THEN conjunct2, THEN conjunct2, THEN conjunct2, THEN conjunct2, THEN conjunct2, THEN conjunct2, THEN conjunct1] h(9-12) by blast
  have g2: "GovernanceListener_handleEvent governance_listener_ok proposal_above_2_53 61
        (GovernanceListener_handleEvent governance_listener_ok proposal_2_53_4 60 fresh) =
       emit (GovernanceListener_handleEvent governance_listener_ok proposal_2_53_4 60 fresh)
         [Log (AlreadyProcessed GovernanceListener (Number (args_proposalId proposal_2_53_4)))]"
    using gov [THEN conjunct2, THEN conjunct2, THEN conjunct2, THEN conjunct2, THEN conjunct2, THEN conjunct2, THEN conjunct2, THEN conjunct2, THEN conjunct2, THEN conjunct2, THEN conjunct2, THEN conjunct2, THEN conjunct2, THEN conjunct2, THEN conjunct2, THEN conjunct1] h(9-13) same by blast
  have h62: "confirmationDepth governance_listener_ok \<le> 62 - blockNumber proposal_2_53_4"
    by simp
  have g3: "GovernanceListener_handleEvent governance_listener_ok proposal_2_53_4 62
        (GovernanceListener_handleEvent governance_listener_ok proposal_2_53_4 60 fresh) =
       emit (GovernanceListener_handleEvent governance_listener_ok proposal_2_53_4 60 fresh)
         [Log (AlreadyProcessed GovernanceListener (Number (args_proposalId proposal_2_53_4)))]"
    using gov_again [THEN conjunct2, THEN conjunct2, THEN conjunct2, THEN conjunct2, THEN conjunct2, THEN conjunct2, THEN conjunct2, THEN conjunct2, THEN conjunct2, THEN conjunct2, THEN conjunct2, THEN conjunct2, THEN conjunct1] h62 g by blast
  have el: "LockListener_handleEvent transfer_listener_ethers transfer_2_53_4 60 fresh =
       emit fresh
         [Log (Processing LockListener (Number (args_nonce transfer_2_53_4))),
          Submit (mintWrapped (args_user transfer_2_53_4) (args_amount transfer_2_53_4) (Number (args_nonce transfer_2_53_4)))
            (Threw (OtherError ''overflow'')),
          Log (AttemptFailed LockListener 1 (OtherError ''overflow'')), Sleep 2000,
          Submit (mintWrapped (args_user transfer_2_53_4) (args_amount transfer_2_53_4) (Number (args_nonce transfer_2_53_4)))
            (Threw (OtherError ''overflow'')),
          Log (AttemptFailed LockListener 2 (OtherError ''overflow'')), Sleep 2000,
          Submit (mintWrapped (args_user transfer_2_53_4) (args_amount transfer_2_53_4) (Number (args_nonce transfer_2_53_4)))
            (Threw (OtherError ''overflow'')),
          Log (AttemptFailed LockListener 3 (OtherError ''overflow'')),
          Log (Critical LockListener (Number (args_nonce transfer_2_53_4)))]"
    using ethers [THEN conjunct2, THEN conjunct2, THEN conjunct2, THEN conjunct2, THEN conjunct2, THEN conjunct2, THEN conjunct2, THEN conjunct2, THEN conjunct2, THEN conjunct2, THEN conjunct2, THEN conjunct2, THEN conjunct2, THEN conjunct2, THEN conjunct2, THEN conjunct2, THEN conjunct1] h(14,15) h'(2) np(1) by blast
  have er: "\<forall>n. 2 ^ 53 \<le> n \<longrightarrow> \<not> isProcessed
          (db (LockListener_run transfer_listener_ethers fresh
                 [(transfer_2_53_4, 60), (transfer_above_2_53, 61)]))
          n ''chainA'' ''Locked''"
    using ethers [THEN conjunct2, THEN conjunct2, THEN conjunct2, THEN conjunct2, THEN conjunct2, THEN conjunct2, THEN conjunct2, THEN conjunct2, THEN conjunct2, THEN conjunct2, THEN conjunct2, THEN conjunct2, THEN conjunct2, THEN conjunct2, THEN conjunct2, THEN conjunct2, THEN conjunct2, THEN conjunct1] h(14) np(3) by blast
  have eb: "BurnListener_handleEvent transfer_listener_ethers transfer_2_53_4 60 fresh =
       emit fresh
         [Log (Processing BurnListener (Number (args_nonce transfer_2_53_4))),
          Submit (unlock (args_user transfer_2_53_4) (args_amount transfer_2_53_4) (Number (args_nonce transfer_2_53_4)))
            (Threw (OtherError ''overflow'')),
          Log (AttemptFailed BurnListener 1 (OtherError ''overflow'')), Sleep 2000,
          Submit (unlock (args_user transfer_2_53_4) (args_amount transfer_2_53_4) (Number (args_nonce transfer_2_53_4)))
            (Threw (OtherError ''overflow'')),
          Log (AttemptFailed BurnListener 2 (OtherError ''overflow'')), Sleep 2000,
          Submit (unlock (args_user transfer_2_53_4) (args_amount transfer_2_53_4) (Number (args_nonce transfer_2_53_4)))
            (Threw (OtherError ''overflow'')),
          Log (AttemptFailed BurnListener 3 (OtherError ''overflow'')),
          Log (Critical BurnListener (Number (args_nonce transfer_2_53_4)))]"
    using ethers [THEN conjunct2, THEN conjunct2, THEN conjunct2, THEN conjunct2, THEN conjunct2, THEN conjunct2, THEN conjunct2, THEN conjunct2, THEN conjunct2, THEN conjunct2, THEN conjunct2, THEN conjunct2, THEN conjunct2, THEN conjunct2, THEN conjunct2, THEN conjunct2, THEN conjunct2, THEN conjunct2, THEN conjunct1] h(14,15) h'(2) np(2) by blast
  have ebr: "\<forall>n. 2 ^ 53 \<le> n \<longrightarrow> \<not> isProcessed
          (db (BurnListener_run transfer_listener_ethers fresh
                 [(transfer_2_53_4, 60), (transfer_above_2_53, 61)]))
          n ''chainB'' ''Burned''"
    using ethers [THEN conjunct2, THEN conjunct2, THEN conjunct2, THEN conjunct2, THEN conjunct2, THEN conjunct2, THEN conjunct2, THEN conjunct2, THEN conjunct2, THEN conjunct2, THEN conjunct2, THEN conjunct2, THEN conjunct2, THEN conjunct2, THEN conjunct2, THEN conjunct2, THEN conjunct2, THEN conjunct2, THEN conjunct2] h(14) np(4) by blast
  have r: "\<not> isProcessed
          (db (LockListener_run transfer_listener_ethers fresh
                 [(transfer_2_53_4, 60), (transfer_above_2_53, 61)]))
          (2 ^ 53 + 4) ''chainA'' ''Locked''"
    "\<not> isProcessed
          (db (BurnListener_run transfer_listener_ethers fresh
                 [(transfer_2_53_4, 60), (transfer_above_2_53, 61)]))
          (2 ^ 53 + 4) ''chainB'' ''Burned''"
    using er ebr by simp_all
  have g1: "(5::nat) \<le> 2 ^ 53 \<and> Number 5 = 5 \<and> Number 5 < 2 ^ 53
   \<and> confirmationDepth lock_listener_ok \<le> 60 - blockNumber lock_at_50
   \<and> \<not> isProcessed (db fresh) (Number (args_nonce lock_at_50)) ''chainA'' ''Locked''
   \<and> submitTx lock_listener_ok (submitted (trace fresh))
        (mintWrapped (args_user lock_at_50) (args_amount lock_at_50)
           (Number (args_nonce lock_at_50))) = Mined ''0xaa''
   \<and> db (LockListener_handleEvent lock_listener_ok lock_at_50 60 fresh) =
        setLastBlock (markProcessed (db fresh) (Number (args_nonce lock_at_50)) ''chainA'' ''0xaa'' ''Locked'')
          ''chainA_lock'' (blockNumber lock_at_50)
   \<and> isProcessed (db (LockListener_handleEvent lock_listener_ok lock_at_50 60 fresh))
        (Number (args_nonce lock_at_50)) ''chainA'' ''Locked''
   \<and> confirmationDepth lock_listener_ok \<le> 61 - blockNumber lock_at_50
   \<and> LockListener_handleEvent lock_listener_ok lock_at_50 61
        (LockListener_handleEvent lock_listener_ok lock_at_50 60 fresh) =
       emit (LockListener_handleEvent lock_listener_ok lock_at_50 60 fresh)
         [Log (AlreadyProcessed LockListener (Number (args_nonce lock_at_50)))]
   \<and> confirmationDepth burn_listener_ok \<le> 125 - blockNumber burn_at_120
   \<and> \<not> isProcessed (db fresh) (Number (args_nonce burn_at_120)) ''chainB'' ''Burned''
   \<and> submitTx burn_listener_ok (submitted (trace fresh))
        (unlock (args_user burn_at_120) (args_amount burn_at_120)
           (Number (args_nonce burn_at_120))) = Mined ''0xaa''
   \<and> db (BurnListener_handleEvent burn_listener_ok burn_at_120 125 fresh) =
        setLastBlock (markProcessed (db fresh) (Number (args_nonce burn_at_120)) ''chainB'' ''0xaa'' ''Burned'')
          ''chainB_burn'' (blockNumber burn_at_120)
   \<and> isProcessed (db (BurnListener_handleEvent burn_listener_ok burn_at_120 125 fresh))
        (Number (args_nonce burn_at_120)) ''chainB'' ''Burned''
   \<and> confirmationDepth burn_listener_ok \<le> 126 - blockNumber burn_at_120
   \<and> BurnListener_handleEvent burn_listener_ok burn_at_120 126
        (BurnListener_handleEvent burn_listener_ok burn_at_120 125 fresh) =
       emit (BurnListener_handleEvent burn_listener_ok burn_at_120 125 fresh)
         [Log (AlreadyProcessed BurnListener (Number (args_nonce burn_at_120)))]
   \<and> confirmationDepth governance_listener_ok \<le> 60 - blockNumber proposal_2_53_4
   \<and> \<not> isProcessed (db fresh) (Number (args_proposalId proposal_2_53_4))
        ''chainB'' ''ProposalPassed''
   \<and> take 10 (args_data proposal_2_53_4) = pauseSelector
   \<and> submitTx governance_listener_ok (submitted (trace fresh)) pauseBridge = Mined ''0xaa''
   \<and> db (GovernanceListener_handleEvent governance_listener_ok proposal_2_53_4 60 fresh) =
        setLastBlock
          (markProcessed (db fresh) (Number (args_proposalId proposal_2_53_4)) ''chainB'' ''0xaa'' ''ProposalPassed'')
          ''chainB_governance'' (blockNumber proposal_2_53_4)
   \<and> isProcessed (db (GovernanceListener_handleEvent governance_listener_ok proposal_2_53_4 60 fresh))
        (Number (args_proposalId proposal_2_53_4)) ''chainB'' ''ProposalPassed''
   \<and> confirmationDepth governance_listener_ok \<le> 61 - blockNumber proposal_above_2_53
   \<and> args_proposalId proposal_above_2_53 \<noteq> args_proposalId proposal_2_53_4
   \<and> Number (args_proposalId proposal_above_2_53) =
       Number (args_proposalId proposal_2_53_4)
   \<and> GovernanceListener_handleEvent governance_listener_ok proposal_above_2_53 61
        (GovernanceListener_handleEvent governance_listener_ok proposal_2_53_4 60 fresh) =
       emit (GovernanceListener_handleEvent governance_listener_ok proposal_2_53_4 60 fresh)
         [Log (AlreadyProcessed GovernanceListener (Number (args_proposalId proposal_2_53_4)))]
   \<and> confirmationDepth governance_listener_ok \<le> 62 - blockNumber proposal_2_53_4
   \<and> GovernanceListener_handleEvent governance_listener_ok proposal_2_53_4 62
        (GovernanceListener_handleEvent governance_listener_ok proposal_2_53_4 60 fresh) =
       emit (GovernanceListener_handleEvent governance_listener_ok proposal_2_53_4 60 fresh)
         [Log (AlreadyProcessed GovernanceListener (Number (args_proposalId proposal_2_53_4)))]
   \<and> submitTx transfer_listener_ethers = ethers_contract always_mined
   \<and> confirmationDepth transfer_listener_ethers \<le> 60 - blockNumber transfer_2_53_4
   \<and> (2::nat) ^ 53 \<le> args_nonce transfer_2_53_4
   \<and> processed_events (db fresh) = []
   \<and> LockListener_handleEvent transfer_listener_ethers transfer_2_53_4 60 fresh =
       emit fresh
         [Log (Processing LockListener (Number (args_nonce transfer_2_53_4))),
          Submit (mintWrapped (args_user transfer_2_53_4) (args_amount transfer_2_53_4) (Number (args_nonce transfer_2_53_4)))
            (Threw (OtherError ''overflow'')),
          Log (AttemptFailed LockListener 1 (OtherError ''overflow'')), Sleep 2000,
          Submit (mintWrapped (args_user transfer_2_53_4) (args_amount transfer_2_53_4) (Number (args_nonce transfer_2_53_4)))
            (Threw (OtherError ''overflow'')),
          Log (AttemptFailed LockListener 2 (OtherError ''overflow'')), Sleep 2000,
          Submit (mintWrapped (args_user transfer_2_53_4) (args_amount transfer_2_53_4) (Number (args_nonce transfer_2_53_4)))
            (Threw (OtherError ''overflow'')),
          Log (AttemptFailed LockListener 3 (OtherError ''overflow'')),
          Log (Critical LockListener (Number (args_nonce transfer_2_53_4)))]
   \<and> \<not> isProcessed
          (db (LockListener_run transfer_listener_ethers fresh
                 [(transfer_2_53_4, 60), (transfer_above_2_53, 61)]))
          (2 ^ 53 + 4) ''chainA'' ''Locked''
   \<and> BurnListener_handleEvent transfer_listener_ethers transfer_2_53_4 60 fresh =
       emit fresh
         [Log (Processing BurnListener (Number (args_nonce transfer_2_53_4))),
          Submit (unlock (args_user transfer_2_53_4) (args_amount transfer_2_53_4) (Number (args_nonce transfer_2_53_4)))
            (Threw (OtherError ''overflow'')),
          Log (AttemptFailed BurnListener 1 (OtherError ''overflow'')), Sleep 2000,
          Submit (unlock (args_user transfer_2_53_4) (args_amount transfer_2_53_4) (Number (args_nonce transfer_2_53_4)))
            (Threw (OtherError ''overflow'')),
          Log (AttemptFailed BurnListener 2 (OtherError ''overflow'')), Sleep 2000,
          Submit (unlock (args_user transfer_2_53_4) (args_amount transfer_2_53_4) (Number (args_nonce transfer_2_53_4)))
            (Threw (OtherError ''overflow'')),
          Log (AttemptFailed BurnListener 3 (OtherError ''overflow'')),
          Log (Critical BurnListener (Number (args_nonce transfer_2_53_4)))]
   \<and> \<not> isProcessed
          (db (BurnListener_run transfer_listener_ethers fresh
                 [(transfer_2_53_4, 60), (transfer_above_2_53, 61)]))
          (2 ^ 53 + 4) ''chainB'' ''Burned''"
    by (intro conjI)
      (fact five e h h' same l [THEN conjunct1] l [THEN conjunct2] l2 b [THEN conjunct1]
         b [THEN conjunct2] b2 g [THEN conjunct1] g [THEN conjunct2] g2 h62 g3 el eb r)+
  show ?thesis
    using g1 unfolding n n4 f .
qed

text \<open>
  C9 as stated fails for the lock and the burn listener. With an ethers contract on a
  chain that would mine every call, the event with nonce \<open>2 ^ 53 + 4\<close> is handled first:
  its three attempts throw before anything is sent and the table of marks stays empty. The
  event with nonce \<open>2 ^ 53 + 3\<close>, which has the same key, is then not skipped as already
  processed: it is attempted three times as well.
\<close>

theorem dedup_key_counterexample:
  "args_nonce transfer_above_2_53 \<noteq> args_nonce transfer_2_53_4
   \<and> (2::nat) ^ 53 < args_nonce transfer_above_2_53
   \<and> (2::nat) ^ 53 < args_nonce transfer_2_53_4
   \<and> Number (args_nonce transfer_above_2_53) = Number (args_nonce transfer_2_53_4)
   \<and> submitTx transfer_listener_ethers = ethers_contract always_mined
   \<and> always_mined 0 (mintWrapped ''0xf39f'' 100 (2 ^ 53 + 4)) = Mined ''0xaa''
   \<and> processed_events
        (db (LockListener_handleEvent transfer_listener_ethers transfer_2_53_4 60 fresh)) = []
   \<and> LockListener_handleEvent transfer_listener_ethers transfer_above_2_53 61
        (LockListener_handleEvent transfer_listener_ethers transfer_2_53_4 60 fresh) \<noteq>
       emit (LockListener_handleEvent transfer_listener_ethers transfer_2_53_4 60 fresh)
         [Log (AlreadyProcessed LockListener (2 ^ 53 + 4))]
   \<and> submitted (trace (LockListener_handleEvent transfer_listener_ethers transfer_above_2_53 61
        (LockListener_handleEvent transfer_listener_ethers transfer_2_53_4 60 fresh))) = 6
   \<and> processed_events
        (db (BurnListener_handleEvent transfer_listener_ethers transfer_2_53_4 60 fresh)) = []
   \<and> BurnListener_handleEvent transfer_listener_ethers transfer_above_2_53 61
        (BurnListener_handleEvent transfer_listener_ethers transfer_2_53_4 60 fresh) \<noteq>
       emit (BurnListener_handleEvent transfer_listener_ethers transfer_2_53_4 60 fresh)
         [Log (AlreadyProcessed BurnListener (2 ^ 53 + 4))]
   \<and> submitted (trace (BurnListener_handleEvent transfer_listener_ethers transfer_above_2_53 61
        (BurnListener_handleEvent transfer_listener_ethers transfer_2_53_4 60 fresh))) = 6"
proof -
  have same: "Number (args_nonce transfer_above_2_53) = Number (args_nonce transfer_2_53_4)"
    by (simp only: transfer_above_2_53_fields transfer_2_53_4_fields Number_2_53_3
        Number_2_53_4)
  have a: "args_nonce transfer_above_2_53 \<noteq> args_nonce transfer_2_53_4"
    "(2::nat) ^ 53 < args_nonce transfer_above_2_53"
    "(2::nat) ^ 53 < args_nonce transfer_2_53_4"
    "submitTx transfer_listener_ethers = ethers_contract always_mined"
    "always_mined 0 (mintWrapped ''0xf39f'' 100 (2 ^ 53 + 4)) = Mined ''0xaa''"
    by (simp_all add: always_mined_def)
  from a same lock_ethers_twice(1,3,4) burn_ethers_twice(1,3,4) show ?thesis
    by blast
qed

end
